theory Spec2Isabelle
  imports Complex_Main
begin

section \<open>Numbers, arrays and errors of the source language\<close>

text \<open>
  The forecasting engine is TypeScript (\<^verbatim>\<open>src/lib/predictionModels.ts\<close>). Its values
  of type \<^verbatim>\<open>number\<close> are modelled as reals extended with the three special values
  of the language: \<open>Infinity\<close>, \<open>-Infinity\<close> and \<open>NaN\<close>. Division by zero, the
  square root of a negative number and the other partial operations give the special
  value the language gives; no arithmetic operation raises. The operations \<open>+\<close>,
  \<open>-\<close>, \<open>*\<close> and \<open>/\<close> defined here give the exact result on finite operands; the
  rounding of a result to a 64-bit double is the separate function \<open>binary64\<close>
  defined at the end of this section. The component models and the functions named
  after the source without a suffix are over the exact operations: every equation and
  inequality stated of them is one of exact arithmetic, with no rounding, no overflow
  of a finite result to an infinity and no sign of zero (a zero divisor counts as
  \<open>+0\<close>). The weighted mean of the ensemble, where rounding decides whether the
  combined price lies between the component prices, is also given with every result
  rounded (the definitions with the suffix \<open>binary64\<close>).

  Arrays are lists, with no bound on their length: the limit of \<open>2\<^sup>3\<^sup>2 - 1\<close> elements
  of the language is not modelled, as memory is not. The horizon \<open>days\<close> is an
  integer (the source declares a \<^verbatim>\<open>number\<close> and is called with 1, 7 and 30).
\<close>

datatype number = Fin real | PInf | NInf | NaN

instantiation number :: "{plus, minus, times, inverse}"
begin

fun plus_number :: "number \<Rightarrow> number \<Rightarrow> number" where
  "plus_number (Fin a) (Fin b) = Fin (a + b)"
| "plus_number NaN _ = NaN"
| "plus_number _ NaN = NaN"
| "plus_number PInf NInf = NaN"
| "plus_number NInf PInf = NaN"
| "plus_number PInf _ = PInf"
| "plus_number _ PInf = PInf"
| "plus_number NInf _ = NInf"
| "plus_number _ NInf = NInf"

fun minus_number :: "number \<Rightarrow> number \<Rightarrow> number" where
  "minus_number (Fin a) (Fin b) = Fin (a - b)"
| "minus_number NaN _ = NaN"
| "minus_number _ NaN = NaN"
| "minus_number PInf PInf = NaN"
| "minus_number NInf NInf = NaN"
| "minus_number PInf _ = PInf"
| "minus_number _ NInf = PInf"
| "minus_number NInf _ = NInf"
| "minus_number _ PInf = NInf"

fun times_number :: "number \<Rightarrow> number \<Rightarrow> number" where
  "times_number (Fin a) (Fin b) = Fin (a * b)"
| "times_number NaN _ = NaN"
| "times_number _ NaN = NaN"
| "times_number (Fin a) PInf = (if a = 0 then NaN else if 0 < a then PInf else NInf)"
| "times_number (Fin a) NInf = (if a = 0 then NaN else if 0 < a then NInf else PInf)"
| "times_number PInf (Fin b) = (if b = 0 then NaN else if 0 < b then PInf else NInf)"
| "times_number NInf (Fin b) = (if b = 0 then NaN else if 0 < b then NInf else PInf)"
| "times_number PInf PInf = PInf"
| "times_number NInf NInf = PInf"
| "times_number PInf NInf = NInf"
| "times_number NInf PInf = NInf"

fun divide_number :: "number \<Rightarrow> number \<Rightarrow> number" where
  "divide_number (Fin a) (Fin b) =
     (if b = 0 then (if a = 0 then NaN else if 0 < a then PInf else NInf) else Fin (a / b))"
| "divide_number NaN _ = NaN"
| "divide_number _ NaN = NaN"
| "divide_number (Fin a) PInf = Fin 0"
| "divide_number (Fin a) NInf = Fin 0"
| "divide_number PInf (Fin b) = (if 0 \<le> b then PInf else NInf)"
| "divide_number NInf (Fin b) = (if 0 \<le> b then NInf else PInf)"
| "divide_number PInf PInf = NaN"
| "divide_number PInf NInf = NaN"
| "divide_number NInf PInf = NaN"
| "divide_number NInf NInf = NaN"

definition inverse_number :: "number \<Rightarrow> number" where
  "inverse_number x = divide (Fin 1) x"

instance ..

end

text \<open>The functions of \<^verbatim>\<open>Math\<close> that the engine calls.\<close>

fun Math_sqrt :: "number \<Rightarrow> number" where
  "Math_sqrt (Fin x) = (if x < 0 then NaN else Fin (sqrt x))"
| "Math_sqrt PInf = PInf"
| "Math_sqrt NInf = NaN"
| "Math_sqrt NaN = NaN"

fun Math_exp :: "number \<Rightarrow> number" where
  "Math_exp (Fin x) = Fin (exp x)"
| "Math_exp PInf = PInf"
| "Math_exp NInf = Fin 0"
| "Math_exp NaN = NaN"

fun Math_sin :: "number \<Rightarrow> number" where
  "Math_sin (Fin x) = Fin (sin x)"
| "Math_sin _ = NaN"

fun Math_tanh :: "number \<Rightarrow> number" where
  "Math_tanh (Fin x) = Fin (tanh x)"
| "Math_tanh PInf = Fin 1"
| "Math_tanh NInf = Fin (- 1)"
| "Math_tanh NaN = NaN"

fun Math_max :: "number \<Rightarrow> number \<Rightarrow> number" where
  "Math_max (Fin a) (Fin b) = Fin (max a b)"
| "Math_max NaN _ = NaN"
| "Math_max _ NaN = NaN"
| "Math_max PInf _ = PInf"
| "Math_max _ PInf = PInf"
| "Math_max NInf b = b"
| "Math_max a NInf = a"

text \<open>\<^verbatim>\<open>Math.pow(x, n)\<close> for an exponent that is a natural number (the engine squares).\<close>

fun Math_pow :: "number \<Rightarrow> nat \<Rightarrow> number" where
  "Math_pow (Fin x) n = Fin (x ^ n)"
| "Math_pow NaN n = (if n = 0 then Fin 1 else NaN)"
| "Math_pow PInf n = (if n = 0 then Fin 1 else PInf)"
| "Math_pow NInf n = (if n = 0 then Fin 1 else if even n then PInf else NInf)"

text \<open>
  \<^verbatim>\<open>Number.isFinite\<close>, and the prices the engine is meant for: finite and positive.
\<close>

fun isFinite :: "number \<Rightarrow> bool" where
  "isFinite (Fin x) = True"
| "isFinite _ = False"

fun positive :: "number \<Rightarrow> bool" where
  "positive (Fin x) = (0 < x)"
| "positive _ = False"

text \<open>The real number that a finite number is (0 stands in for the other three).\<close>

fun real_of_number :: "number \<Rightarrow> real" where
  "real_of_number (Fin x) = x"
| "real_of_number _ = 0"

text \<open>
  \<^verbatim>\<open>Math.random()\<close> reads and advances a generator that the whole process shares.
  The generator's state is the sequence of the draws it still has to give; a call
  returns the first one and leaves the rest.
\<close>

type_synonym rng = "nat \<Rightarrow> real"

definition Math_random :: "rng \<Rightarrow> number \<times> rng" where
  "Math_random g = (Fin (g 0), \<lambda>n. g (Suc n))"

text \<open>
  The only exception the engine can raise is the \<open>RangeError\<close> of \<^verbatim>\<open>Array(days)\<close>
  for a negative length. Reading an array outside its bounds does not raise: it gives
  \<^verbatim>\<open>undefined\<close>, which every use in the source turns into \<open>NaN\<close> at once (all reads
  are operands of arithmetic). Each function below takes a flag \<open>checked\<close>. With
  \<open>checked = False\<close> it is the program as the language runs it. With \<open>checked = True\<close>
  a read outside the bounds stops the run with \<open>OutOfBounds\<close>, and a division by an
  accumulated weight or by a count that is zero stops it with \<open>DivisionByZero\<close>, so that
  the absence of such reads and divisions can be stated.
\<close>

datatype error = RangeError | OutOfBounds | DivisionByZero

type_synonym 'a result = "error + 'a"

definition bindE :: "'a result \<Rightarrow> ('a \<Rightarrow> 'b result) \<Rightarrow> 'b result" where
  "bindE m f = (case m of Inl e \<Rightarrow> Inl e | Inr x \<Rightarrow> f x)"

definition at_index :: "bool \<Rightarrow> number list \<Rightarrow> int \<Rightarrow> number result" where
  "at_index checked xs i =
     (if 0 \<le> i \<and> i < int (length xs) then Inr (xs ! nat i)
      else if checked then Inl OutOfBounds else Inr NaN)"

definition checked_div :: "bool \<Rightarrow> number \<Rightarrow> number \<Rightarrow> number result" where
  "checked_div checked a b = (if checked \<and> b = Fin 0 then Inl DivisionByZero else Inr (a / b))"

text \<open>\<^verbatim>\<open>xs.slice(-n)\<close>: the last \<open>n\<close> elements, or all of them when there are fewer.\<close>

definition slice_last :: "nat \<Rightarrow> 'a list \<Rightarrow> 'a list" where
  "slice_last n xs = drop (length xs - n) xs"

text \<open>
  A \<^verbatim>\<open>for\<close> loop over the indices \<open>[a..<n]\<close>, a \<^verbatim>\<open>for ... of\<close> loop and a \<^verbatim>\<open>map\<close>
  whose callback has an effect all run a body over a list from left to right, passing
  the variables the body assigns; the first error ends the run.
\<close>

fun for_each :: "'a list \<Rightarrow> ('a \<Rightarrow> 's \<Rightarrow> 's result) \<Rightarrow> 's \<Rightarrow> 's result" where
  "for_each [] body s = Inr s"
| "for_each (x # xs) body s =
     (case body x s of Inl e \<Rightarrow> Inl e | Inr s' \<Rightarrow> for_each xs body s')"

text \<open>
  Two runs agree when the second returns whatever value the first returns. The run with
  the checks and the run without them are compared this way.
\<close>

definition agrees :: "'a result \<Rightarrow> 'a result \<Rightarrow> bool" where
  "agrees r1 r2 = (case r1 of Inl e \<Rightarrow> True | Inr v \<Rightarrow> r2 = Inr v)"

text \<open>\<^verbatim>\<open>Array(days).fill(0)\<close>.\<close>

definition Array_fill_0 :: "int \<Rightarrow> number list result" where
  "Array_fill_0 days = (if days < 0 then Inl RangeError else Inr (replicate (nat days) (Fin 0)))"

subsection \<open>Rounding to a 64-bit double\<close>

text \<open>
  The language computes in IEEE 754 binary64: the result of an operation is the exact
  result rounded to the nearest number with 53 significant bits, a tie going to the
  even mantissa; below \<open>2\<^sup>-\<^sup>1\<^sup>0\<^sup>2\<^sup>2\<close> the representable numbers are the multiples of
  \<open>2\<^sup>-\<^sup>1\<^sup>0\<^sup>7\<^sup>4\<close>, and a result that rounds to \<open>2\<^sup>1\<^sup>0\<^sup>2\<^sup>4\<close> or beyond is an infinity.
  \<open>round_ties_even\<close> rounds a real to an integer. For a positive \<open>x\<close>, \<open>ilog2 x\<close> is
  the exponent \<open>e\<close> with \<open>2\<^sup>e \<le> x < 2\<^sup>e\<^sup>+\<^sup>1\<close>, found by halving a number from 1 upwards
  and doubling a number below 1. \<open>binary64\<close> is the rounding; \<open>unit_roundoff\<close> is
  the bound \<open>2\<^sup>-\<^sup>5\<^sup>3\<close> of its relative error.
\<close>

definition round_ties_even :: "real \<Rightarrow> int" where
  "round_ties_even z =
     (let n = \<lfloor>z\<rfloor>; f = z - of_int n
      in if f < 1 / 2 then n else if 1 / 2 < f then n + 1 else if even n then n else n + 1)"

function ilog2_up :: "real \<Rightarrow> int" where
  "ilog2_up x = (if x < 2 then 0 else ilog2_up (x / 2) + 1)"
  by auto
termination
proof (relation "measure (\<lambda>x. nat \<lfloor>x\<rfloor>)", goal_cases)
  case 1
  show ?case by simp
next
  case (2 x)
  then have "2 \<le> x" by simp
  then have "\<lfloor>x / 2\<rfloor> < \<lfloor>x\<rfloor>" and "0 < \<lfloor>x\<rfloor>" by linarith+
  then show ?case by simp
qed

function ilog2_down :: "real \<Rightarrow> int" where
  "ilog2_down x = (if x \<le> 0 \<or> 1 \<le> x then 0 else ilog2_down (2 * x) - 1)"
  by auto
termination
proof (relation "measure (\<lambda>x. nat \<lceil>1 / x\<rceil>)", goal_cases)
  case 1
  show ?case by simp
next
  case (2 x)
  then have x: "0 < x" "x < 1" by auto
  then have "1 < 1 / x" by simp
  then have c: "2 \<le> \<lceil>1 / x\<rceil>" by linarith
  have "1 / (2 * x) = (1 / x) / 2" by simp
  also have "\<dots> \<le> of_int \<lceil>1 / x\<rceil> / 2" by (simp add: divide_right_mono)
  also have "\<dots> \<le> of_int (\<lceil>1 / x\<rceil> - 1)" using c by simp
  finally have "\<lceil>1 / (2 * x)\<rceil> \<le> \<lceil>1 / x\<rceil> - 1" by (rule ceiling_le)
  with c x show ?case by simp
qed

declare ilog2_up.simps [simp del] ilog2_down.simps [simp del]

definition ilog2 :: "real \<Rightarrow> int" where
  "ilog2 x = (if 1 \<le> x then ilog2_up x else ilog2_down x)"

definition binary64 :: "number \<Rightarrow> number" where
  "binary64 x =
     (case x of
        Fin r \<Rightarrow>
          if r = 0 then Fin 0
          else
            let e = max (ilog2 \<bar>r\<bar>) (- 1022) - 52;
                y = of_int (round_ties_even (r / 2 powi e)) * 2 powi e
            in if 2 ^ 1024 \<le> \<bar>y\<bar> then (if 0 < r then PInf else NInf) else Fin y
      | _ \<Rightarrow> x)"

definition unit_roundoff :: real where
  "unit_roundoff = 2 powi (- 53)"

section \<open>The component models\<close>

text \<open>
  Each loop of the source is a definition of its own, named after the function it
  stands in; the function's definition follows it.
\<close>

subsection \<open>TransformerModel\<close>

definition TransformerModel_calculateTrend_loop ::
  "bool \<Rightarrow> number list \<Rightarrow> (number \<times> number) result" where
  "TransformerModel_calculateTrend_loop checked recentPrices =
     for_each [1..<length recentPrices]
       (\<lambda>i (weightedSum, weightSum).
          bindE (at_index checked recentPrices (int i)) (\<lambda>cur.
          bindE (at_index checked recentPrices (int i - 1)) (\<lambda>prev.
            let weight = Math_exp (Fin 0.1 * Fin (real i));
                dailyReturn = (cur - prev) / prev
            in Inr (weightedSum + dailyReturn * weight, weightSum + weight))))
       (Fin 0, Fin 0)"

definition TransformerModel_calculateTrend :: "bool \<Rightarrow> number list \<Rightarrow> number result" where
  "TransformerModel_calculateTrend checked prices =
     (if length prices < 2 then Inr (Fin 0)
      else
        let recentPrices = slice_last 14 prices in
        bindE (TransformerModel_calculateTrend_loop checked recentPrices)
          (\<lambda>(weightedSum, weightSum). checked_div checked weightedSum weightSum))"

definition TransformerModel_calculateLongRangeTrend :: "bool \<Rightarrow> number list \<Rightarrow> number result" where
  "TransformerModel_calculateLongRangeTrend checked prices =
     (if length prices < 30 then TransformerModel_calculateTrend checked prices
      else
        let longPrices = slice_last 30 prices in
        bindE (at_index checked longPrices 0) (\<lambda>firstPrice.
        bindE (at_index checked longPrices (int (length longPrices) - 1)) (\<lambda>lastPrice.
          Inr ((lastPrice - firstPrice) / firstPrice / Fin 30))))"

text \<open>The three loops of \<open>calculateVolatility\<close>: returns and weights, mean, variance.\<close>

definition TransformerModel_calculateVolatility_returns ::
  "bool \<Rightarrow> number list \<Rightarrow> (number list \<times> number list) result" where
  "TransformerModel_calculateVolatility_returns checked prices =
     for_each [1..<length prices]
       (\<lambda>i (returns, weights).
          bindE (at_index checked prices (int i)) (\<lambda>cur.
          bindE (at_index checked prices (int i - 1)) (\<lambda>prev.
            let weight = Math_exp (Fin 0.1 * Fin (real i))
            in Inr (returns @ [(cur - prev) / prev], weights @ [weight]))))
       ([], [])"

definition TransformerModel_calculateVolatility_mean ::
  "bool \<Rightarrow> number list \<Rightarrow> number list \<Rightarrow> (number \<times> number) result" where
  "TransformerModel_calculateVolatility_mean checked returns weights =
     for_each [0..<length returns]
       (\<lambda>i (weightedSum, weightSum).
          bindE (at_index checked returns (int i)) (\<lambda>r.
          bindE (at_index checked weights (int i)) (\<lambda>w.
            Inr (weightedSum + r * w, weightSum + w))))
       (Fin 0, Fin 0)"

definition TransformerModel_calculateVolatility_variance ::
  "bool \<Rightarrow> number list \<Rightarrow> number list \<Rightarrow> number \<Rightarrow> number result" where
  "TransformerModel_calculateVolatility_variance checked returns weights mean =
     for_each [0..<length returns]
       (\<lambda>i varianceSum.
          bindE (at_index checked returns (int i)) (\<lambda>r.
          bindE (at_index checked weights (int i)) (\<lambda>w.
            Inr (varianceSum + Math_pow (r - mean) 2 * w))))
       (Fin 0)"

definition TransformerModel_calculateVolatility :: "bool \<Rightarrow> number list \<Rightarrow> number result" where
  "TransformerModel_calculateVolatility checked prices =
     (if length prices < 2 then Inr (Fin 0.02)
      else
        bindE (TransformerModel_calculateVolatility_returns checked prices)
          (\<lambda>(returns, weights).
        bindE (TransformerModel_calculateVolatility_mean checked returns weights)
          (\<lambda>(weightedSum, weightSum).
        bindE (checked_div checked weightedSum weightSum) (\<lambda>mean.
        bindE (TransformerModel_calculateVolatility_variance checked returns weights mean)
          (\<lambda>varianceSum.
        bindE (checked_div checked varianceSum weightSum) (\<lambda>variance.
          Inr (Math_sqrt variance)))))))"

definition TransformerModel_predict_loop ::
  "number \<Rightarrow> number \<Rightarrow> number \<Rightarrow> int \<Rightarrow> number \<Rightarrow> rng \<Rightarrow>
     (number list \<times> number \<times> rng) result" where
  "TransformerModel_predict_loop trend volatility longRangeTrend days lastPrice0 g =
     for_each [0..<nat days]
       (\<lambda>i (predictions, lastPrice, g).
          let dayOfWeekEffect =
                Math_sin ((Fin (real (i mod 7)) * Fin pi) / Fin 3.5) * Fin 0.002;
              momentumFactor = Math_tanh (trend * Fin 10) * Fin 0.005;
              trendWeight = Math_max (Fin 0.2) (Fin 1 - Fin (real i) * Fin 0.05);
              combinedTrend = trend * trendWeight + longRangeTrend * (Fin 1 - trendWeight);
              (r, g') = Math_random g;
              randomFactor = (r - Fin 0.5) * volatility * Fin 0.4;
              prediction =
                lastPrice *
                (Fin 1 + combinedTrend + dayOfWeekEffect + momentumFactor + randomFactor)
          in Inr (predictions @ [prediction], prediction, g'))
       ([], lastPrice0, g)"

definition TransformerModel_predict ::
  "bool \<Rightarrow> rng \<Rightarrow> number list \<Rightarrow> int \<Rightarrow> (number list \<times> rng) result" where
  "TransformerModel_predict checked g historicalPrices days =
     bindE (at_index checked historicalPrices (int (length historicalPrices) - 1)) (\<lambda>lastPrice.
     bindE (TransformerModel_calculateTrend checked historicalPrices) (\<lambda>trend.
     bindE (TransformerModel_calculateVolatility checked historicalPrices) (\<lambda>volatility.
     bindE (TransformerModel_calculateLongRangeTrend checked historicalPrices) (\<lambda>longRangeTrend.
     bindE (TransformerModel_predict_loop trend volatility longRangeTrend days lastPrice g)
       (\<lambda>(predictions, lastPrice, g'). Inr (predictions, g'))))))"

subsection \<open>RandomForestModel\<close>

definition RandomForestModel_calculateTrend :: "bool \<Rightarrow> number list \<Rightarrow> number result" where
  "RandomForestModel_calculateTrend checked prices =
     (if length prices < 10 then Inr (Fin 0)
      else
        let recentPrices = slice_last 14 prices in
        bindE (at_index checked recentPrices 0) (\<lambda>firstPrice.
        bindE (at_index checked recentPrices (int (length recentPrices) - 1)) (\<lambda>lastPrice.
          Inr ((lastPrice - firstPrice) / firstPrice / Fin 14))))"

definition RandomForestModel_calculateVolatility_loop ::
  "bool \<Rightarrow> number list \<Rightarrow> number list result" where
  "RandomForestModel_calculateVolatility_loop checked prices =
     for_each [1..<length prices]
       (\<lambda>i returns.
          bindE (at_index checked prices (int i)) (\<lambda>cur.
          bindE (at_index checked prices (int i - 1)) (\<lambda>prev.
            Inr (returns @ [(cur - prev) / prev]))))
       []"

definition RandomForestModel_calculateVolatility :: "bool \<Rightarrow> number list \<Rightarrow> number result" where
  "RandomForestModel_calculateVolatility checked prices =
     (if length prices < 2 then Inr (Fin 0.02)
      else
        bindE (RandomForestModel_calculateVolatility_loop checked prices) (\<lambda>returns.
        bindE (checked_div checked (foldl (\<lambda>sum val. sum + val) (Fin 0) returns)
                 (Fin (real (length returns)))) (\<lambda>mean.
        bindE (checked_div checked
                 (foldl (\<lambda>sum val. sum + Math_pow (val - mean) 2) (Fin 0) returns)
                 (Fin (real (length returns)))) (\<lambda>variance.
          Inr (Math_sqrt variance)))))"

definition RandomForestModel_predict_loop ::
  "number \<Rightarrow> number \<Rightarrow> int \<Rightarrow> number \<Rightarrow> rng \<Rightarrow> (number list \<times> number \<times> rng) result" where
  "RandomForestModel_predict_loop trend volatility days lastPrice0 g =
     for_each [0..<nat days]
       (\<lambda>i (predictions, lastPrice, g).
          let (r, g') = Math_random g;
              prediction = lastPrice * (Fin 1 + trend + (r - Fin 0.5) * volatility)
          in Inr (predictions @ [prediction], prediction, g'))
       ([], lastPrice0, g)"

definition RandomForestModel_predict ::
  "bool \<Rightarrow> rng \<Rightarrow> number list \<Rightarrow> int \<Rightarrow> (number list \<times> rng) result" where
  "RandomForestModel_predict checked g historicalPrices days =
     bindE (at_index checked historicalPrices (int (length historicalPrices) - 1)) (\<lambda>lastPrice.
     bindE (RandomForestModel_calculateVolatility checked historicalPrices) (\<lambda>v.
     let volatility = v * Fin 0.8 in
     bindE (RandomForestModel_calculateTrend checked historicalPrices) (\<lambda>trend.
     bindE (RandomForestModel_predict_loop trend volatility days lastPrice g)
       (\<lambda>(predictions, lastPrice, g'). Inr (predictions, g')))))"

subsection \<open>XGBoostModel\<close>

definition XGBoostModel_calculateTrend :: "bool \<Rightarrow> number list \<Rightarrow> number result" where
  "XGBoostModel_calculateTrend checked prices =
     (if length prices < 10 then Inr (Fin 0)
      else
        let recentPrices = slice_last 10 prices in
        bindE (at_index checked recentPrices 0) (\<lambda>firstPrice.
        bindE (at_index checked recentPrices (int (length recentPrices) - 1)) (\<lambda>lastPrice.
          Inr ((lastPrice - firstPrice) / firstPrice / Fin 10))))"

definition XGBoostModel_calculateVolatility_loop ::
  "bool \<Rightarrow> number list \<Rightarrow> number list result" where
  "XGBoostModel_calculateVolatility_loop checked prices =
     for_each [1..<length prices]
       (\<lambda>i returns.
          bindE (at_index checked prices (int i)) (\<lambda>cur.
          bindE (at_index checked prices (int i - 1)) (\<lambda>prev.
            Inr (returns @ [(cur - prev) / prev]))))
       []"

definition XGBoostModel_calculateVolatility :: "bool \<Rightarrow> number list \<Rightarrow> number result" where
  "XGBoostModel_calculateVolatility checked prices =
     (if length prices < 2 then Inr (Fin 0.02)
      else
        bindE (XGBoostModel_calculateVolatility_loop checked prices) (\<lambda>returns.
        bindE (checked_div checked (foldl (\<lambda>sum val. sum + val) (Fin 0) returns)
                 (Fin (real (length returns)))) (\<lambda>mean.
        bindE (checked_div checked
                 (foldl (\<lambda>sum val. sum + Math_pow (val - mean) 2) (Fin 0) returns)
                 (Fin (real (length returns)))) (\<lambda>variance.
          Inr (Math_sqrt variance)))))"

definition XGBoostModel_predict_loop ::
  "number \<Rightarrow> number \<Rightarrow> int \<Rightarrow> number \<Rightarrow> rng \<Rightarrow> (number list \<times> number \<times> rng) result" where
  "XGBoostModel_predict_loop trend volatility days lastPrice0 g =
     for_each [0..<nat days]
       (\<lambda>i (predictions, lastPrice, g).
          let dayEffect = Math_sin ((Fin (real i) * Fin pi) / Fin 7) * Fin 0.005;
              (r, g') = Math_random g;
              prediction =
                lastPrice * (Fin 1 + trend + dayEffect + (r - Fin 0.5) * volatility)
          in Inr (predictions @ [prediction], prediction, g'))
       ([], lastPrice0, g)"

definition XGBoostModel_predict ::
  "bool \<Rightarrow> rng \<Rightarrow> number list \<Rightarrow> int \<Rightarrow> (number list \<times> rng) result" where
  "XGBoostModel_predict checked g historicalPrices days =
     bindE (at_index checked historicalPrices (int (length historicalPrices) - 1)) (\<lambda>lastPrice.
     bindE (XGBoostModel_calculateVolatility checked historicalPrices) (\<lambda>v.
     let volatility = v * Fin 0.9 in
     bindE (XGBoostModel_calculateTrend checked historicalPrices) (\<lambda>trend.
     bindE (XGBoostModel_predict_loop trend volatility days lastPrice g)
       (\<lambda>(predictions, lastPrice, g'). Inr (predictions, g')))))"

subsection \<open>SentimentModel\<close>

text \<open>
  The two fields of the class, \<open>useSentimentAPI\<close> and \<open>sentimentImpact\<close>, are
  arguments. The scores are drawn before the loop, by \<^verbatim>\<open>Array(days).fill(0).map(...)\<close>:
  one call of \<^verbatim>\<open>Math.random\<close> per day, and none when \<open>useSentimentAPI\<close> is set.
\<close>

definition SentimentModel_sentimentScores ::
  "bool \<Rightarrow> int \<Rightarrow> rng \<Rightarrow> (number list \<times> rng) result" where
  "SentimentModel_sentimentScores useSentimentAPI days g =
     bindE (Array_fill_0 days) (\<lambda>zeros.
       for_each zeros
         (\<lambda>z (scores, g).
            if useSentimentAPI then Inr (scores @ [Fin 0], g)
            else
              let (r, g') = Math_random g
              in Inr (scores @ [(r - Fin 0.4) * Fin 0.02], g'))
         ([], g))"

definition SentimentModel_predict_loop ::
  "bool \<Rightarrow> bool \<Rightarrow> number \<Rightarrow> number list \<Rightarrow> int \<Rightarrow> number \<Rightarrow>
     (number list \<times> number) result" where
  "SentimentModel_predict_loop checked useSentimentAPI sentimentFactor sentimentScores days
       lastPrice0 =
     for_each [0..<nat days]
       (\<lambda>i (predictions, lastPrice).
          bindE (if useSentimentAPI then Inr (sentimentFactor - Fin 1)
                 else at_index checked sentimentScores (int i)) (\<lambda>dailySentiment.
            let prediction = lastPrice * (Fin 1 + dailySentiment)
            in Inr (predictions @ [prediction], prediction)))
       ([], lastPrice0)"

definition SentimentModel_predict ::
  "bool \<Rightarrow> bool \<Rightarrow> number \<Rightarrow> rng \<Rightarrow> number list \<Rightarrow> int \<Rightarrow> (number list \<times> rng) result" where
  "SentimentModel_predict checked useSentimentAPI sentimentImpact g historicalPrices days =
     bindE (at_index checked historicalPrices (int (length historicalPrices) - 1)) (\<lambda>lastPrice.
     let sentimentFactor = (if useSentimentAPI then sentimentImpact else Fin 1) in
     bindE (SentimentModel_sentimentScores useSentimentAPI days g) (\<lambda>(sentimentScores, g').
     bindE (SentimentModel_predict_loop checked useSentimentAPI sentimentFactor sentimentScores
              days lastPrice)
       (\<lambda>(predictions, lastPrice). Inr (predictions, g'))))"

subsection \<open>BERTModel\<close>

definition BERTModel_calculateTrend :: "bool \<Rightarrow> number list \<Rightarrow> number result" where
  "BERTModel_calculateTrend checked prices =
     (if length prices < 5 then Inr (Fin 0)
      else
        let recentPrices = slice_last 5 prices in
        bindE (at_index checked recentPrices 0) (\<lambda>firstPrice.
        bindE (at_index checked recentPrices (int (length recentPrices) - 1)) (\<lambda>lastPrice.
          Inr ((lastPrice - firstPrice) / firstPrice / Fin 5))))"

definition BERTModel_predict_loop ::
  "number \<Rightarrow> int \<Rightarrow> number \<Rightarrow> rng \<Rightarrow> (number list \<times> number \<times> rng) result" where
  "BERTModel_predict_loop trend days lastPrice0 g =
     for_each [0..<nat days]
       (\<lambda>i (predictions, lastPrice, g).
          let (r, g') = Math_random g;
              prediction = lastPrice * (Fin 1 + trend * Fin 1.2 + (r - Fin 0.5) * Fin 0.02)
          in Inr (predictions @ [prediction], prediction, g'))
       ([], lastPrice0, g)"

definition BERTModel_predict ::
  "bool \<Rightarrow> rng \<Rightarrow> number list \<Rightarrow> int \<Rightarrow> (number list \<times> rng) result" where
  "BERTModel_predict checked g historicalPrices days =
     bindE (at_index checked historicalPrices (int (length historicalPrices) - 1)) (\<lambda>lastPrice.
     bindE (BERTModel_calculateTrend checked historicalPrices) (\<lambda>trend.
     bindE (BERTModel_predict_loop trend days lastPrice g)
       (\<lambda>(predictions, lastPrice, g'). Inr (predictions, g'))))"

section \<open>The ensemble\<close>

text \<open>The interface \<open>Model\<close>: a closed set of five classes, with their two fixed fields.\<close>

datatype model =
    TransformerModel
  | RandomForestModel
  | XGBoostModel
  | SentimentModel bool number
  | BERTModel

fun model_name :: "model \<Rightarrow> string" where
  "model_name TransformerModel = ''Transformer''"
| "model_name RandomForestModel = ''Random Forest''"
| "model_name XGBoostModel = ''XGBoost''"
| "model_name (SentimentModel useSentimentAPI sentimentImpact) = ''VADER Sentiment''"
| "model_name BERTModel = ''BERT NLP''"

fun model_confidence :: "model \<Rightarrow> number" where
  "model_confidence TransformerModel = Fin 0.45"
| "model_confidence RandomForestModel = Fin 0.25"
| "model_confidence XGBoostModel = Fin 0.2"
| "model_confidence (SentimentModel useSentimentAPI sentimentImpact) = Fin 0.1"
| "model_confidence BERTModel = Fin 0.1"

fun model_predict ::
  "bool \<Rightarrow> model \<Rightarrow> rng \<Rightarrow> number list \<Rightarrow> int \<Rightarrow> (number list \<times> rng) result" where
  "model_predict checked TransformerModel g historicalPrices days =
     TransformerModel_predict checked g historicalPrices days"
| "model_predict checked RandomForestModel g historicalPrices days =
     RandomForestModel_predict checked g historicalPrices days"
| "model_predict checked XGBoostModel g historicalPrices days =
     XGBoostModel_predict checked g historicalPrices days"
| "model_predict checked (SentimentModel useSentimentAPI sentimentImpact) g historicalPrices days =
     SentimentModel_predict checked useSentimentAPI sentimentImpact g historicalPrices days"
| "model_predict checked BERTModel g historicalPrices days =
     BERTModel_predict checked g historicalPrices days"

text \<open>The field \<open>models\<close> of a new \<open>EnsembleModel\<close>.\<close>

definition EnsembleModel_models :: "model list" where
  "EnsembleModel_models =
     [TransformerModel, RandomForestModel, XGBoostModel, SentimentModel False (Fin 1), BERTModel]"

record PredictionResult =
  predicted :: number
  upperBound :: number
  lowerBound :: number
  confidence :: number

text \<open>
  An element of \<open>modelPredictions\<close>; its fields are \<open>name\<close>, \<open>predictions\<close> and
  \<open>confidence\<close> in the source.
\<close>

record ModelPrediction =
  mp_name :: string
  mp_predictions :: "number list"
  mp_confidence :: number

definition EnsembleModel_calculateVariance :: "bool \<Rightarrow> number list \<Rightarrow> number result" where
  "EnsembleModel_calculateVariance checked values =
     bindE (checked_div checked (foldl (\<lambda>sum val. sum + val) (Fin 0) values)
              (Fin (real (length values)))) (\<lambda>mean.
       checked_div checked (foldl (\<lambda>sum val. sum + Math_pow (val - mean) 2) (Fin 0) values)
         (Fin (real (length values))))"

text \<open>The first statement of \<open>predict\<close>: every model runs, in the order of \<open>models\<close>.\<close>

definition EnsembleModel_modelPredictions ::
  "bool \<Rightarrow> model list \<Rightarrow> rng \<Rightarrow> number list \<Rightarrow> int \<Rightarrow> (ModelPrediction list \<times> rng) result" where
  "EnsembleModel_modelPredictions checked models g historicalPrices days =
     for_each models
       (\<lambda>model (acc, g).
          bindE (model_predict checked model g historicalPrices days) (\<lambda>(p, g').
            Inr (acc @ [\<lparr>mp_name = model_name model, mp_predictions = p,
                         mp_confidence = model_confidence model\<rparr>], g')))
       ([], g)"

text \<open>
  The body of the loop over the days: the weighted sum over the models, the predictions
  of the day, and the result of the day.
\<close>

definition EnsembleModel_weightedSum ::
  "bool \<Rightarrow> ModelPrediction list \<Rightarrow> nat \<Rightarrow> (number \<times> number) result" where
  "EnsembleModel_weightedSum checked modelPredictions day =
     for_each modelPredictions
       (\<lambda>model (weightedSum, totalWeight).
          bindE (at_index checked (mp_predictions model) (int day)) (\<lambda>p.
            Inr (weightedSum + p * mp_confidence model, totalWeight + mp_confidence model)))
       (Fin 0, Fin 0)"

definition EnsembleModel_dayPredictions ::
  "bool \<Rightarrow> ModelPrediction list \<Rightarrow> nat \<Rightarrow> number list result" where
  "EnsembleModel_dayPredictions checked modelPredictions day =
     for_each modelPredictions
       (\<lambda>m ps. bindE (at_index checked (mp_predictions m) (int day)) (\<lambda>p. Inr (ps @ [p])))
       []"

definition dayFactor :: "nat \<Rightarrow> int \<Rightarrow> number" where
  "dayFactor day days = Fin 1 + Fin (real day) / Fin (real_of_int days)"

definition EnsembleModel_predict_day ::
  "bool \<Rightarrow> ModelPrediction list \<Rightarrow> nat \<Rightarrow> int \<Rightarrow> number \<Rightarrow> PredictionResult result" where
  "EnsembleModel_predict_day checked modelPredictions day days volatilityFactor =
     bindE (EnsembleModel_weightedSum checked modelPredictions day)
       (\<lambda>(weightedSum, totalWeight).
     bindE (checked_div checked weightedSum totalWeight) (\<lambda>predictedPrice.
     bindE (EnsembleModel_dayPredictions checked modelPredictions day) (\<lambda>predictions.
     bindE (EnsembleModel_calculateVariance checked predictions) (\<lambda>variance.
       let stdDev = Math_sqrt variance;
           confidenceInterval = stdDev * Fin 1.96 * dayFactor day days * volatilityFactor
       in Inr \<lparr>predicted = predictedPrice,
               upperBound = predictedPrice + confidenceInterval,
               lowerBound = predictedPrice - confidenceInterval,
               confidence = Fin 1 - stdDev / predictedPrice\<rparr>))))"

definition EnsembleModel_predict_loop ::
  "bool \<Rightarrow> ModelPrediction list \<Rightarrow> int \<Rightarrow> number \<Rightarrow> PredictionResult list result" where
  "EnsembleModel_predict_loop checked modelPredictions days volatilityFactor =
     for_each [0..<nat days]
       (\<lambda>day results.
          bindE (EnsembleModel_predict_day checked modelPredictions day days volatilityFactor)
            (\<lambda>r. Inr (results @ [r])))
       []"

definition EnsembleModel_predict ::
  "bool \<Rightarrow> model list \<Rightarrow> rng \<Rightarrow> number list \<Rightarrow> int \<Rightarrow> number \<Rightarrow>
     (PredictionResult list \<times> rng) result" where
  "EnsembleModel_predict checked models g historicalPrices days volatilityFactor =
     bindE (EnsembleModel_modelPredictions checked models g historicalPrices days)
       (\<lambda>(modelPredictions, g').
     bindE (EnsembleModel_predict_loop checked modelPredictions days volatilityFactor)
       (\<lambda>results. Inr (results, g')))"

definition EnsembleModel_getModelContributions :: "model list \<Rightarrow> (string \<times> number) list" where
  "EnsembleModel_getModelContributions models =
     (let totalConfidence = foldl (\<lambda>sum model. sum + model_confidence model) (Fin 0) models
      in map (\<lambda>model. (model_name model, (model_confidence model / totalConfidence) * Fin 100))
           models)"

text \<open>
  The weighted mean of \<open>predict\<close> as the language computes it: the loop over
  \<open>modelPredictions\<close> that accumulates \<open>weightedSum\<close> and \<open>totalWeight\<close>, and the
  division that gives \<open>predictedPrice\<close>, with every product, every sum and the
  quotient rounded. The field \<open>confidence\<close> of a model holds the double nearest to
  the decimal literal of its class.
\<close>

definition EnsembleModel_weightedSum_binary64 ::
  "ModelPrediction list \<Rightarrow> nat \<Rightarrow> (number \<times> number) result" where
  "EnsembleModel_weightedSum_binary64 modelPredictions day =
     for_each modelPredictions
       (\<lambda>model (weightedSum, totalWeight).
          bindE (at_index False (mp_predictions model) (int day)) (\<lambda>p.
            Inr (binary64 (weightedSum + binary64 (p * binary64 (mp_confidence model))),
                 binary64 (totalWeight + binary64 (mp_confidence model)))))
       (Fin 0, Fin 0)"

definition EnsembleModel_predictedPrice_binary64 ::
  "ModelPrediction list \<Rightarrow> nat \<Rightarrow> number result" where
  "EnsembleModel_predictedPrice_binary64 modelPredictions day =
     bindE (EnsembleModel_weightedSum_binary64 modelPredictions day)
       (\<lambda>(weightedSum, totalWeight). Inr (binary64 (weightedSum / totalWeight)))"

section \<open>Basic facts about the embedding\<close>

lemma bindE_Inr [simp]: "bindE (Inr x) f = f x"
  by (simp add: bindE_def)

lemma bindE_Inl [simp]: "bindE (Inl e) f = Inl e"
  by (simp add: bindE_def)

lemma at_index_nat: "i < length xs \<Longrightarrow> at_index checked xs (int i) = Inr (xs ! i)"
  by (simp add: at_index_def)

lemma at_index_pred:
  "0 < i \<Longrightarrow> i \<le> length xs \<Longrightarrow> at_index checked xs (int i - 1) = Inr (xs ! (i - 1))"
  by (cases i) (simp_all add: at_index_def)

lemma for_each_append:
  "for_each (xs @ ys) body s = bindE (for_each xs body s) (for_each ys body)"
  by (induction xs arbitrary: s) (auto simp: bindE_def split: sum.splits)

text \<open>
  The invariant rule for loops: \<open>I k t\<close> relates the variables \<open>t\<close> to the number \<open>k\<close>
  of iterations done; a body that keeps it and returns makes the loop return.
\<close>

lemma for_each_invariant:
  assumes "I 0 s"
    and "\<And>k t. k < length xs \<Longrightarrow> I k t \<Longrightarrow> \<exists>t'. body (xs ! k) t = Inr t' \<and> I (Suc k) t'"
  shows "\<exists>t. for_each xs body s = Inr t \<and> I (length xs) t"
  using assms
proof (induction xs arbitrary: s I)
  case Nil
  then show ?case by simp
next
  case (Cons x xs)
  from Cons.prems(2)[of 0 s] Cons.prems(1)
  obtain t' where t': "body x s = Inr t'" "I (Suc 0) t'" by auto
  have "\<exists>t. for_each xs body t' = Inr t \<and> (\<lambda>k. I (Suc k)) (length xs) t"
  proof (rule Cons.IH)
    show "I (Suc 0) t'" by fact
  next
    fix k t assume "k < length xs" "I (Suc k) t"
    then show "\<exists>t'. body (xs ! k) t = Inr t' \<and> I (Suc (Suc k)) t'"
      using Cons.prems(2)[of "Suc k" t] by simp
  qed
  with t' show ?case by simp
qed

lemma last_read:
  "historicalPrices \<noteq> [] \<Longrightarrow>
   at_index checked historicalPrices (int (length historicalPrices) - 1) =
   Inr (last historicalPrices)"
  by (simp add: at_index_pred last_conv_nth)

section \<open>The estimators and the component models return\<close>

text \<open>
  Every estimator returns a number, in both readings of the flag; on a series of
  positive prices the number is finite. Every \<open>predict\<close> returns one price per day.
\<close>

lemma length_slice_last [simp]: "length (slice_last n xs) = min n (length xs)"
  by (simp add: slice_last_def)

lemma at_index_Suc:
  "Suc k < length xs \<Longrightarrow> at_index checked xs (1 + int k) = Inr (xs ! Suc k)"
  by (simp add: at_index_def nat_add_distrib)

lemma checked_div_pos: "0 < r \<Longrightarrow> checked_div checked a (Fin r) = Inr (a / Fin r)"
  by (simp add: checked_div_def)

lemma checked_div_unchecked [simp]: "checked_div False a b = Inr (a / b)"
  by (simp add: checked_div_def)

lemma positiveE: "positive x \<Longrightarrow> (\<And>r. x = Fin r \<Longrightarrow> 0 < r \<Longrightarrow> P) \<Longrightarrow> P"
  by (cases x) simp_all

lemma isFiniteE: "isFinite x \<Longrightarrow> (\<And>r. x = Fin r \<Longrightarrow> P) \<Longrightarrow> P"
  by (cases x) simp_all

lemma positive_nth: "list_all positive xs \<Longrightarrow> i < length xs \<Longrightarrow> \<exists>r>0. xs ! i = Fin r"
  by (auto simp: list_all_length elim: positiveE)

lemma isFinite_nth: "list_all isFinite xs \<Longrightarrow> i < length xs \<Longrightarrow> \<exists>r. xs ! i = Fin r"
  by (auto simp: list_all_length elim: isFiniteE)

lemma positive_isFinite: "positive x \<Longrightarrow> isFinite x"
  by (cases x) simp_all

lemma list_all_slice_last: "list_all P xs \<Longrightarrow> list_all P (slice_last n xs)"
  by (auto simp: slice_last_def list_all_iff dest: in_set_dropD)

lemma TransformerModel_calculateTrend_loop_returns:
  "\<exists>ws w. TransformerModel_calculateTrend_loop checked rp = Inr (ws, Fin w)
      \<and> (2 \<le> length rp \<longrightarrow> 0 < w) \<and> (list_all positive rp \<longrightarrow> isFinite ws)"
proof -
  have "\<exists>t. TransformerModel_calculateTrend_loop checked rp = Inr t
      \<and> (\<lambda>k (ws, w). (\<exists>r. w = Fin r \<and> 0 \<le> r \<and> (0 < k \<longrightarrow> 0 < r))
             \<and> (list_all positive rp \<longrightarrow> isFinite ws)) (length [1..<length rp]) t"
    unfolding TransformerModel_calculateTrend_loop_def
  proof (rule for_each_invariant, goal_cases)
    case 1
    show ?case by simp
  next
    case (2 k t)
    obtain ws w where t: "t = (ws, w)" by (cases t)
    from 2 have k: "Suc k < length rp" by simp
    from 2 t obtain r where r: "w = Fin r" "0 \<le> r" by auto
    have rd: "at_index checked rp (1 + int k) = Inr (rp ! Suc k)"
      "at_index checked rp (int k) = Inr (rp ! k)"
      using k by (simp_all add: at_index_Suc at_index_nat)
    have fin: "isFinite (ws + (rp ! Suc k - rp ! k) / rp ! k * Fin (exp (1 / 10 * real (Suc k))))"
      if "list_all positive rp"
    proof -
      from that k obtain a b where "rp ! Suc k = Fin a" "rp ! k = Fin b" "0 < b"
        using positive_nth[of rp "Suc k"] positive_nth[of rp k] by auto
      moreover from that 2 t obtain c where "ws = Fin c" by (auto elim: isFiniteE)
      ultimately show ?thesis by simp
    qed
    from k fin show ?case
      by (simp add: t rd r Let_def add_nonneg_pos)
  qed
  then show ?thesis by auto
qed

lemma TransformerModel_calculateTrend_returns:
  "\<exists>t. TransformerModel_calculateTrend checked prices = Inr t
      \<and> (list_all positive prices \<longrightarrow> isFinite t)"
proof (cases "length prices < 2")
  case True
  then show ?thesis by (simp add: TransformerModel_calculateTrend_def)
next
  case False
  from TransformerModel_calculateTrend_loop_returns[of checked "slice_last 14 prices"]
  obtain ws w where
    "TransformerModel_calculateTrend_loop checked (slice_last 14 prices) = Inr (ws, Fin w)"
    "2 \<le> length (slice_last 14 prices) \<longrightarrow> 0 < w"
    "list_all positive (slice_last 14 prices) \<longrightarrow> isFinite ws" by blast
  with False show ?thesis
    by (auto simp: TransformerModel_calculateTrend_def Let_def checked_div_pos
        list_all_slice_last elim!: isFiniteE)
qed


lemma simple_trend_returns:
  assumes "prices \<noteq> []" and "0 < n"
  shows "\<exists>t. bindE (at_index checked (slice_last n prices) 0) (\<lambda>firstPrice.
           bindE (at_index checked (slice_last n prices) (int (length (slice_last n prices)) - 1))
             (\<lambda>lastPrice. Inr ((lastPrice - firstPrice) / firstPrice / Fin c))) = Inr t
         \<and> (list_all positive prices \<longrightarrow> c \<noteq> 0 \<longrightarrow> isFinite t)"
proof -
  define rp where "rp = slice_last n prices"
  have len: "0 < length rp" using assms by (simp add: rp_def)
  have rd: "at_index checked rp 0 = Inr (rp ! 0)"
    "at_index checked rp (int (length rp) - 1) = Inr (rp ! (length rp - 1))"
    using len by (simp_all add: at_index_def nat_diff_distrib')
  have "isFinite ((rp ! (length rp - 1) - rp ! 0) / rp ! 0 / Fin c)"
    if "list_all positive prices" "c \<noteq> 0"
  proof -
    from that have "list_all positive rp" by (simp add: rp_def list_all_slice_last)
    with len obtain a b where "rp ! (length rp - 1) = Fin a" "rp ! 0 = Fin b" "0 < b"
      using positive_nth[of rp "length rp - 1"] positive_nth[of rp 0] by auto
    with that show ?thesis by simp
  qed
  with rd show ?thesis unfolding rp_def[symmetric] by simp
qed

lemma TransformerModel_calculateLongRangeTrend_returns:
  "\<exists>t. TransformerModel_calculateLongRangeTrend checked prices = Inr t
      \<and> (list_all positive prices \<longrightarrow> isFinite t)"
proof (cases "length prices < 30")
  case True
  with TransformerModel_calculateTrend_returns[of checked prices] show ?thesis
    by (simp add: TransformerModel_calculateLongRangeTrend_def)
next
  case False
  then have "prices \<noteq> []" by auto
  from simple_trend_returns[OF this, of 30 checked 30] False show ?thesis
    by (simp add: TransformerModel_calculateLongRangeTrend_def Let_def)
qed

lemma RandomForestModel_calculateTrend_returns:
  "\<exists>t. RandomForestModel_calculateTrend checked prices = Inr t
      \<and> (list_all positive prices \<longrightarrow> isFinite t)"
proof (cases "length prices < 10")
  case True
  then show ?thesis by (simp add: RandomForestModel_calculateTrend_def)
next
  case False
  then have "prices \<noteq> []" by auto
  from simple_trend_returns[OF this, of 14 checked 14] False show ?thesis
    by (simp add: RandomForestModel_calculateTrend_def Let_def)
qed

lemma XGBoostModel_calculateTrend_returns:
  "\<exists>t. XGBoostModel_calculateTrend checked prices = Inr t
      \<and> (list_all positive prices \<longrightarrow> isFinite t)"
proof (cases "length prices < 10")
  case True
  then show ?thesis by (simp add: XGBoostModel_calculateTrend_def)
next
  case False
  then have "prices \<noteq> []" by auto
  from simple_trend_returns[OF this, of 10 checked 10] False show ?thesis
    by (simp add: XGBoostModel_calculateTrend_def Let_def)
qed

lemma BERTModel_calculateTrend_returns:
  "\<exists>t. BERTModel_calculateTrend checked prices = Inr t
      \<and> (list_all positive prices \<longrightarrow> isFinite t)"
proof (cases "length prices < 5")
  case True
  then show ?thesis by (simp add: BERTModel_calculateTrend_def)
next
  case False
  then have "prices \<noteq> []" by auto
  from simple_trend_returns[OF this, of 5 checked 5] False show ?thesis
    by (simp add: BERTModel_calculateTrend_def Let_def)
qed


lemma foldl_sum_finite:
  "list_all isFinite xs \<Longrightarrow> \<exists>r. foldl (\<lambda>sum val. sum + val) (Fin a) xs = Fin r"
proof (induction xs arbitrary: a)
  case Nil
  then show ?case by simp
next
  case (Cons x xs)
  then obtain b where "x = Fin b" by (auto elim: isFiniteE)
  with Cons show ?case by simp
qed

lemma foldl_squares_finite:
  "list_all isFinite xs \<Longrightarrow> 0 \<le> a \<Longrightarrow>
   \<exists>r\<ge>0. foldl (\<lambda>sum val. sum + Math_pow (val - Fin m) 2) (Fin a) xs = Fin r"
proof (induction xs arbitrary: a)
  case Nil
  then show ?case by simp
next
  case (Cons x xs)
  then obtain b where "x = Fin b" by (auto elim: isFiniteE)
  with Cons.IH[of "a + (b - m)\<^sup>2"] Cons.prems show ?case by simp
qed

lemma daily_returns_loop:
  "\<exists>returns. for_each [1..<length prices]
       (\<lambda>i returns.
          bindE (at_index checked prices (int i)) (\<lambda>cur.
          bindE (at_index checked prices (int i - 1)) (\<lambda>prev.
            Inr (returns @ [(cur - prev) / prev]))))
       [] = Inr returns
     \<and> length returns = length prices - 1
     \<and> (list_all positive prices \<longrightarrow> list_all isFinite returns)"
proof -
  have "\<exists>t. for_each [1..<length prices]
       (\<lambda>i returns.
          bindE (at_index checked prices (int i)) (\<lambda>cur.
          bindE (at_index checked prices (int i - 1)) (\<lambda>prev.
            Inr (returns @ [(cur - prev) / prev]))))
       [] = Inr t
     \<and> (\<lambda>k returns. length returns = k \<and> (list_all positive prices \<longrightarrow> list_all isFinite returns))
          (length [1..<length prices]) t"
  proof (rule for_each_invariant, goal_cases)
    case 1
    show ?case by simp
  next
    case (2 k t)
    then have k: "Suc k < length prices" by simp
    have rd: "at_index checked prices (1 + int k) = Inr (prices ! Suc k)"
      "at_index checked prices (int k) = Inr (prices ! k)"
      using k by (simp_all add: at_index_Suc at_index_nat)
    have "isFinite ((prices ! Suc k - prices ! k) / prices ! k)" if "list_all positive prices"
    proof -
      from that k obtain a b where "prices ! Suc k = Fin a" "prices ! k = Fin b" "0 < b"
        using positive_nth[of prices "Suc k"] positive_nth[of prices k] by auto
      then show ?thesis by simp
    qed
    with 2 k show ?case by (simp add: rd)
  qed
  then show ?thesis by auto
qed

lemma unweighted_volatility_returns:
  assumes "\<not> length prices < 2"
    and "loop = Inr returns" and "length returns = length prices - 1"
    and "list_all positive prices \<longrightarrow> list_all isFinite returns"
  shows "\<exists>t. bindE loop (\<lambda>returns.
        bindE (checked_div checked (foldl (\<lambda>sum val. sum + val) (Fin 0) returns)
                 (Fin (real (length returns)))) (\<lambda>mean.
        bindE (checked_div checked
                 (foldl (\<lambda>sum val. sum + Math_pow (val - mean) 2) (Fin 0) returns)
                 (Fin (real (length returns)))) (\<lambda>variance.
          Inr (Math_sqrt variance)))) = Inr t
      \<and> (list_all positive prices \<longrightarrow> isFinite t)"
proof -
  have n: "0 < real (length returns)" using assms by simp
  have "isFinite (Math_sqrt (foldl (\<lambda>sum val. sum +
            Math_pow (val - foldl (\<lambda>sum val. sum + val) (Fin 0) returns / Fin (real (length returns))) 2)
            (Fin 0) returns / Fin (real (length returns))))"
    if "list_all positive prices"
  proof -
    from that assms have fin: "list_all isFinite returns" by simp
    from foldl_sum_finite[OF fin, of 0] obtain s where
      s: "foldl (\<lambda>sum val. sum + val) (Fin 0) returns = Fin s" by blast
    from foldl_squares_finite[OF fin, of 0 "s / real (length returns)"] obtain v where
      "0 \<le> v" "foldl (\<lambda>sum val. sum + Math_pow (val - Fin (s / real (length returns))) 2)
          (Fin 0) returns = Fin v" by auto
    with s n show ?thesis by (simp add: not_less)
  qed
  with n assms(2) show ?thesis by (simp add: checked_div_pos)
qed

lemma RandomForestModel_calculateVolatility_returns:
  "\<exists>t. RandomForestModel_calculateVolatility checked prices = Inr t
      \<and> (list_all positive prices \<longrightarrow> isFinite t)"
proof (cases "length prices < 2")
  case True
  then show ?thesis by (simp add: RandomForestModel_calculateVolatility_def)
next
  case False
  from daily_returns_loop[of prices checked] obtain returns where
    "RandomForestModel_calculateVolatility_loop checked prices = Inr returns"
    "length returns = length prices - 1"
    "list_all positive prices \<longrightarrow> list_all isFinite returns"
    unfolding RandomForestModel_calculateVolatility_loop_def by blast
  from unweighted_volatility_returns[OF False this] False show ?thesis
    by (simp add: RandomForestModel_calculateVolatility_def)
qed

lemma XGBoostModel_calculateVolatility_returns:
  "\<exists>t. XGBoostModel_calculateVolatility checked prices = Inr t
      \<and> (list_all positive prices \<longrightarrow> isFinite t)"
proof (cases "length prices < 2")
  case True
  then show ?thesis by (simp add: XGBoostModel_calculateVolatility_def)
next
  case False
  from daily_returns_loop[of prices checked] obtain returns where
    "XGBoostModel_calculateVolatility_loop checked prices = Inr returns"
    "length returns = length prices - 1"
    "list_all positive prices \<longrightarrow> list_all isFinite returns"
    unfolding XGBoostModel_calculateVolatility_loop_def by blast
  from unweighted_volatility_returns[OF False this] False show ?thesis
    by (simp add: XGBoostModel_calculateVolatility_def)
qed


lemma TransformerModel_calculateVolatility_returns_loop:
  "\<exists>returns weights. TransformerModel_calculateVolatility_returns checked prices = Inr (returns, weights)
     \<and> length returns = length prices - 1 \<and> length weights = length prices - 1
     \<and> list_all positive weights
     \<and> (list_all positive prices \<longrightarrow> list_all isFinite returns)"
proof -
  have "\<exists>t. TransformerModel_calculateVolatility_returns checked prices = Inr t
     \<and> (\<lambda>k (returns, weights). length returns = k \<and> length weights = k
             \<and> list_all positive weights
             \<and> (list_all positive prices \<longrightarrow> list_all isFinite returns))
          (length [1..<length prices]) t"
    unfolding TransformerModel_calculateVolatility_returns_def
  proof (rule for_each_invariant, goal_cases)
    case 1
    show ?case by simp
  next
    case (2 k t)
    obtain returns weights where t: "t = (returns, weights)" by (cases t)
    from 2 have k: "Suc k < length prices" by simp
    have rd: "at_index checked prices (1 + int k) = Inr (prices ! Suc k)"
      "at_index checked prices (int k) = Inr (prices ! k)"
      using k by (simp_all add: at_index_Suc at_index_nat)
    have "isFinite ((prices ! Suc k - prices ! k) / prices ! k)" if "list_all positive prices"
    proof -
      from that k obtain a b where "prices ! Suc k = Fin a" "prices ! k = Fin b" "0 < b"
        using positive_nth[of prices "Suc k"] positive_nth[of prices k] by auto
      then show ?thesis by simp
    qed
    with 2 k show ?case by (simp add: t rd Let_def)
  qed
  then show ?thesis by auto
qed

lemma TransformerModel_calculateVolatility_mean_loop:
  assumes "length weights = length returns" and "list_all positive weights"
  shows "\<exists>ws w. TransformerModel_calculateVolatility_mean checked returns weights = Inr (ws, Fin w)
     \<and> (returns \<noteq> [] \<longrightarrow> 0 < w) \<and> (list_all isFinite returns \<longrightarrow> isFinite ws)"
proof -
  have "\<exists>t. TransformerModel_calculateVolatility_mean checked returns weights = Inr t
     \<and> (\<lambda>k (ws, w). (\<exists>r. w = Fin r \<and> 0 \<le> r \<and> (0 < k \<longrightarrow> 0 < r))
             \<and> (list_all isFinite returns \<longrightarrow> isFinite ws))
          (length [0..<length returns]) t"
    unfolding TransformerModel_calculateVolatility_mean_def
  proof (rule for_each_invariant, goal_cases)
    case 1
    show ?case by simp
  next
    case (2 k t)
    obtain ws w where t: "t = (ws, w)" by (cases t)
    from 2 have k: "k < length returns" by simp
    from 2 t obtain r where r: "w = Fin r" "0 \<le> r" by auto
    from k assms obtain c where c: "weights ! k = Fin c" "0 < c"
      using positive_nth[of weights k] by auto
    have rd: "at_index checked returns (int k) = Inr (returns ! k)"
      "at_index checked weights (int k) = Inr (weights ! k)"
      using k assms by (simp_all add: at_index_nat)
    have "isFinite (ws + returns ! k * Fin c)" if "list_all isFinite returns"
    proof -
      from that k obtain a where "returns ! k = Fin a"
        using isFinite_nth[of returns k] by auto
      moreover from that 2 t obtain b where "ws = Fin b" by (auto elim: isFiniteE)
      ultimately show ?thesis by simp
    qed
    with k r(2) c(2) show ?case by (simp add: t rd r(1) c(1))
  qed
  then show ?thesis by auto
qed

lemma TransformerModel_calculateVolatility_variance_loop:
  assumes "length weights = length returns" and "list_all positive weights"
  shows "\<exists>vs. TransformerModel_calculateVolatility_variance checked returns weights mean = Inr vs
     \<and> (list_all isFinite returns \<longrightarrow> isFinite mean \<longrightarrow> (\<exists>v\<ge>0. vs = Fin v))"
proof -
  have "\<exists>t. TransformerModel_calculateVolatility_variance checked returns weights mean = Inr t
     \<and> (\<lambda>k vs. list_all isFinite returns \<longrightarrow> isFinite mean \<longrightarrow> (\<exists>v\<ge>0. vs = Fin v))
          (length [0..<length returns]) t"
    unfolding TransformerModel_calculateVolatility_variance_def
  proof (rule for_each_invariant, goal_cases)
    case 1
    show ?case by simp
  next
    case (2 k t)
    from 2 have k: "k < length returns" by simp
    from k assms obtain c where c: "weights ! k = Fin c" "0 < c"
      using positive_nth[of weights k] by auto
    have rd: "at_index checked returns (int k) = Inr (returns ! k)"
      "at_index checked weights (int k) = Inr (weights ! k)"
      using k assms by (simp_all add: at_index_nat)
    have "\<exists>v\<ge>0. t + Math_pow (returns ! k - mean) 2 * Fin c = Fin v"
      if "list_all isFinite returns" "isFinite mean"
    proof -
      from that k obtain a where "returns ! k = Fin a"
        using isFinite_nth[of returns k] by auto
      moreover from that obtain m where "mean = Fin m" by (auto elim: isFiniteE)
      moreover from that 2 obtain b where "t = Fin b" "0 \<le> b" by auto
      ultimately show ?thesis using c by simp
    qed
    with k show ?case by (simp add: rd c(1))
  qed
  then show ?thesis by auto
qed

lemma TransformerModel_calculateVolatility_returns:
  "\<exists>t. TransformerModel_calculateVolatility checked prices = Inr t
      \<and> (list_all positive prices \<longrightarrow> isFinite t)"
proof (cases "length prices < 2")
  case True
  then show ?thesis by (simp add: TransformerModel_calculateVolatility_def)
next
  case False
  from TransformerModel_calculateVolatility_returns_loop[of checked prices]
  obtain returns weights where
    rw: "TransformerModel_calculateVolatility_returns checked prices = Inr (returns, weights)"
    and len: "length returns = length prices - 1" "length weights = length prices - 1"
    and pos: "list_all positive weights"
    and fin: "list_all positive prices \<longrightarrow> list_all isFinite returns" by blast
  from len have eq: "length weights = length returns" by simp
  from TransformerModel_calculateVolatility_mean_loop[OF eq pos, of checked]
  obtain ws w where
    m: "TransformerModel_calculateVolatility_mean checked returns weights = Inr (ws, Fin w)"
    and w: "returns \<noteq> [] \<longrightarrow> 0 < w" and wsfin: "list_all isFinite returns \<longrightarrow> isFinite ws"
    by blast
  from False len w have wpos: "0 < w" by auto
  from TransformerModel_calculateVolatility_variance_loop[OF eq pos, of checked "ws / Fin w"]
  obtain vs where
    v: "TransformerModel_calculateVolatility_variance checked returns weights (ws / Fin w) = Inr vs"
    and vfin: "list_all isFinite returns \<longrightarrow> isFinite (ws / Fin w) \<longrightarrow> (\<exists>v\<ge>0. vs = Fin v)"
    by blast
  have "isFinite (Math_sqrt (vs / Fin w))" if "list_all positive prices"
  proof -
    from that fin wsfin obtain a where "ws = Fin a" by (auto elim: isFiniteE)
    with that fin vfin wpos obtain b where "vs = Fin b" "0 \<le> b" by auto
    with wpos show ?thesis by (simp add: not_less)
  qed
  with False rw m v wpos show ?thesis
    by (simp add: TransformerModel_calculateVolatility_def checked_div_pos)
qed


lemma Math_random_shift:
  "Math_random (\<lambda>j. g (j + n)) = (Fin (g n), \<lambda>j. g (j + Suc n))"
  by (simp add: Math_random_def)

lemma autoregressive_loop:
  fixes F :: "nat \<Rightarrow> number \<Rightarrow> number"
  shows "\<exists>p l. (\<forall>g2. (\<forall>j<n. g2 j = g j) \<longrightarrow>
            for_each [0..<n]
              (\<lambda>i (predictions, lastPrice, g).
                 case Math_random g of
                   (r, g') \<Rightarrow> Inr (predictions @ [lastPrice * F i r], lastPrice * F i r, g'))
              ([], l0, g2) = Inr (p, l, \<lambda>j. g2 (j + n)))
          \<and> length p = n
          \<and> (isFinite l0 \<longrightarrow> (\<forall>i r. isFinite (F i (Fin r))) \<longrightarrow> list_all isFinite p \<and> isFinite l)
          \<and> (l0 = NaN \<longrightarrow> list_all (\<lambda>x. x = NaN) p \<and> l = NaN)"
proof (induction n)
  case 0
  show ?case by simp
next
  case (Suc n)
  then obtain p l where
    run: "\<And>g2. (\<forall>j<n. g2 j = g j) \<Longrightarrow>
            for_each [0..<n]
              (\<lambda>i (predictions, lastPrice, g).
                 case Math_random g of
                   (r, g') \<Rightarrow> Inr (predictions @ [lastPrice * F i r], lastPrice * F i r, g'))
              ([], l0, g2) = Inr (p, l, \<lambda>j. g2 (j + n))"
    and len: "length p = n"
    and fin: "isFinite l0 \<longrightarrow> (\<forall>i r. isFinite (F i (Fin r))) \<longrightarrow> list_all isFinite p \<and> isFinite l"
    and nan: "l0 = NaN \<longrightarrow> list_all (\<lambda>x. x = NaN) p \<and> l = NaN"
    by blast
  let ?x = "l * F n (Fin (g n))"
  have "for_each [0..<Suc n]
              (\<lambda>i (predictions, lastPrice, g).
                 case Math_random g of
                   (r, g') \<Rightarrow> Inr (predictions @ [lastPrice * F i r], lastPrice * F i r, g'))
              ([], l0, g2) = Inr (p @ [?x], ?x, \<lambda>j. g2 (j + Suc n))"
    if "\<forall>j<Suc n. g2 j = g j" for g2
    using that run[of g2] by (simp add: for_each_append Math_random_shift)
  moreover have "list_all isFinite (p @ [?x]) \<and> isFinite ?x"
    if "isFinite l0" "\<forall>i r. isFinite (F i (Fin r))"
  proof -
    from that fin obtain a where "l = Fin a" by (auto elim: isFiniteE)
    moreover from that obtain b where "F n (Fin (g n)) = Fin b"
      using isFiniteE[of "F n (Fin (g n))"] by blast
    ultimately show ?thesis using that fin by simp
  qed
  moreover have "list_all (\<lambda>x. x = NaN) (p @ [?x]) \<and> ?x = NaN" if "l0 = NaN"
    using that nan by simp
  ultimately show ?case using len
    by (intro exI[of _ "p @ [?x]"] exI[of _ ?x]) simp
qed

lemma last_price_read:
  assumes "checked \<longrightarrow> prices \<noteq> []"
  shows "\<exists>l. at_index checked prices (int (length prices) - 1) = Inr l
           \<and> (list_all positive prices \<longrightarrow> prices \<noteq> [] \<longrightarrow> isFinite l)
           \<and> (prices = [] \<longrightarrow> l = NaN)"
proof (cases "prices = []")
  case True
  with assms show ?thesis by (simp add: at_index_def)
next
  case False
  then have "list_all positive prices \<Longrightarrow> isFinite (last prices)"
    using last_in_set[of prices] by (auto simp: list_all_iff intro: positive_isFinite)
  with False show ?thesis by (auto simp: last_read)
qed

lemma TransformerModel_predict_returns:
  assumes "checked \<longrightarrow> prices \<noteq> []"
  shows "\<exists>p. (\<forall>g2. (\<forall>j<nat days. g2 j = g j) \<longrightarrow>
                TransformerModel_predict checked g2 prices days = Inr (p, \<lambda>j. g2 (j + nat days)))
           \<and> length p = nat days
           \<and> (list_all positive prices \<longrightarrow> prices \<noteq> [] \<longrightarrow> list_all isFinite p)
           \<and> (prices = [] \<longrightarrow> list_all (\<lambda>x. x = NaN) p)"
proof -
  from last_price_read[OF assms] obtain l where
    l: "at_index checked prices (int (length prices) - 1) = Inr l"
       "list_all positive prices \<longrightarrow> prices \<noteq> [] \<longrightarrow> isFinite l"
    and lnan: "prices = [] \<longrightarrow> l = NaN" by blast
  from TransformerModel_calculateTrend_returns[of checked prices] obtain trend where
    t: "TransformerModel_calculateTrend checked prices = Inr trend"
       "list_all positive prices \<longrightarrow> isFinite trend" by blast
  from TransformerModel_calculateVolatility_returns[of checked prices] obtain vol where
    v: "TransformerModel_calculateVolatility checked prices = Inr vol"
       "list_all positive prices \<longrightarrow> isFinite vol" by blast
  from TransformerModel_calculateLongRangeTrend_returns[of checked prices] obtain lr where
    r: "TransformerModel_calculateLongRangeTrend checked prices = Inr lr"
       "list_all positive prices \<longrightarrow> isFinite lr" by blast
  let ?F = "\<lambda>i r. Fin 1
              + (trend * Math_max (Fin 0.2) (Fin 1 - Fin (real i) * Fin 0.05)
                 + lr * (Fin 1 - Math_max (Fin 0.2) (Fin 1 - Fin (real i) * Fin 0.05)))
              + Math_sin ((Fin (real (i mod 7)) * Fin pi) / Fin 3.5) * Fin 0.002
              + Math_tanh (trend * Fin 10) * Fin 0.005
              + (r - Fin 0.5) * vol * Fin 0.4"
  from autoregressive_loop[where n = "nat days" and g = g and ?l0.0 = l and F = ?F] obtain p lp where
    run: "\<And>g2. (\<forall>j<nat days. g2 j = g j) \<Longrightarrow>
            TransformerModel_predict_loop trend vol lr days l g2
              = Inr (p, lp, \<lambda>j. g2 (j + nat days))"
    and len: "length p = nat days"
    and fin: "isFinite l \<longrightarrow> (\<forall>i r. isFinite (?F i (Fin r))) \<longrightarrow> list_all isFinite p \<and> isFinite lp"
    and nan: "l = NaN \<longrightarrow> list_all (\<lambda>x. x = NaN) p \<and> lp = NaN"
    unfolding TransformerModel_predict_loop_def Let_def by blast
  have "\<forall>i r. isFinite (?F i (Fin r))" if "list_all positive prices"
  proof -
    from that t v r obtain a b c where "trend = Fin a" "vol = Fin b" "lr = Fin c"
      by (auto elim!: isFiniteE)
    then show ?thesis by simp
  qed
  with fin l have "list_all positive prices \<longrightarrow> prices \<noteq> [] \<longrightarrow> list_all isFinite p" by blast
  moreover from nan lnan have "prices = [] \<longrightarrow> list_all (\<lambda>x. x = NaN) p" by blast
  ultimately show ?thesis using run len
    by (intro exI[of _ p]) (simp add: TransformerModel_predict_def l t v r)
qed

lemma RandomForestModel_predict_returns:
  assumes "checked \<longrightarrow> prices \<noteq> []"
  shows "\<exists>p. (\<forall>g2. (\<forall>j<nat days. g2 j = g j) \<longrightarrow>
                RandomForestModel_predict checked g2 prices days = Inr (p, \<lambda>j. g2 (j + nat days)))
           \<and> length p = nat days
           \<and> (list_all positive prices \<longrightarrow> prices \<noteq> [] \<longrightarrow> list_all isFinite p)
           \<and> (prices = [] \<longrightarrow> list_all (\<lambda>x. x = NaN) p)"
proof -
  from last_price_read[OF assms] obtain l where
    l: "at_index checked prices (int (length prices) - 1) = Inr l"
       "list_all positive prices \<longrightarrow> prices \<noteq> [] \<longrightarrow> isFinite l"
    and lnan: "prices = [] \<longrightarrow> l = NaN" by blast
  from RandomForestModel_calculateTrend_returns[of checked prices] obtain trend where
    t: "RandomForestModel_calculateTrend checked prices = Inr trend"
       "list_all positive prices \<longrightarrow> isFinite trend" by blast
  from RandomForestModel_calculateVolatility_returns[of checked prices] obtain vol where
    v: "RandomForestModel_calculateVolatility checked prices = Inr vol"
       "list_all positive prices \<longrightarrow> isFinite vol" by blast
  let ?F = "\<lambda>(i::nat) r. Fin 1 + trend + (r - Fin 0.5) * (vol * Fin 0.8)"
  from autoregressive_loop[where n = "nat days" and g = g and ?l0.0 = l and F = ?F]
  obtain p lp where
    run: "\<And>g2. (\<forall>j<nat days. g2 j = g j) \<Longrightarrow>
            RandomForestModel_predict_loop trend (vol * Fin 0.8) days l g2
              = Inr (p, lp, \<lambda>j. g2 (j + nat days))"
    and len: "length p = nat days"
    and fin: "isFinite l \<longrightarrow> (\<forall>i r. isFinite (?F i (Fin r))) \<longrightarrow> list_all isFinite p \<and> isFinite lp"
    and nan: "l = NaN \<longrightarrow> list_all (\<lambda>x. x = NaN) p \<and> lp = NaN"
    unfolding RandomForestModel_predict_loop_def Let_def by blast
  have "\<forall>i r. isFinite (?F i (Fin r))" if "list_all positive prices"
  proof -
    from that t v obtain a b where "trend = Fin a" "vol = Fin b"
      by (auto elim!: isFiniteE)
    then show ?thesis by simp
  qed
  with fin l have "list_all positive prices \<longrightarrow> prices \<noteq> [] \<longrightarrow> list_all isFinite p" by blast
  moreover from nan lnan have "prices = [] \<longrightarrow> list_all (\<lambda>x. x = NaN) p" by blast
  ultimately show ?thesis using run len
    by (intro exI[of _ p]) (simp add: RandomForestModel_predict_def l t v Let_def)
qed

lemma XGBoostModel_predict_returns:
  assumes "checked \<longrightarrow> prices \<noteq> []"
  shows "\<exists>p. (\<forall>g2. (\<forall>j<nat days. g2 j = g j) \<longrightarrow>
                XGBoostModel_predict checked g2 prices days = Inr (p, \<lambda>j. g2 (j + nat days)))
           \<and> length p = nat days
           \<and> (list_all positive prices \<longrightarrow> prices \<noteq> [] \<longrightarrow> list_all isFinite p)
           \<and> (prices = [] \<longrightarrow> list_all (\<lambda>x. x = NaN) p)"
proof -
  from last_price_read[OF assms] obtain l where
    l: "at_index checked prices (int (length prices) - 1) = Inr l"
       "list_all positive prices \<longrightarrow> prices \<noteq> [] \<longrightarrow> isFinite l"
    and lnan: "prices = [] \<longrightarrow> l = NaN" by blast
  from XGBoostModel_calculateTrend_returns[of checked prices] obtain trend where
    t: "XGBoostModel_calculateTrend checked prices = Inr trend"
       "list_all positive prices \<longrightarrow> isFinite trend" by blast
  from XGBoostModel_calculateVolatility_returns[of checked prices] obtain vol where
    v: "XGBoostModel_calculateVolatility checked prices = Inr vol"
       "list_all positive prices \<longrightarrow> isFinite vol" by blast
  let ?F = "\<lambda>i r. Fin 1 + trend + Math_sin ((Fin (real i) * Fin pi) / Fin 7) * Fin 0.005
                   + (r - Fin 0.5) * (vol * Fin 0.9)"
  from autoregressive_loop[where n = "nat days" and g = g and ?l0.0 = l and F = ?F]
  obtain p lp where
    run: "\<And>g2. (\<forall>j<nat days. g2 j = g j) \<Longrightarrow>
            XGBoostModel_predict_loop trend (vol * Fin 0.9) days l g2
              = Inr (p, lp, \<lambda>j. g2 (j + nat days))"
    and len: "length p = nat days"
    and fin: "isFinite l \<longrightarrow> (\<forall>i r. isFinite (?F i (Fin r))) \<longrightarrow> list_all isFinite p \<and> isFinite lp"
    and nan: "l = NaN \<longrightarrow> list_all (\<lambda>x. x = NaN) p \<and> lp = NaN"
    unfolding XGBoostModel_predict_loop_def Let_def by blast
  have "\<forall>i r. isFinite (?F i (Fin r))" if "list_all positive prices"
  proof -
    from that t v obtain a b where "trend = Fin a" "vol = Fin b"
      by (auto elim!: isFiniteE)
    then show ?thesis by simp
  qed
  with fin l have "list_all positive prices \<longrightarrow> prices \<noteq> [] \<longrightarrow> list_all isFinite p" by blast
  moreover from nan lnan have "prices = [] \<longrightarrow> list_all (\<lambda>x. x = NaN) p" by blast
  ultimately show ?thesis using run len
    by (intro exI[of _ p]) (simp add: XGBoostModel_predict_def l t v Let_def)
qed

lemma BERTModel_predict_returns:
  assumes "checked \<longrightarrow> prices \<noteq> []"
  shows "\<exists>p. (\<forall>g2. (\<forall>j<nat days. g2 j = g j) \<longrightarrow>
                BERTModel_predict checked g2 prices days = Inr (p, \<lambda>j. g2 (j + nat days)))
           \<and> length p = nat days
           \<and> (list_all positive prices \<longrightarrow> prices \<noteq> [] \<longrightarrow> list_all isFinite p)
           \<and> (prices = [] \<longrightarrow> list_all (\<lambda>x. x = NaN) p)"
proof -
  from last_price_read[OF assms] obtain l where
    l: "at_index checked prices (int (length prices) - 1) = Inr l"
       "list_all positive prices \<longrightarrow> prices \<noteq> [] \<longrightarrow> isFinite l"
    and lnan: "prices = [] \<longrightarrow> l = NaN" by blast
  from BERTModel_calculateTrend_returns[of checked prices] obtain trend where
    t: "BERTModel_calculateTrend checked prices = Inr trend"
       "list_all positive prices \<longrightarrow> isFinite trend" by blast
  let ?F = "\<lambda>(i::nat) r. Fin 1 + trend * Fin 1.2 + (r - Fin 0.5) * Fin 0.02"
  from autoregressive_loop[where n = "nat days" and g = g and ?l0.0 = l and F = ?F]
  obtain p lp where
    run: "\<And>g2. (\<forall>j<nat days. g2 j = g j) \<Longrightarrow>
            BERTModel_predict_loop trend days l g2 = Inr (p, lp, \<lambda>j. g2 (j + nat days))"
    and len: "length p = nat days"
    and fin: "isFinite l \<longrightarrow> (\<forall>i r. isFinite (?F i (Fin r))) \<longrightarrow> list_all isFinite p \<and> isFinite lp"
    and nan: "l = NaN \<longrightarrow> list_all (\<lambda>x. x = NaN) p \<and> lp = NaN"
    unfolding BERTModel_predict_loop_def Let_def by blast
  have "\<forall>i r. isFinite (?F i (Fin r))" if "list_all positive prices"
  proof -
    from that t obtain a where "trend = Fin a"
      by (auto elim!: isFiniteE)
    then show ?thesis by simp
  qed
  with fin l have "list_all positive prices \<longrightarrow> prices \<noteq> [] \<longrightarrow> list_all isFinite p" by blast
  moreover from nan lnan have "prices = [] \<longrightarrow> list_all (\<lambda>x. x = NaN) p" by blast
  ultimately show ?thesis using run len
    by (intro exI[of _ p]) (simp add: BERTModel_predict_def l t)
qed

lemma sentimentScores_drawn:
  "\<exists>sc. (\<forall>g2. (\<forall>j<n. g2 j = g j) \<longrightarrow>
            for_each (replicate n (Fin 0))
              (\<lambda>z (scores, g).
                 if False then Inr (scores @ [Fin 0], g)
                 else let (r, g') = Math_random g
                      in Inr (scores @ [(r - Fin 0.4) * Fin 0.02], g'))
              ([], g2) = Inr (sc, \<lambda>j. g2 (j + n)))
         \<and> length sc = n \<and> list_all isFinite sc"
proof (induction n)
  case 0
  show ?case by simp
next
  case (Suc n)
  then obtain sc where
    run: "\<And>g2. (\<forall>j<n. g2 j = g j) \<Longrightarrow>
            for_each (replicate n (Fin 0))
              (\<lambda>z (scores, g).
                 if False then Inr (scores @ [Fin 0], g)
                 else let (r, g') = Math_random g
                      in Inr (scores @ [(r - Fin 0.4) * Fin 0.02], g'))
              ([], g2) = Inr (sc, \<lambda>j. g2 (j + n))"
    and len: "length sc = n" and fin: "list_all isFinite sc"
    by blast
  have rep: "replicate (Suc n) (Fin 0) = replicate n (Fin 0) @ [Fin 0]"
    by (simp add: replicate_append_same)
  let ?x = "(Fin (g n) - Fin 0.4) * Fin 0.02"
  have "for_each (replicate (Suc n) (Fin 0))
              (\<lambda>z (scores, g).
                 if False then Inr (scores @ [Fin 0], g)
                 else let (r, g') = Math_random g
                      in Inr (scores @ [(r - Fin 0.4) * Fin 0.02], g'))
              ([], g2) = Inr (sc @ [?x], \<lambda>j. g2 (j + Suc n))"
    if "\<forall>j<Suc n. g2 j = g j" for g2
    unfolding rep using that run[of g2] by (simp add: for_each_append Math_random_shift)
  with len fin show ?case
    by (intro exI[of _ "sc @ [?x]"]) simp
qed

lemma sentimentScores_api:
  "for_each (replicate n (Fin 0))
     (\<lambda>z (scores, g).
        if True then Inr (scores @ [Fin 0], g)
        else let (r, g') = Math_random g
             in Inr (scores @ [(r - Fin 0.4) * Fin 0.02], g'))
     ([], g) = Inr (replicate n (Fin 0), g)"
proof -
  have "\<exists>t. for_each (replicate n (Fin 0))
              (\<lambda>z (scores, g).
                 if True then Inr (scores @ [Fin 0], g)
                 else let (r, g') = Math_random g
                      in Inr (scores @ [(r - Fin 0.4) * Fin 0.02], g'))
              ([], g) = Inr t
         \<and> (\<lambda>k (sc, g'). g' = g \<and> sc = replicate k (Fin 0))
              (length (replicate n (Fin 0))) t"
    by (rule for_each_invariant) (auto simp: replicate_append_same)
  then show ?thesis by auto
qed

lemma SentimentModel_sentimentScores_returns:
  assumes "0 \<le> days"
  shows "\<exists>sc k. k \<le> nat days
           \<and> (\<forall>g2. (\<forall>j<k. g2 j = g j) \<longrightarrow>
                SentimentModel_sentimentScores useSentimentAPI days g2 = Inr (sc, \<lambda>j. g2 (j + k)))
           \<and> length sc = nat days \<and> list_all isFinite sc"
proof (cases useSentimentAPI)
  case True
  with assms show ?thesis
    by (intro exI[of _ "replicate (nat days) (Fin 0)"] exI[of _ 0])
      (simp add: SentimentModel_sentimentScores_def Array_fill_0_def sentimentScores_api[simplified]
        list_all_iff)
next
  case False
  from sentimentScores_drawn[of "nat days" g] obtain sc where
    "\<And>g2. (\<forall>j<nat days. g2 j = g j) \<Longrightarrow>
            for_each (replicate (nat days) (Fin 0))
              (\<lambda>z (scores, g).
                 if False then Inr (scores @ [Fin 0], g)
                 else let (r, g') = Math_random g
                      in Inr (scores @ [(r - Fin 0.4) * Fin 0.02], g'))
              ([], g2) = Inr (sc, \<lambda>j. g2 (j + nat days))"
     "length sc = nat days" "list_all isFinite sc" by blast
  with False assms show ?thesis
    by (intro exI[of _ sc] exI[of _ "nat days"])
      (simp add: SentimentModel_sentimentScores_def Array_fill_0_def)
qed


lemma SentimentModel_predict_loop_returns:
  assumes "length sc = nat days"
  shows "\<exists>p l. SentimentModel_predict_loop checked useSentimentAPI factor sc days l0 = Inr (p, l)
           \<and> length p = nat days
           \<and> (isFinite l0 \<longrightarrow> list_all isFinite sc \<longrightarrow> (useSentimentAPI \<longrightarrow> isFinite factor)
                \<longrightarrow> list_all isFinite p)
           \<and> (l0 = NaN \<longrightarrow> list_all (\<lambda>x. x = NaN) p)"
proof -
  let ?ok = "isFinite l0 \<and> list_all isFinite sc \<and> (useSentimentAPI \<longrightarrow> isFinite factor)"
  have "\<exists>t. SentimentModel_predict_loop checked useSentimentAPI factor sc days l0 = Inr t
     \<and> (\<lambda>k (p, l). length p = k \<and> (?ok \<longrightarrow> list_all isFinite p \<and> isFinite l)
            \<and> (l0 = NaN \<longrightarrow> list_all (\<lambda>x. x = NaN) p \<and> l = NaN))
          (length [0..<nat days]) t"
    unfolding SentimentModel_predict_loop_def
  proof (rule for_each_invariant, goal_cases)
    case 1
    show ?case by simp
  next
    case (2 k t)
    obtain p l where t: "t = (p, l)" by (cases t)
    from 2 assms have k: "k < length sc" by simp
    have rd: "at_index checked sc (int k) = Inr (sc ! k)"
      using k by (simp add: at_index_nat)
    have "(useSentimentAPI \<longrightarrow> isFinite (l * (Fin 1 + (factor - Fin 1))))
        \<and> (\<not> useSentimentAPI \<longrightarrow> isFinite (l * (Fin 1 + sc ! k)))" if "?ok"
    proof -
      from that 2 t obtain a where a: "l = Fin a" by (auto elim: isFiniteE)
      from that k obtain b where b: "sc ! k = Fin b" using isFinite_nth[of sc k] by auto
      show ?thesis
      proof (cases useSentimentAPI)
        case True
        with that obtain c where "factor = Fin c" by (auto elim: isFiniteE)
        with a b show ?thesis by simp
      next
        case False
        with a b show ?thesis by simp
      qed
    qed
    with 2 k show ?case by (auto simp: t rd Let_def)
  qed
  then show ?thesis by auto
qed


lemma SentimentModel_predict_returns:
  assumes "checked \<longrightarrow> prices \<noteq> []" and "0 \<le> days"
  shows "\<exists>p k. k \<le> nat days
           \<and> (\<forall>g2. (\<forall>j<k. g2 j = g j) \<longrightarrow>
                SentimentModel_predict checked useSentimentAPI impact g2 prices days
                  = Inr (p, \<lambda>j. g2 (j + k)))
           \<and> length p = nat days
           \<and> (list_all positive prices \<longrightarrow> prices \<noteq> [] \<longrightarrow> (useSentimentAPI \<longrightarrow> isFinite impact)
                \<longrightarrow> list_all isFinite p)
           \<and> (prices = [] \<longrightarrow> list_all (\<lambda>x. x = NaN) p)"
proof -
  from last_price_read[OF assms(1)] obtain l where
    l: "at_index checked prices (int (length prices) - 1) = Inr l"
       "list_all positive prices \<longrightarrow> prices \<noteq> [] \<longrightarrow> isFinite l"
    and lnan: "prices = [] \<longrightarrow> l = NaN" by blast
  from SentimentModel_sentimentScores_returns[OF assms(2), of g useSentimentAPI]
  obtain sc k where k: "k \<le> nat days"
    and sc: "\<And>g2. (\<forall>j<k. g2 j = g j) \<Longrightarrow>
               SentimentModel_sentimentScores useSentimentAPI days g2 = Inr (sc, \<lambda>j. g2 (j + k))"
    and len: "length sc = nat days" and fin: "list_all isFinite sc" by blast
  let ?factor = "if useSentimentAPI then impact else Fin 1"
  from SentimentModel_predict_loop_returns[OF len, of checked useSentimentAPI ?factor l]
  obtain p lp where
    run: "SentimentModel_predict_loop checked useSentimentAPI ?factor sc days l = Inr (p, lp)"
    and plen: "length p = nat days"
    and pfin: "isFinite l \<longrightarrow> list_all isFinite sc \<longrightarrow> (useSentimentAPI \<longrightarrow> isFinite ?factor)
                \<longrightarrow> list_all isFinite p"
    and pnan: "l = NaN \<longrightarrow> list_all (\<lambda>x. x = NaN) p" by blast
  from pfin fin l have
    "list_all positive prices \<longrightarrow> prices \<noteq> [] \<longrightarrow> (useSentimentAPI \<longrightarrow> isFinite impact)
       \<longrightarrow> list_all isFinite p" by simp
  moreover from pnan lnan have "prices = [] \<longrightarrow> list_all (\<lambda>x. x = NaN) p" by blast
  ultimately show ?thesis using k sc run plen
    by (intro exI[of _ p] exI[of _ k]) (simp add: SentimentModel_predict_def l Let_def)
qed

lemma model_predict_returns:
  assumes "checked \<longrightarrow> prices \<noteq> []" and "0 \<le> days"
  shows "\<exists>p k. k \<le> nat days
           \<and> (\<forall>g2. (\<forall>j<k. g2 j = g j) \<longrightarrow>
                model_predict checked m g2 prices days = Inr (p, \<lambda>j. g2 (j + k)))
           \<and> length p = nat days
           \<and> (list_all positive prices \<longrightarrow> prices \<noteq> []
                \<longrightarrow> (\<forall>x. m = SentimentModel True x \<longrightarrow> isFinite x)
                \<longrightarrow> list_all isFinite p)
           \<and> (prices = [] \<longrightarrow> list_all (\<lambda>x. x = NaN) p)"
proof (cases m)
  case TransformerModel
  with TransformerModel_predict_returns[OF assms(1), of days g] show ?thesis
    by (auto intro!: exI[of _ "nat days"])
next
  case RandomForestModel
  with RandomForestModel_predict_returns[OF assms(1), of days g] show ?thesis
    by (auto intro!: exI[of _ "nat days"])
next
  case XGBoostModel
  with XGBoostModel_predict_returns[OF assms(1), of days g] show ?thesis
    by (auto intro!: exI[of _ "nat days"])
next
  case (SentimentModel api x)
  with SentimentModel_predict_returns[OF assms, of g api x] show ?thesis
    by (cases api) auto
next
  case BERTModel
  with BERTModel_predict_returns[OF assms(1), of days g] show ?thesis
    by (auto intro!: exI[of _ "nat days"])
qed


lemma EnsembleModel_modelPredictions_returns:
  assumes "checked \<longrightarrow> prices \<noteq> []" and "0 \<le> days"
  shows "\<exists>mps k. k \<le> length ms * nat days
           \<and> (\<forall>g2. (\<forall>j<k. g2 j = g j) \<longrightarrow>
                EnsembleModel_modelPredictions checked ms g2 prices days
                  = Inr (mps, \<lambda>j. g2 (j + k)))
           \<and> length mps = length ms
           \<and> (\<forall>i<length ms.
                 mp_name (mps ! i) = model_name (ms ! i)
                 \<and> mp_confidence (mps ! i) = model_confidence (ms ! i)
                 \<and> length (mp_predictions (mps ! i)) = nat days
                 \<and> (list_all positive prices \<longrightarrow> prices \<noteq> []
                      \<longrightarrow> (\<forall>x. ms ! i = SentimentModel True x \<longrightarrow> isFinite x)
                      \<longrightarrow> list_all isFinite (mp_predictions (mps ! i)))
                 \<and> (prices = [] \<longrightarrow> list_all (\<lambda>x. x = NaN) (mp_predictions (mps ! i))))"
proof (induction ms rule: rev_induct)
  case Nil
  show ?case
    by (intro exI[of _ "[]"] exI[of _ 0]) (simp add: EnsembleModel_modelPredictions_def)
next
  case (snoc m ms)
  let ?ok = "\<lambda>m p. (list_all positive prices \<longrightarrow> prices \<noteq> []
                \<longrightarrow> (\<forall>x. m = SentimentModel True x \<longrightarrow> isFinite x) \<longrightarrow> list_all isFinite p)
              \<and> (prices = [] \<longrightarrow> list_all (\<lambda>x. x = NaN) p)"
  from snoc obtain mps k where k: "k \<le> length ms * nat days"
    and run: "\<And>g2. (\<forall>j<k. g2 j = g j) \<Longrightarrow>
                EnsembleModel_modelPredictions checked ms g2 prices days
                  = Inr (mps, \<lambda>j. g2 (j + k))"
    and len: "length mps = length ms"
    and props: "\<And>i. i < length ms \<Longrightarrow>
                 mp_name (mps ! i) = model_name (ms ! i)
                 \<and> mp_confidence (mps ! i) = model_confidence (ms ! i)
                 \<and> length (mp_predictions (mps ! i)) = nat days
                 \<and> ?ok (ms ! i) (mp_predictions (mps ! i))"
    by blast
  from model_predict_returns[OF assms, of "\<lambda>j. g (j + k)" m] obtain p k' where
    k': "k' \<le> nat days"
    and run': "\<And>g3. (\<forall>j<k'. g3 j = g (j + k)) \<Longrightarrow>
                 model_predict checked m g3 prices days = Inr (p, \<lambda>j. g3 (j + k'))"
    and plen: "length p = nat days" and pfin: "?ok m p"
    by blast
  let ?new = "\<lparr>mp_name = model_name m, mp_predictions = p, mp_confidence = model_confidence m\<rparr>"
  have "EnsembleModel_modelPredictions checked (ms @ [m]) g2 prices days
          = Inr (mps @ [?new], \<lambda>j. g2 (j + (k + k')))"
    if agree: "\<forall>j<k + k'. g2 j = g j" for g2
  proof -
    from agree have "\<forall>j<k. g2 j = g j" by simp
    from run[OF this] have 1:
      "for_each ms
         (\<lambda>model (acc, g).
            bindE (model_predict checked model g prices days) (\<lambda>(p, g').
              Inr (acc @ [\<lparr>mp_name = model_name model, mp_predictions = p,
                           mp_confidence = model_confidence model\<rparr>], g')))
         ([], g2) = Inr (mps, \<lambda>j. g2 (j + k))"
      by (simp add: EnsembleModel_modelPredictions_def)
    from agree have "\<forall>j<k'. (\<lambda>j. g2 (j + k)) j = g (j + k)" by simp
    from run'[OF this] have 2:
      "model_predict checked m (\<lambda>j. g2 (j + k)) prices days = Inr (p, \<lambda>j. g2 (j + k' + k))"
      by simp
    show ?thesis
      by (simp add: EnsembleModel_modelPredictions_def for_each_append 1 2 ac_simps)
  qed
  moreover have "k + k' \<le> length (ms @ [m]) * nat days" using k k' by simp
  moreover have "length (mps @ [?new]) = length (ms @ [m])" using len by simp
  moreover have "mp_name ((mps @ [?new]) ! i) = model_name ((ms @ [m]) ! i)
                 \<and> mp_confidence ((mps @ [?new]) ! i) = model_confidence ((ms @ [m]) ! i)
                 \<and> length (mp_predictions ((mps @ [?new]) ! i)) = nat days
                 \<and> ?ok ((ms @ [m]) ! i) (mp_predictions ((mps @ [?new]) ! i))"
    if "i < length (ms @ [m])" for i
  proof (cases "i < length ms")
    case True
    with props[OF True] len show ?thesis by (simp add: nth_append)
  next
    case False
    with that have "i = length ms" by simp
    with len plen pfin show ?thesis by (simp add: nth_append)
  qed
  ultimately show ?case
    by (intro exI[of _ "mps @ [?new]"] exI[of _ "k + k'"]) blast
qed

section \<open>The ensemble returns\<close>

lemma weightedSum_fold:
  assumes "\<forall>m\<in>set mps. day < length (mp_predictions m)"
  shows "for_each mps
           (\<lambda>model (weightedSum, totalWeight).
              bindE (at_index checked (mp_predictions model) (int day)) (\<lambda>p.
                Inr (weightedSum + p * mp_confidence model, totalWeight + mp_confidence model)))
           (a, b)
         = Inr (foldl (\<lambda>s m. s + mp_predictions m ! day * mp_confidence m) a mps,
                foldl (\<lambda>s m. s + mp_confidence m) b mps)"
  using assms by (induction mps arbitrary: a b) (simp_all add: at_index_nat)

lemma EnsembleModel_weightedSum_eq:
  assumes "\<forall>m\<in>set mps. day < length (mp_predictions m)"
  shows "EnsembleModel_weightedSum checked mps day
         = Inr (foldl (\<lambda>s m. s + mp_predictions m ! day * mp_confidence m) (Fin 0) mps,
                foldl (\<lambda>s m. s + mp_confidence m) (Fin 0) mps)"
  unfolding EnsembleModel_weightedSum_def by (rule weightedSum_fold[OF assms])

lemma dayPredictions_map:
  assumes "\<forall>m\<in>set mps. day < length (mp_predictions m)"
  shows "for_each mps
           (\<lambda>m ps. bindE (at_index checked (mp_predictions m) (int day)) (\<lambda>p. Inr (ps @ [p])))
           acc
         = Inr (acc @ map (\<lambda>m. mp_predictions m ! day) mps)"
  using assms by (induction mps arbitrary: acc) (simp_all add: at_index_nat)

lemma EnsembleModel_dayPredictions_eq:
  assumes "\<forall>m\<in>set mps. day < length (mp_predictions m)"
  shows "EnsembleModel_dayPredictions checked mps day = Inr (map (\<lambda>m. mp_predictions m ! day) mps)"
  unfolding EnsembleModel_dayPredictions_def using dayPredictions_map[OF assms, of checked "[]"]
  by simp

lemma model_confidence_positive: "\<exists>c>0. model_confidence m = Fin c"
proof (cases m)
  case TransformerModel
  then show ?thesis by (intro exI[of _ "0.45"]) simp
next
  case RandomForestModel
  then show ?thesis by (intro exI[of _ "0.25"]) simp
next
  case XGBoostModel
  then show ?thesis by (intro exI[of _ "0.2"]) simp
next
  case (SentimentModel api x)
  then show ?thesis by (intro exI[of _ "0.1"]) simp
next
  case BERTModel
  then show ?thesis by (intro exI[of _ "0.1"]) simp
qed

lemma totalWeight_positive:
  assumes "\<forall>m\<in>set mps. \<exists>c>0. mp_confidence m = Fin c"
  shows "\<exists>w. foldl (\<lambda>s m. s + mp_confidence m) (Fin a) mps = Fin w \<and> a \<le> w \<and> (mps \<noteq> [] \<longrightarrow> a < w)"
  using assms
proof (induction mps arbitrary: a)
  case Nil
  show ?case by simp
next
  case (Cons m mps)
  then obtain c where c: "mp_confidence m = Fin c" "0 < c" by auto
  from Cons.IH[of "a + c"] Cons.prems obtain w where
    "foldl (\<lambda>s m. s + mp_confidence m) (Fin (a + c)) mps = Fin w" "a + c \<le> w" by auto
  with c show ?case by auto
qed

lemma EnsembleModel_calculateVariance_returns:
  assumes "checked \<longrightarrow> values \<noteq> []"
  shows "\<exists>v. EnsembleModel_calculateVariance checked values = Inr v"
proof (cases "values = []")
  case True
  with assms show ?thesis by (simp add: EnsembleModel_calculateVariance_def)
next
  case False
  then have "0 < real (length values)" by simp
  then show ?thesis by (simp add: EnsembleModel_calculateVariance_def checked_div_pos)
qed

lemma EnsembleModel_predict_day_returns:
  assumes "\<forall>m\<in>set mps. day < length (mp_predictions m)"
    and "\<forall>m\<in>set mps. \<exists>c>0. mp_confidence m = Fin c"
    and "checked \<longrightarrow> mps \<noteq> []"
  shows "\<exists>variance.
           EnsembleModel_calculateVariance checked (map (\<lambda>m. mp_predictions m ! day) mps)
             = Inr variance
           \<and> EnsembleModel_predict_day checked mps day days volatilityFactor =
               Inr (let predictedPrice =
                          foldl (\<lambda>s m. s + mp_predictions m ! day * mp_confidence m) (Fin 0) mps
                          / foldl (\<lambda>s m. s + mp_confidence m) (Fin 0) mps;
                        stdDev = Math_sqrt variance;
                        confidenceInterval =
                          stdDev * Fin 1.96 * dayFactor day days * volatilityFactor
                    in \<lparr>predicted = predictedPrice,
                         upperBound = predictedPrice + confidenceInterval,
                         lowerBound = predictedPrice - confidenceInterval,
                         confidence = Fin 1 - stdDev / predictedPrice\<rparr>)"
proof -
  from assms(3) have "checked \<longrightarrow> map (\<lambda>m. mp_predictions m ! day) mps \<noteq> []" by simp
  from EnsembleModel_calculateVariance_returns[OF this] obtain variance where
    v: "EnsembleModel_calculateVariance checked (map (\<lambda>m. mp_predictions m ! day) mps)
          = Inr variance" by blast
  from totalWeight_positive[OF assms(2), of 0] obtain w where
    w: "foldl (\<lambda>s m. s + mp_confidence m) (Fin 0) mps = Fin w" "mps \<noteq> [] \<longrightarrow> 0 < w" by auto
  have d: "checked_div checked a (foldl (\<lambda>s m. s + mp_confidence m) (Fin 0) mps)
             = Inr (a / foldl (\<lambda>s m. s + mp_confidence m) (Fin 0) mps)" for a
    using w assms(3) by (cases checked) (simp_all add: checked_div_pos)
  show ?thesis
    by (intro exI[of _ variance])
      (simp add: v EnsembleModel_predict_day_def EnsembleModel_weightedSum_eq[OF assms(1)]
        EnsembleModel_dayPredictions_eq[OF assms(1)] d Let_def)
qed

lemma collect_loop:
  assumes "\<And>d. d < n \<Longrightarrow> \<exists>r. f d = Inr r"
  shows "\<exists>rs. for_each [0..<n] (\<lambda>day results. bindE (f day) (\<lambda>r. Inr (results @ [r]))) []
              = Inr rs
           \<and> length rs = n \<and> (\<forall>d<n. f d = Inr (rs ! d))"
proof -
  have "\<exists>t. for_each [0..<n] (\<lambda>day results. bindE (f day) (\<lambda>r. Inr (results @ [r]))) [] = Inr t
          \<and> (\<lambda>k rs. length rs = k \<and> (\<forall>d<k. f d = Inr (rs ! d))) (length [0..<n]) t"
  proof (rule for_each_invariant, goal_cases)
    case 1
    show ?case by simp
  next
    case (2 k t)
    then have "k < n" by simp
    from assms[OF this] obtain r where "f k = Inr r" by blast
    with 2 show ?case by (auto simp: nth_append less_Suc_eq)
  qed
  then show ?thesis by simp
qed


lemma EnsembleModel_predict_structure:
  assumes "checked \<longrightarrow> prices \<noteq> [] \<and> ms \<noteq> []" and "0 \<le> days"
  shows "\<exists>mps rs k. k \<le> length ms * nat days
           \<and> (\<forall>g2. (\<forall>j<k. g2 j = g j) \<longrightarrow>
                EnsembleModel_modelPredictions checked ms g2 prices days
                  = Inr (mps, \<lambda>j. g2 (j + k))
                \<and> EnsembleModel_predict checked ms g2 prices days volatilityFactor
                  = Inr (rs, \<lambda>j. g2 (j + k)))
           \<and> length mps = length ms \<and> length rs = nat days
           \<and> (\<forall>i<length ms.
                 mp_name (mps ! i) = model_name (ms ! i)
                 \<and> mp_confidence (mps ! i) = model_confidence (ms ! i)
                 \<and> length (mp_predictions (mps ! i)) = nat days
                 \<and> (list_all positive prices \<longrightarrow> prices \<noteq> []
                      \<longrightarrow> (\<forall>x. ms ! i = SentimentModel True x \<longrightarrow> isFinite x)
                      \<longrightarrow> list_all isFinite (mp_predictions (mps ! i)))
                 \<and> (prices = [] \<longrightarrow> list_all (\<lambda>x. x = NaN) (mp_predictions (mps ! i))))
           \<and> (\<forall>d<nat days.
                 EnsembleModel_predict_day checked mps d days volatilityFactor = Inr (rs ! d))"
proof -
  from assms(1) have ne: "checked \<longrightarrow> prices \<noteq> []" by simp
  from EnsembleModel_modelPredictions_returns[OF ne assms(2), of ms g]
  obtain mps k where k: "k \<le> length ms * nat days"
    and run: "\<And>g2. (\<forall>j<k. g2 j = g j) \<Longrightarrow>
                EnsembleModel_modelPredictions checked ms g2 prices days
                  = Inr (mps, \<lambda>j. g2 (j + k))"
    and len: "length mps = length ms"
    and props: "\<forall>i<length ms.
                 mp_name (mps ! i) = model_name (ms ! i)
                 \<and> mp_confidence (mps ! i) = model_confidence (ms ! i)
                 \<and> length (mp_predictions (mps ! i)) = nat days
                 \<and> (list_all positive prices \<longrightarrow> prices \<noteq> []
                      \<longrightarrow> (\<forall>x. ms ! i = SentimentModel True x \<longrightarrow> isFinite x)
                      \<longrightarrow> list_all isFinite (mp_predictions (mps ! i)))
                 \<and> (prices = [] \<longrightarrow> list_all (\<lambda>x. x = NaN) (mp_predictions (mps ! i)))"
    by blast
  have cover: "\<forall>m\<in>set mps. length (mp_predictions m) = nat days"
    using props len by (auto simp: in_set_conv_nth)
  have weights: "\<forall>m\<in>set mps. \<exists>c>0. mp_confidence m = Fin c"
    using props len model_confidence_positive by (auto simp: in_set_conv_nth)
  from assms(1) len have mne: "checked \<longrightarrow> mps \<noteq> []" by auto
  have "\<exists>r. EnsembleModel_predict_day checked mps d days volatilityFactor = Inr r"
    if "d < nat days" for d
  proof -
    from that cover have "\<forall>m\<in>set mps. d < length (mp_predictions m)" by simp
    from EnsembleModel_predict_day_returns[OF this weights mne] show ?thesis by blast
  qed
  from collect_loop[of "nat days"
      "\<lambda>d. EnsembleModel_predict_day checked mps d days volatilityFactor", OF this]
  obtain rs where
    loop: "EnsembleModel_predict_loop checked mps days volatilityFactor = Inr rs"
    and rlen: "length rs = nat days"
    and days: "\<forall>d<nat days.
                 EnsembleModel_predict_day checked mps d days volatilityFactor = Inr (rs ! d)"
    unfolding EnsembleModel_predict_loop_def by blast
  have "EnsembleModel_predict checked ms g2 prices days volatilityFactor
          = Inr (rs, \<lambda>j. g2 (j + k))" if "\<forall>j<k. g2 j = g j" for g2
    using run[OF that] loop by (simp add: EnsembleModel_predict_def)
  with k run len rlen props days show ?thesis
    by (intro exI[of _ mps] exI[of _ rs] exI[of _ k]) blast
qed

section \<open>The checks change no result\<close>

text \<open>
  Whatever a function returns with the checks on, it returns with the checks off: the
  checks only stop runs.
\<close>

lemma agrees_refl: "agrees r r"
  by (simp add: agrees_def split: sum.splits)

lemma agrees_at_index: "agrees (at_index True xs i) (at_index False xs i)"
  by (simp add: agrees_def at_index_def)

lemma agrees_checked_div: "agrees (checked_div True a b) (checked_div False a b)"
  by (simp add: agrees_def checked_div_def)

lemma agrees_bindE:
  "agrees m1 m2 \<Longrightarrow> (\<And>x. agrees (f1 x) (f2 x)) \<Longrightarrow> agrees (bindE m1 f1) (bindE m2 f2)"
  by (cases m1) (simp_all add: agrees_def)

lemma agrees_for_each:
  "(\<And>x s. agrees (b1 x s) (b2 x s)) \<Longrightarrow> agrees (for_each xs b1 s) (for_each xs b2 s)"
proof (induction xs arbitrary: s)
  case Nil
  show ?case by (simp add: agrees_def)
next
  case (Cons x xs)
  from Cons.prems[of x s] Cons.IH[OF Cons.prems] show ?case
    by (cases "b1 x s") (simp_all add: agrees_def)
qed

lemma agrees_case_prod:
  "(\<And>a b. agrees (f a b) (g a b)) \<Longrightarrow> agrees (case p of (a, b) \<Rightarrow> f a b) (case p of (a, b) \<Rightarrow> g a b)"
  by (cases p) simp

lemma agrees_if:
  "agrees a1 a2 \<Longrightarrow> agrees b1 b2 \<Longrightarrow> agrees (if c then a1 else b1) (if c then a2 else b2)"
  by simp

lemma agrees_Let:
  "(\<And>x. agrees (f x) (g x)) \<Longrightarrow> agrees (Let v f) (Let v g)"
  by (simp add: Let_def)

lemmas agrees_rules =
  agrees_refl agrees_at_index agrees_checked_div agrees_bindE
  agrees_for_each agrees_case_prod agrees_if agrees_Let

lemma agrees_TransformerModel_calculateTrend_loop:
  "agrees (TransformerModel_calculateTrend_loop True rp) (TransformerModel_calculateTrend_loop False rp)"
  unfolding TransformerModel_calculateTrend_loop_def
  by (intro agrees_rules)

lemma agrees_TransformerModel_calculateTrend:
  "agrees (TransformerModel_calculateTrend True p) (TransformerModel_calculateTrend False p)"
  unfolding TransformerModel_calculateTrend_def
  by (intro agrees_rules agrees_TransformerModel_calculateTrend_loop)

lemma agrees_TransformerModel_calculateLongRangeTrend:
  "agrees (TransformerModel_calculateLongRangeTrend True p) (TransformerModel_calculateLongRangeTrend False p)"
  unfolding TransformerModel_calculateLongRangeTrend_def
  by (intro agrees_rules agrees_TransformerModel_calculateTrend)

lemma agrees_TransformerModel_calculateVolatility_returns:
  "agrees (TransformerModel_calculateVolatility_returns True p) (TransformerModel_calculateVolatility_returns False p)"
  unfolding TransformerModel_calculateVolatility_returns_def
  by (intro agrees_rules)

lemma agrees_TransformerModel_calculateVolatility_mean:
  "agrees (TransformerModel_calculateVolatility_mean True r w) (TransformerModel_calculateVolatility_mean False r w)"
  unfolding TransformerModel_calculateVolatility_mean_def
  by (intro agrees_rules)

lemma agrees_TransformerModel_calculateVolatility_variance:
  "agrees (TransformerModel_calculateVolatility_variance True r w m) (TransformerModel_calculateVolatility_variance False r w m)"
  unfolding TransformerModel_calculateVolatility_variance_def
  by (intro agrees_rules)

lemma agrees_TransformerModel_calculateVolatility:
  "agrees (TransformerModel_calculateVolatility True p) (TransformerModel_calculateVolatility False p)"
  unfolding TransformerModel_calculateVolatility_def
  by (intro agrees_rules agrees_TransformerModel_calculateVolatility_returns agrees_TransformerModel_calculateVolatility_mean agrees_TransformerModel_calculateVolatility_variance)

lemma agrees_TransformerModel_predict:
  "agrees (TransformerModel_predict True g p d) (TransformerModel_predict False g p d)"
  unfolding TransformerModel_predict_def
  by (intro agrees_rules agrees_TransformerModel_calculateTrend agrees_TransformerModel_calculateVolatility agrees_TransformerModel_calculateLongRangeTrend)


lemma agrees_RandomForestModel_calculateTrend:
  "agrees (RandomForestModel_calculateTrend True p) (RandomForestModel_calculateTrend False p)"
  unfolding RandomForestModel_calculateTrend_def
  by (intro agrees_rules)

lemma agrees_RandomForestModel_calculateVolatility_loop:
  "agrees (RandomForestModel_calculateVolatility_loop True p) (RandomForestModel_calculateVolatility_loop False p)"
  unfolding RandomForestModel_calculateVolatility_loop_def
  by (intro agrees_rules)

lemma agrees_RandomForestModel_calculateVolatility:
  "agrees (RandomForestModel_calculateVolatility True p) (RandomForestModel_calculateVolatility False p)"
  unfolding RandomForestModel_calculateVolatility_def
  by (intro agrees_rules agrees_RandomForestModel_calculateVolatility_loop)

lemma agrees_RandomForestModel_predict:
  "agrees (RandomForestModel_predict True g p d) (RandomForestModel_predict False g p d)"
  unfolding RandomForestModel_predict_def
  by (intro agrees_rules agrees_RandomForestModel_calculateVolatility agrees_RandomForestModel_calculateTrend)

lemma agrees_XGBoostModel_calculateTrend:
  "agrees (XGBoostModel_calculateTrend True p) (XGBoostModel_calculateTrend False p)"
  unfolding XGBoostModel_calculateTrend_def
  by (intro agrees_rules)

lemma agrees_XGBoostModel_calculateVolatility_loop:
  "agrees (XGBoostModel_calculateVolatility_loop True p) (XGBoostModel_calculateVolatility_loop False p)"
  unfolding XGBoostModel_calculateVolatility_loop_def
  by (intro agrees_rules)

lemma agrees_XGBoostModel_calculateVolatility:
  "agrees (XGBoostModel_calculateVolatility True p) (XGBoostModel_calculateVolatility False p)"
  unfolding XGBoostModel_calculateVolatility_def
  by (intro agrees_rules agrees_XGBoostModel_calculateVolatility_loop)

lemma agrees_XGBoostModel_predict:
  "agrees (XGBoostModel_predict True g p d) (XGBoostModel_predict False g p d)"
  unfolding XGBoostModel_predict_def
  by (intro agrees_rules agrees_XGBoostModel_calculateVolatility agrees_XGBoostModel_calculateTrend)

lemma agrees_SentimentModel_predict_loop:
  "agrees (SentimentModel_predict_loop True a f sc d l) (SentimentModel_predict_loop False a f sc d l)"
  unfolding SentimentModel_predict_loop_def
  by (intro agrees_rules)

lemma agrees_SentimentModel_predict:
  "agrees (SentimentModel_predict True a x g p d) (SentimentModel_predict False a x g p d)"
  unfolding SentimentModel_predict_def
  by (intro agrees_rules agrees_SentimentModel_predict_loop)

lemma agrees_BERTModel_calculateTrend:
  "agrees (BERTModel_calculateTrend True p) (BERTModel_calculateTrend False p)"
  unfolding BERTModel_calculateTrend_def
  by (intro agrees_rules)

lemma agrees_BERTModel_predict:
  "agrees (BERTModel_predict True g p d) (BERTModel_predict False g p d)"
  unfolding BERTModel_predict_def
  by (intro agrees_rules agrees_BERTModel_calculateTrend)

lemma agrees_model_predict:
  "agrees (model_predict True m g p d) (model_predict False m g p d)"
  by (cases m)
    (simp_all add: agrees_TransformerModel_predict agrees_RandomForestModel_predict
      agrees_XGBoostModel_predict agrees_SentimentModel_predict agrees_BERTModel_predict)

lemma agrees_EnsembleModel_calculateVariance:
  "agrees (EnsembleModel_calculateVariance True v) (EnsembleModel_calculateVariance False v)"
  unfolding EnsembleModel_calculateVariance_def
  by (intro agrees_rules)

lemma agrees_EnsembleModel_modelPredictions:
  "agrees (EnsembleModel_modelPredictions True ms g p d) (EnsembleModel_modelPredictions False ms g p d)"
  unfolding EnsembleModel_modelPredictions_def
  by (intro agrees_rules agrees_model_predict)

lemma agrees_EnsembleModel_weightedSum:
  "agrees (EnsembleModel_weightedSum True mps d) (EnsembleModel_weightedSum False mps d)"
  unfolding EnsembleModel_weightedSum_def
  by (intro agrees_rules)

lemma agrees_EnsembleModel_dayPredictions:
  "agrees (EnsembleModel_dayPredictions True mps d) (EnsembleModel_dayPredictions False mps d)"
  unfolding EnsembleModel_dayPredictions_def
  by (intro agrees_rules)

lemma agrees_EnsembleModel_predict_day:
  "agrees (EnsembleModel_predict_day True mps d n v) (EnsembleModel_predict_day False mps d n v)"
  unfolding EnsembleModel_predict_day_def
  by (intro agrees_rules agrees_EnsembleModel_weightedSum agrees_EnsembleModel_dayPredictions agrees_EnsembleModel_calculateVariance)

lemma agrees_EnsembleModel_predict_loop:
  "agrees (EnsembleModel_predict_loop True mps n v) (EnsembleModel_predict_loop False mps n v)"
  unfolding EnsembleModel_predict_loop_def
  by (intro agrees_rules agrees_EnsembleModel_predict_day)

lemma agrees_EnsembleModel_predict:
  "agrees (EnsembleModel_predict True ms g p d v) (EnsembleModel_predict False ms g p d v)"
  unfolding EnsembleModel_predict_def
  by (intro agrees_rules agrees_EnsembleModel_modelPredictions agrees_EnsembleModel_predict_loop)

lemma agrees_Inr: "agrees r1 r2 \<Longrightarrow> r1 = Inr v \<Longrightarrow> r2 = Inr v"
  by (simp add: agrees_def)

section \<open>Weight contributions\<close>

text \<open>
  Claim C5. \<open>getModelContributions\<close> divides each fixed confidence weight (0.45, 0.25,
  0.20, 0.10, 0.10) by their sum, which is 1.10, and scales to a percentage: each
  reported percentage is \<open>weight / 1.10 * 100\<close>, and the percentages add up to 100
  (exactly, in exact arithmetic). The function reads the list of models only: it has no
  generator, price series or forecast among its arguments, and the mode and impact of
  the sentiment model do not change its result.
\<close>

theorem getModelContributions_normalized:
  "foldl (\<lambda>sum model. sum + model_confidence model) (Fin 0) EnsembleModel_models = Fin 1.10
   \<and> EnsembleModel_getModelContributions EnsembleModel_models =
       [(''Transformer'', Fin (0.45 / 1.10 * 100)),
        (''Random Forest'', Fin (0.25 / 1.10 * 100)),
        (''XGBoost'', Fin (0.20 / 1.10 * 100)),
        (''VADER Sentiment'', Fin (0.10 / 1.10 * 100)),
        (''BERT NLP'', Fin (0.10 / 1.10 * 100))]
   \<and> foldl (\<lambda>sum c. sum + snd c) (Fin 0)
         (EnsembleModel_getModelContributions EnsembleModel_models) = Fin 100
   \<and> EnsembleModel_getModelContributions
         [TransformerModel, RandomForestModel, XGBoostModel,
          SentimentModel useSentimentAPI sentimentImpact, BERTModel] =
       EnsembleModel_getModelContributions EnsembleModel_models"
  by (simp add: EnsembleModel_getModelContributions_def EnsembleModel_models_def)

section \<open>Fallbacks of the estimators on short series\<close>

lemmas estimator_defs =
  TransformerModel_calculateTrend_def TransformerModel_calculateTrend_loop_def
  TransformerModel_calculateLongRangeTrend_def
  TransformerModel_calculateVolatility_def TransformerModel_calculateVolatility_returns_def
  TransformerModel_calculateVolatility_mean_def TransformerModel_calculateVolatility_variance_def
  RandomForestModel_calculateTrend_def RandomForestModel_calculateVolatility_def
  RandomForestModel_calculateVolatility_loop_def
  XGBoostModel_calculateTrend_def XGBoostModel_calculateVolatility_def
  XGBoostModel_calculateVolatility_loop_def
  BERTModel_calculateTrend_def
  slice_last_def at_index_def checked_div_def Let_def

text \<open>
  Claim C7, in the form that holds of the code. Every estimator returns its fallback
  on a series shorter than its minimum length, and raises no error there. The minimum
  length is 2 for the weighted trend of the Transformer model, whose window is 14
  prices, and for the three volatility estimators, 5 for the trend of the BERT model
  and 10 for the trend of the XGBoost model; the fallbacks are the defaults, 0 for a
  trend and 0.02 for a volatility. The minimum length of the long-range trend of the
  Transformer model is 30, and its fallback is the weighted trend of the same series,
  which is itself 0 below 2 prices. These lengths are exact: on the series
  \<open>1, ..., 1, 2\<close> of exactly the minimum length the weighted trend is 1, the three
  volatilities are 0, the BERT trend is 1/5, the XGBoost trend 1/10 and the long-range
  trend 1/30. The trend of the Random Forest model is 0 with fewer than 10 prices;
  what it returns on 10 to 13 prices, fewer than its window of 14, is not part of the
  statement.
\<close>

theorem estimator_fallbacks:
  "(length prices < 2 \<longrightarrow>
      TransformerModel_calculateTrend checked prices = Inr (Fin 0)
      \<and> TransformerModel_calculateLongRangeTrend checked prices = Inr (Fin 0)
      \<and> TransformerModel_calculateVolatility checked prices = Inr (Fin 0.02)
      \<and> RandomForestModel_calculateVolatility checked prices = Inr (Fin 0.02)
      \<and> XGBoostModel_calculateVolatility checked prices = Inr (Fin 0.02))
   \<and> (length prices < 5 \<longrightarrow> BERTModel_calculateTrend checked prices = Inr (Fin 0))
   \<and> (length prices < 10 \<longrightarrow>
        RandomForestModel_calculateTrend checked prices = Inr (Fin 0)
        \<and> XGBoostModel_calculateTrend checked prices = Inr (Fin 0))
   \<and> (length prices < 30 \<longrightarrow>
        TransformerModel_calculateLongRangeTrend checked prices =
        TransformerModel_calculateTrend checked prices
        \<and> (\<exists>t. TransformerModel_calculateTrend checked prices = Inr t))
   \<and> TransformerModel_calculateTrend checked [Fin 1, Fin 2] = Inr (Fin 1)
   \<and> TransformerModel_calculateVolatility checked [Fin 1, Fin 2] = Inr (Fin 0)
   \<and> RandomForestModel_calculateVolatility checked [Fin 1, Fin 2] = Inr (Fin 0)
   \<and> XGBoostModel_calculateVolatility checked [Fin 1, Fin 2] = Inr (Fin 0)
   \<and> BERTModel_calculateTrend checked (replicate 4 (Fin 1) @ [Fin 2]) = Inr (Fin (1 / 5))
   \<and> XGBoostModel_calculateTrend checked (replicate 9 (Fin 1) @ [Fin 2]) = Inr (Fin (1 / 10))
   \<and> TransformerModel_calculateLongRangeTrend checked (replicate 29 (Fin 1) @ [Fin 2])
       = Inr (Fin (1 / 30))"
proof -
  have below:
    "(length prices < 2 \<longrightarrow>
      TransformerModel_calculateTrend checked prices = Inr (Fin 0)
      \<and> TransformerModel_calculateLongRangeTrend checked prices = Inr (Fin 0)
      \<and> TransformerModel_calculateVolatility checked prices = Inr (Fin 0.02)
      \<and> RandomForestModel_calculateVolatility checked prices = Inr (Fin 0.02)
      \<and> XGBoostModel_calculateVolatility checked prices = Inr (Fin 0.02))
   \<and> (length prices < 5 \<longrightarrow> BERTModel_calculateTrend checked prices = Inr (Fin 0))
   \<and> (length prices < 10 \<longrightarrow>
        RandomForestModel_calculateTrend checked prices = Inr (Fin 0)
        \<and> XGBoostModel_calculateTrend checked prices = Inr (Fin 0))
   \<and> (length prices < 30 \<longrightarrow>
        TransformerModel_calculateLongRangeTrend checked prices =
        TransformerModel_calculateTrend checked prices
        \<and> (\<exists>t. TransformerModel_calculateTrend checked prices = Inr t))"
    using TransformerModel_calculateTrend_returns [of checked prices]
    by (auto simp add: TransformerModel_calculateTrend_def TransformerModel_calculateVolatility_def
        RandomForestModel_calculateVolatility_def XGBoostModel_calculateVolatility_def
        BERTModel_calculateTrend_def RandomForestModel_calculateTrend_def
        XGBoostModel_calculateTrend_def TransformerModel_calculateLongRangeTrend_def)
  have t: "TransformerModel_calculateTrend checked [Fin 1, Fin 2] = Inr (Fin 1)"
    by (simp add: estimator_defs upt_rec)
  have tv: "TransformerModel_calculateVolatility checked [Fin 1, Fin 2] = Inr (Fin 0)"
    by (simp add: estimator_defs upt_rec)
  have rv: "RandomForestModel_calculateVolatility checked [Fin 1, Fin 2] = Inr (Fin 0)"
    by (simp add: estimator_defs upt_rec)
  have xv: "XGBoostModel_calculateVolatility checked [Fin 1, Fin 2] = Inr (Fin 0)"
    by (simp add: estimator_defs upt_rec)
  have b: "BERTModel_calculateTrend checked (replicate 4 (Fin 1) @ [Fin 2]) = Inr (Fin (1 / 5))"
    by (simp add: estimator_defs nth_append)
  have x: "XGBoostModel_calculateTrend checked (replicate 9 (Fin 1) @ [Fin 2]) = Inr (Fin (1 / 10))"
    by (simp add: estimator_defs nth_append)
  have l: "TransformerModel_calculateLongRangeTrend checked (replicate 29 (Fin 1) @ [Fin 2])
       = Inr (Fin (1 / 30))"
    by (simp add: estimator_defs nth_append)
  from below t tv rv xv b x l show ?thesis by blast
qed

text \<open>The guards at work on a series of one price.\<close>

theorem estimator_fallbacks_witness:
  "length [Fin 100] < 2
   \<and> TransformerModel_calculateTrend False [Fin 100] = Inr (Fin 0)
   \<and> TransformerModel_calculateLongRangeTrend False [Fin 100] = Inr (Fin 0)
   \<and> TransformerModel_calculateVolatility False [Fin 100] = Inr (Fin 0.02)
   \<and> RandomForestModel_calculateVolatility False [Fin 100] = Inr (Fin 0.02)
   \<and> XGBoostModel_calculateVolatility False [Fin 100] = Inr (Fin 0.02)
   \<and> BERTModel_calculateTrend False [Fin 100] = Inr (Fin 0)
   \<and> RandomForestModel_calculateTrend False [Fin 100] = Inr (Fin 0)
   \<and> XGBoostModel_calculateTrend False [Fin 100] = Inr (Fin 0)"
  using estimator_fallbacks [of "[Fin 100]" False] by simp

text \<open>
  As the specification words it, the claim fails on the series \<open>[1, 2]\<close>. It is shorter
  than the 30 prices of the long-range trend and than the window of 14 prices of the
  weighted trend, and both trends are 1 on it, not 0.
\<close>

theorem estimator_fallbacks_counterexample:
  "length [Fin 1, Fin 2] < 30
   \<and> TransformerModel_calculateLongRangeTrend False [Fin 1, Fin 2] = Inr (Fin 1)
   \<and> length [Fin 1, Fin 2] < 14
   \<and> slice_last 14 [Fin 1, Fin 2] = [Fin 1, Fin 2]
   \<and> TransformerModel_calculateTrend False [Fin 1, Fin 2] = Inr (Fin 1)
   \<and> Fin 1 \<noteq> Fin 0"
  by (simp add: estimator_defs upt_rec)

section \<open>The sentiment model with an impact supplied by the caller\<close>



section \<open>What the ensemble returns, day by day\<close>

lemma plus_NaN: "x + NaN = NaN"
  by (cases x) simp_all

lemma times_NaN: "x * NaN = NaN"
  by (cases x) simp_all

lemma minus_NaN: "x - NaN = NaN"
  by (cases x) simp_all

lemma divide_NaN: "x / NaN = NaN"
  by (cases x) simp_all

lemma foldl_plus_NaN:
  assumes "xs \<noteq> []" and "\<forall>x\<in>set xs. f x = NaN"
  shows "foldl (\<lambda>s x. s + f x) a xs = NaN"
  using assms
proof (induction xs arbitrary: a)
  case Nil
  then show ?case by simp
next
  case (Cons x xs)
  then show ?case by (cases "xs = []") (simp_all add: plus_NaN)
qed

lemma EnsembleModel_predict_day_NaN:
  assumes "mps \<noteq> []"
    and "\<forall>m\<in>set mps. day < length (mp_predictions m)"
    and "\<forall>m\<in>set mps. mp_predictions m ! day = NaN"
  shows "EnsembleModel_predict_day False mps day days volatilityFactor
         = Inr \<lparr>predicted = NaN, upperBound = NaN, lowerBound = NaN, confidence = NaN\<rparr>"
proof -
  have ws: "foldl (\<lambda>s m. s + mp_predictions m ! day * mp_confidence m) (Fin 0) mps = NaN"
    by (rule foldl_plus_NaN) (use assms in simp_all)
  have s: "foldl (\<lambda>sum val. sum + val) (Fin 0) (map (\<lambda>m. mp_predictions m ! day) mps) = NaN"
    unfolding foldl_map by (rule foldl_plus_NaN) (use assms in simp_all)
  have v: "foldl (\<lambda>sum val. sum + Math_pow (val - NaN) 2) (Fin 0)
             (map (\<lambda>m. mp_predictions m ! day) mps) = NaN"
    unfolding foldl_map by (rule foldl_plus_NaN) (use assms in simp_all)
  show ?thesis
    by (simp add: EnsembleModel_predict_day_def EnsembleModel_weightedSum_eq[OF assms(2)]
        EnsembleModel_dayPredictions_eq[OF assms(2)] EnsembleModel_calculateVariance_def
        ws s v Let_def plus_NaN times_NaN minus_NaN divide_NaN)
qed

lemma negative_days_models:
  assumes "days < 0"
  shows "TransformerModel_predict False g historicalPrices days = Inr ([], g)"
    and "RandomForestModel_predict False g historicalPrices days = Inr ([], g)"
    and "XGBoostModel_predict False g historicalPrices days = Inr ([], g)"
    and "BERTModel_predict False g historicalPrices days = Inr ([], g)"
    and "SentimentModel_predict False useSentimentAPI sentimentImpact g historicalPrices days
           = Inl RangeError"
proof -
  have u: "False \<longrightarrow> historicalPrices \<noteq> []" by simp
  from assms have n: "nat days = 0" by simp
  from TransformerModel_predict_returns[OF u, of days g] n
  show "TransformerModel_predict False g historicalPrices days = Inr ([], g)" by auto
  from RandomForestModel_predict_returns[OF u, of days g] n
  show "RandomForestModel_predict False g historicalPrices days = Inr ([], g)" by auto
  from XGBoostModel_predict_returns[OF u, of days g] n
  show "XGBoostModel_predict False g historicalPrices days = Inr ([], g)" by auto
  from BERTModel_predict_returns[OF u, of days g] n
  show "BERTModel_predict False g historicalPrices days = Inr ([], g)" by auto
  from assms
  show "SentimentModel_predict False useSentimentAPI sentimentImpact g historicalPrices days
           = Inl RangeError"
    by (simp add: SentimentModel_predict_def SentimentModel_sentimentScores_def Array_fill_0_def
        at_index_def Let_def)
qed



lemma weighted_mean_bounds:
  fixes x w :: "'a \<Rightarrow> real"
  assumes "xs \<noteq> []" and "\<forall>m\<in>set xs. 0 < w m"
  shows "Min (x ` set xs) \<le> sum_list (map (\<lambda>m. x m * w m) xs) / sum_list (map w xs)"
    and "sum_list (map (\<lambda>m. x m * w m) xs) / sum_list (map w xs) \<le> Max (x ` set xs)"
proof -
  from assms obtain m ms where xs: "xs = m # ms" by (cases xs) auto
  have "0 \<le> sum_list (map w ms)"
    using assms(2) xs by (intro sum_list_nonneg) (auto simp: less_imp_le)
  moreover have "0 < w m" using assms(2) xs by simp
  ultimately have W: "0 < sum_list (map w xs)" using xs by simp
  have "sum_list (map (\<lambda>m. Min (x ` set xs) * w m) xs) \<le> sum_list (map (\<lambda>m. x m * w m) xs)"
    using assms by (intro sum_list_mono mult_right_mono) (auto simp: less_imp_le)
  then have "Min (x ` set xs) * sum_list (map w xs) \<le> sum_list (map (\<lambda>m. x m * w m) xs)"
    by (simp add: sum_list_const_mult)
  with W show "Min (x ` set xs) \<le> sum_list (map (\<lambda>m. x m * w m) xs) / sum_list (map w xs)"
    by (simp add: pos_le_divide_eq)
  have "sum_list (map (\<lambda>m. x m * w m) xs) \<le> sum_list (map (\<lambda>m. Max (x ` set xs) * w m) xs)"
    using assms by (intro sum_list_mono mult_right_mono) (auto simp: less_imp_le)
  then have "sum_list (map (\<lambda>m. x m * w m) xs) \<le> Max (x ` set xs) * sum_list (map w xs)"
    by (simp add: sum_list_const_mult)
  with W show "sum_list (map (\<lambda>m. x m * w m) xs) / sum_list (map w xs) \<le> Max (x ` set xs)"
    by (simp add: pos_divide_le_eq)
qed


lemma EnsembleModel_predict_fields:
  assumes "d < nat days"
  shows "\<exists>mps results g' variance.
           EnsembleModel_modelPredictions False models g historicalPrices days = Inr (mps, g')
           \<and> EnsembleModel_predict False models g historicalPrices days volatilityFactor
                = Inr (results, g')
           \<and> EnsembleModel_calculateVariance False (map (\<lambda>m. mp_predictions m ! d) mps)
                = Inr variance
           \<and> upperBound (results ! d) =
                predicted (results ! d)
                + Math_sqrt variance * Fin 1.96 * dayFactor d days * volatilityFactor
           \<and> lowerBound (results ! d) =
                predicted (results ! d)
                - Math_sqrt variance * Fin 1.96 * dayFactor d days * volatilityFactor
           \<and> confidence (results ! d) = Fin 1 - Math_sqrt variance / predicted (results ! d)"
proof -
  have "False \<longrightarrow> historicalPrices \<noteq> [] \<and> models \<noteq> []" by simp
  moreover from assms have "0 \<le> days" by simp
  ultimately obtain mps rs k where
    run: "EnsembleModel_modelPredictions False models g historicalPrices days
            = Inr (mps, \<lambda>j. g (j + k))"
         "EnsembleModel_predict False models g historicalPrices days volatilityFactor
            = Inr (rs, \<lambda>j. g (j + k))"
    and len: "length mps = length models"
    and props: "\<forall>i<length models.
                 mp_confidence (mps ! i) = model_confidence (models ! i)
                 \<and> length (mp_predictions (mps ! i)) = nat days"
    and day: "\<forall>d<nat days.
                 EnsembleModel_predict_day False mps d days volatilityFactor = Inr (rs ! d)"
    using EnsembleModel_predict_structure[of False historicalPrices models days g volatilityFactor]
    by blast
  have cover: "\<forall>m\<in>set mps. d < length (mp_predictions m)"
    using props len assms by (auto simp: in_set_conv_nth)
  have weights: "\<forall>m\<in>set mps. \<exists>c>0. mp_confidence m = Fin c"
    using props len model_confidence_positive by (auto simp: in_set_conv_nth)
  from EnsembleModel_predict_day_returns[OF cover weights, of False days volatilityFactor]
  obtain variance where
    v: "EnsembleModel_calculateVariance False (map (\<lambda>m. mp_predictions m ! d) mps) = Inr variance"
    and r: "EnsembleModel_predict_day False mps d days volatilityFactor =
               Inr (let predictedPrice =
                          foldl (\<lambda>s m. s + mp_predictions m ! d * mp_confidence m) (Fin 0) mps
                          / foldl (\<lambda>s m. s + mp_confidence m) (Fin 0) mps;
                        stdDev = Math_sqrt variance;
                        confidenceInterval =
                          stdDev * Fin 1.96 * dayFactor d days * volatilityFactor
                    in \<lparr>predicted = predictedPrice,
                         upperBound = predictedPrice + confidenceInterval,
                         lowerBound = predictedPrice - confidenceInterval,
                         confidence = Fin 1 - stdDev / predictedPrice\<rparr>)"
    by auto
  from r day assms have
    "rs ! d = (let predictedPrice =
                          foldl (\<lambda>s m. s + mp_predictions m ! d * mp_confidence m) (Fin 0) mps
                          / foldl (\<lambda>s m. s + mp_confidence m) (Fin 0) mps;
                        stdDev = Math_sqrt variance;
                        confidenceInterval =
                          stdDev * Fin 1.96 * dayFactor d days * volatilityFactor
                    in \<lparr>predicted = predictedPrice,
                         upperBound = predictedPrice + confidenceInterval,
                         lowerBound = predictedPrice - confidenceInterval,
                         confidence = Fin 1 - stdDev / predictedPrice\<rparr>)"
    by simp
  then have "upperBound (rs ! d) =
                predicted (rs ! d)
                + Math_sqrt variance * Fin 1.96 * dayFactor d days * volatilityFactor"
    "lowerBound (rs ! d) =
                predicted (rs ! d)
                - Math_sqrt variance * Fin 1.96 * dayFactor d days * volatilityFactor"
    "confidence (rs ! d) = Fin 1 - Math_sqrt variance / predicted (rs ! d)"
    by (simp_all add: Let_def)
  with run v show ?thesis by blast
qed

lemmas engine_defs =
  EnsembleModel_predict_def EnsembleModel_modelPredictions_def EnsembleModel_predict_loop_def
  EnsembleModel_predict_day_def EnsembleModel_weightedSum_def EnsembleModel_dayPredictions_def
  EnsembleModel_calculateVariance_def dayFactor_def
  TransformerModel_predict_def TransformerModel_predict_loop_def
  TransformerModel_calculateTrend_def TransformerModel_calculateVolatility_def
  TransformerModel_calculateLongRangeTrend_def
  RandomForestModel_predict_def RandomForestModel_predict_loop_def
  RandomForestModel_calculateTrend_def RandomForestModel_calculateVolatility_def
  XGBoostModel_predict_def XGBoostModel_predict_loop_def
  XGBoostModel_calculateTrend_def XGBoostModel_calculateVolatility_def
  SentimentModel_predict_def SentimentModel_predict_loop_def SentimentModel_sentimentScores_def
  BERTModel_predict_def BERTModel_predict_loop_def BERTModel_calculateTrend_def
  Array_fill_0_def Math_random_def at_index_def checked_div_def Let_def

lemma upt_0_1: "[0..<nat 1] = [0]"
  by simp

section \<open>The combined price and the component prices\<close>

subsection \<open>The rounding\<close>

text \<open>
  \<open>ilog2\<close> finds the exponent, \<open>round_ties_even\<close> is within a half of its argument,
  and the rounding of a number between \<open>2\<^sup>-\<^sup>1\<^sup>0\<^sup>2\<^sup>2\<close> and \<open>2\<^sup>1\<^sup>0\<^sup>2\<^sup>3\<close> is finite and within the
  relative error \<open>unit_roundoff\<close> of it.
\<close>

lemma powi2_less_D: "(2::real) powi a < 2 powi b \<Longrightarrow> a < b"
  using power_int_increasing[of b a "2::real"] by (cases "a < b") auto

lemma ilog2_up_bounds:
  "1 \<le> x \<Longrightarrow> 0 \<le> ilog2_up x \<and> 2 powi ilog2_up x \<le> x \<and> x < 2 powi (ilog2_up x + 1)"
proof (induction x rule: ilog2_up.induct)
  case (1 x)
  show ?case
  proof (cases "x < 2")
    case True
    with "1.prems" show ?thesis by (simp add: ilog2_up.simps[of x])
  next
    case False
    then have h: "1 \<le> x / 2" by simp
    from False have e: "ilog2_up x = ilog2_up (x / 2) + 1" by (simp add: ilog2_up.simps[of x])
    from "1.IH"[OF False h] show ?thesis by (simp add: e power_int_add)
  qed
qed

lemma ilog2_down_bounds:
  "0 < x \<Longrightarrow> x < 1 \<Longrightarrow>
   ilog2_down x < 0 \<and> 2 powi ilog2_down x \<le> x \<and> x < 2 powi (ilog2_down x + 1)"
proof (induction x rule: ilog2_down.induct)
  case (1 x)
  from "1.prems" have g: "\<not> (x \<le> 0 \<or> 1 \<le> x)" by simp
  then have e: "ilog2_down x = ilog2_down (2 * x) - 1" by (simp add: ilog2_down.simps[of x])
  show ?case
  proof (cases "2 * x < 1")
    case True
    with "1.IH"[OF g] "1.prems" show ?thesis by (simp add: e power_int_diff power_int_add)
  next
    case False
    then have "ilog2_down (2 * x) = 0" by (simp add: ilog2_down.simps[of "2 * x"])
    with False "1.prems" show ?thesis by (simp add: e power_int_minus)
  qed
qed

lemma ilog2_bounds:
  assumes "0 < x"
  shows "2 powi ilog2 x \<le> x" and "x < 2 powi (ilog2 x + 1)"
  using assms ilog2_up_bounds[of x] ilog2_down_bounds[of x] by (auto simp: ilog2_def not_le)

lemma ilog2_unique:
  assumes "2 powi e \<le> x" and "x < 2 powi (e + 1)"
  shows "ilog2 x = e"
proof -
  have pos: "0 < x" using assms(1) by (rule less_le_trans[rotated]) simp
  note b = ilog2_bounds[OF pos]
  have "2 powi e < (2::real) powi (ilog2 x + 1)" using assms(1) b(2) by linarith
  then have "e < ilog2 x + 1" by (rule powi2_less_D)
  moreover have "2 powi ilog2 x < (2::real) powi (e + 1)" using assms(2) b(1) by linarith
  then have "ilog2 x < e + 1" by (rule powi2_less_D)
  ultimately show ?thesis by simp
qed

lemma round_ties_even_near:
  "\<bar>of_int (round_ties_even z) - z\<bar> \<le> 1 / 2"
  unfolding round_ties_even_def Let_def by (auto simp: abs_le_iff)

lemma binary64_relative_error:
  assumes "2 powi (- 1022) \<le> x" and "x < 2 powi 1023"
  shows "\<exists>y. binary64 (Fin x) = Fin y
           \<and> x * (1 - unit_roundoff) \<le> y \<and> y \<le> x * (1 + unit_roundoff)"
proof -
  have pos: "0 < x" using assms(1) by (rule less_le_trans[rotated]) simp
  define e where "e = ilog2 x"
  note b = ilog2_bounds[OF pos, folded e_def]
  have "2 powi (- 1022) < (2::real) powi (e + 1)" using assms(1) b(2) by linarith
  then have "- 1022 < e + 1" by (rule powi2_less_D)
  then have lo: "- 1022 \<le> e" by simp
  have "2 powi e < (2::real) powi 1023" using assms(2) b(1) by linarith
  then have hi: "e < 1023" by (rule powi2_less_D)
  define q where "q = e - 52"
  define n where "n = round_ties_even (x / 2 powi q)"
  define y :: real where "y = of_int n * 2 powi q"
  have qpos: "0 < (2::real) powi q" by simp
  have "\<bar>of_int n - x / 2 powi q\<bar> \<le> 1 / 2" unfolding n_def by (rule round_ties_even_near)
  then have "\<bar>of_int n - x / 2 powi q\<bar> * 2 powi q \<le> 1 / 2 * 2 powi q"
    by (rule mult_right_mono) simp
  moreover have "y - x = (of_int n - x / 2 powi q) * 2 powi q"
    by (simp add: y_def left_diff_distrib)
  then have "\<bar>y - x\<bar> = \<bar>of_int n - x / 2 powi q\<bar> * 2 powi q"
    by (simp add: abs_mult)
  ultimately have d: "\<bar>y - x\<bar> \<le> 2 powi q / 2" by simp
  define u :: real where "u = 2 powi (- 53)"
  have u: "0 \<le> u" "u \<le> 1" by (simp_all add: u_def power_int_minus)
  have "2 powi q / 2 = 2 powi e * u"
    by (simp add: q_def u_def power_int_diff power_int_minus)
  also have "\<dots> \<le> x * u" using b(1) u(1) by (rule mult_right_mono)
  finally have "\<bar>y - x\<bar> \<le> x * u" using d by linarith
  then have "x - x * u \<le> y" "y \<le> x + x * u" by linarith+
  then have bounds: "x * (1 - u) \<le> y" "y \<le> x * (1 + u)"
    by (simp_all add: algebra_simps)
  have "x * (1 + u) \<le> x * 2" using pos u by (intro mult_left_mono) simp_all
  with bounds(2) have "y \<le> x * 2" by linarith
  also have "\<dots> < 2 powi 1023 * 2" using assms(2) by simp
  finally have ylt: "y < 2 ^ 1024" by simp
  have "0 \<le> x * (1 - u)" using pos u by (intro mult_nonneg_nonneg) simp_all
  with bounds(1) have "0 \<le> y" by linarith
  with ylt have "\<not> 2 ^ 1024 \<le> \<bar>y\<bar>" by simp
  moreover have "max (ilog2 \<bar>x\<bar>) (- 1022) - 52 = q" using pos lo by (simp add: q_def e_def)
  ultimately have "binary64 (Fin x) = Fin y"
    using pos by (simp add: binary64_def Let_def y_def n_def)
  with bounds show ?thesis unfolding u_def unit_roundoff_def by blast
qed


lemmas binary64_eval =
  binary64_def ilog2_def ilog2_up.simps ilog2_down.simps round_ties_even_def Let_def

lemmas loop_defs = TransformerModel_calculateTrend_loop_def
  TransformerModel_calculateVolatility_returns_def
  TransformerModel_calculateVolatility_mean_def TransformerModel_calculateVolatility_variance_def
  RandomForestModel_calculateVolatility_loop_def XGBoostModel_calculateVolatility_loop_def
  slice_last_def

text \<open>
  The rounding at work: the double nearest to 0.1, two ties (to the even mantissa, down
  and up), a negative number, and the quotient of 110 and the double 1.0999999999999999.
\<close>

lemma binary64_examples:
  "binary64 (Fin 0.1) = Fin (3602879701896397 / 2 ^ 55)"
  "binary64 (Fin (2 ^ 53 + 1)) = Fin (2 ^ 53)"
  "binary64 (Fin (2 ^ 53 + 3)) = Fin (2 ^ 53 + 4)"
  "binary64 (Fin (- (1 / 3))) = Fin (- (6004799503160661 / 2 ^ 54))"
  "binary64 (Fin 110 / Fin (4953959590107545 / 2 ^ 52)) = Fin (100 + 1 / 2 ^ 46)"
  by (simp_all add: binary64_eval)

lemma unit_roundoff_range: "0 \<le> unit_roundoff" "unit_roundoff \<le> 1 / 4"
  by (simp_all add: unit_roundoff_def power_int_minus)

lemma unit_roundoff_tolerance:
  "(1 + unit_roundoff) ^ 7 \<le> (1 + 2 powi (- 49)) * (1 - unit_roundoff) ^ 5"
  "(1 - 2 powi (- 49)) * (1 + unit_roundoff) ^ 5 \<le> (1 - unit_roundoff) ^ 7"
  by (simp_all add: unit_roundoff_def power_int_minus field_simps)

lemma weightedSum_binary64_fold:
  assumes "\<forall>m\<in>set mps. day < length (mp_predictions m)"
  shows "for_each mps
           (\<lambda>model (weightedSum, totalWeight).
              bindE (at_index False (mp_predictions model) (int day)) (\<lambda>p.
                Inr (binary64 (weightedSum + binary64 (p * binary64 (mp_confidence model))),
                     binary64 (totalWeight + binary64 (mp_confidence model)))))
           (a, b)
         = Inr (foldl (\<lambda>s m. binary64
                          (s + binary64 (mp_predictions m ! day * binary64 (mp_confidence m))))
                  a mps,
                foldl (\<lambda>s m. binary64 (s + binary64 (mp_confidence m))) b mps)"
  using assms by (induction mps arbitrary: a b) (simp_all add: at_index_nat)

lemma rounded_step_bounds:
  fixes S a t y u :: real
  assumes u: "0 \<le> u" "u \<le> 1" and t: "0 \<le> t"
    and a: "S * (1 - u) ^ n \<le> a" "a \<le> S * (1 + u) ^ n"
    and y: "(a + t) * (1 - u) \<le> y" "y \<le> (a + t) * (1 + u)"
  shows "(S + t) * (1 - u) ^ Suc n \<le> y" and "y \<le> (S + t) * (1 + u) ^ Suc n"
proof -
  have "(1 - u) ^ n \<le> 1" using u by (intro power_le_one) simp_all
  then have "t * (1 - u) ^ n \<le> t * 1" using t by (rule mult_left_mono)
  with a(1) have "(S + t) * (1 - u) ^ n \<le> a + t" by (simp add: algebra_simps)
  then have l: "(S + t) * (1 - u) ^ n * (1 - u) \<le> (a + t) * (1 - u)"
    using u by (intro mult_right_mono) simp_all
  have "(S + t) * (1 - u) ^ Suc n = (S + t) * (1 - u) ^ n * (1 - u)" by simp
  also note l
  also note y(1)
  finally show "(S + t) * (1 - u) ^ Suc n \<le> y" .
  have "1 \<le> (1 + u) ^ n" using u by (intro one_le_power) simp
  then have "t * 1 \<le> t * (1 + u) ^ n" using t by (rule mult_left_mono)
  with a(2) have "a + t \<le> (S + t) * (1 + u) ^ n" by (simp add: algebra_simps)
  then have r: "(a + t) * (1 + u) \<le> (S + t) * (1 + u) ^ n * (1 + u)"
    using u by (intro mult_right_mono) simp_all
  note y(2)
  also note r
  also have "(S + t) * (1 + u) ^ n * (1 + u) = (S + t) * (1 + u) ^ Suc n" by simp
  finally show "y \<le> (S + t) * (1 + u) ^ Suc n" .
qed

lemma binary64_sum_bounds:
  fixes t :: "'a \<Rightarrow> real"
  assumes "\<forall>m\<in>set ms. f m = Fin (t m) \<and> 2 powi (- 600) \<le> t m \<and> t m \<le> 2 powi 600"
    and "length ms \<le> 100"
  shows "\<exists>a. foldl (\<lambda>s m. binary64 (s + f m)) (Fin 0) ms = Fin a
           \<and> sum_list (map t ms) * (1 - unit_roundoff) ^ length ms \<le> a
           \<and> a \<le> sum_list (map t ms) * (1 + unit_roundoff) ^ length ms
           \<and> a \<le> 2 powi (601 + int (length ms))"
  using assms
proof (induction ms rule: rev_induct)
  case Nil
  show ?case by simp
next
  case (snoc m ms)
  define u where "u = unit_roundoff"
  have u: "0 \<le> u" "u \<le> 1" "u \<le> 1 / 4" using unit_roundoff_range by (simp_all add: u_def)
  define n where "n = length ms"
  define S where "S = sum_list (map t ms)"
  from snoc.prems have n: "n \<le> 100" by (simp add: n_def)
  from snoc.IH snoc.prems obtain a where
    a: "foldl (\<lambda>s m. binary64 (s + f m)) (Fin 0) ms = Fin a"
       "S * (1 - u) ^ n \<le> a" "a \<le> S * (1 + u) ^ n" "a \<le> 2 powi (601 + int n)"
    unfolding u_def n_def S_def by auto
  from snoc.prems have m: "f m = Fin (t m)" "2 powi (- 600) \<le> t m" "t m \<le> 2 powi 600" by auto
  have tpos: "0 < t m" using m(2) by (rule less_le_trans[rotated]) simp
  have "0 \<le> S" unfolding S_def
  proof (rule sum_list_nonneg)
    fix x assume "x \<in> set (map t ms)"
    then obtain k where "k \<in> set ms" "x = t k" by auto
    with snoc.prems(1) have "2 powi (- 600) \<le> x" by auto
    then show "0 \<le> x" by (rule order_trans[rotated]) simp
  qed
  moreover have "0 \<le> (1 - u) ^ n" using u by simp
  ultimately have "0 \<le> S * (1 - u) ^ n" by (rule mult_nonneg_nonneg)
  with a(2) have apos: "0 \<le> a" by linarith
  have big: "(2::real) powi 600 * 2 \<le> 2 powi (601 + int n)"
  proof -
    have "(2::real) powi 601 \<le> 2 powi (601 + int n)" by (rule power_int_increasing) simp_all
    then show ?thesis by simp
  qed
  have "(2::real) powi (- 1022) \<le> 2 powi (- 600)" by (rule power_int_increasing) simp_all
  with m(2) apos have lo: "2 powi (- 1022) \<le> a + t m" by linarith
  have "a + t m \<le> 2 powi (601 + int n) * (3 / 2)" using a(4) m(3) big by linarith
  also have "\<dots> < 2 powi (601 + int n) * 2" by simp
  also have "\<dots> = 2 powi (602 + int n)" by (simp add: power_int_add)
  also have "\<dots> \<le> 2 powi 1023" using n by (intro power_int_increasing) simp_all
  finally have hi: "a + t m < 2 powi 1023" .
  from binary64_relative_error[OF lo hi] obtain y where
    y: "binary64 (Fin (a + t m)) = Fin y" "(a + t m) * (1 - u) \<le> y" "y \<le> (a + t m) * (1 + u)"
    unfolding u_def by blast
  from rounded_step_bounds[OF u(1,2) less_imp_le[OF tpos] a(2,3) y(2,3)]
  have b: "(S + t m) * (1 - u) ^ Suc n \<le> y" "y \<le> (S + t m) * (1 + u) ^ Suc n" .
  have "(a + t m) * (1 + u) \<le> (2 powi (601 + int n) * (3 / 2)) * (1 + 1 / 4)"
    using a(4) m(3) big u apos tpos by (intro mult_mono) simp_all
  also have "\<dots> \<le> 2 powi (601 + int n) * 2" by simp
  also have "\<dots> = 2 powi (601 + int (Suc n))" by (simp add: power_int_add)
  finally have "y \<le> 2 powi (601 + int (Suc n))" using y(3) by linarith
  with y(1) b a(1) m(1) show ?case
    unfolding u_def n_def S_def by (simp add: add.commute)
qed


lemma rounded_mean_bounds:
  fixes u e W P T a b lo hi :: real
  assumes u: "0 \<le> u" "u < 1" and e1: "e \<le> 1"
    and e: "(1 + u) ^ 7 \<le> (1 + e) * (1 - u) ^ 5" "(1 - e) * (1 + u) ^ 5 \<le> (1 - u) ^ 7"
    and W: "0 < W" and lo: "0 \<le> lo" and P: "lo * W \<le> P" "P \<le> hi * W"
    and T: "P * (1 - u) \<le> T" "T \<le> P * (1 + u)"
    and a: "T * (1 - u) ^ 5 \<le> a" "a \<le> T * (1 + u) ^ 5"
    and b: "W * (1 - u) ^ 5 \<le> b" "b \<le> W * (1 + u) ^ 5"
  shows "0 < b" and "0 \<le> a" and "lo * (1 - e) \<le> a / b * (1 - u)"
    and "a / b * (1 + u) \<le> hi * (1 + e)"
proof -
  have m: "0 < (1 - u) ^ 5" "0 < (1 + u) ^ 5" "0 \<le> 1 - u" "0 < 1 + u" using u by simp_all
  have "0 < W * (1 - u) ^ 5" using W m(1) by (rule mult_pos_pos)
  with b(1) show bpos: "0 < b" by linarith
  have "0 \<le> lo * W" using lo W by (intro mult_nonneg_nonneg) simp_all
  with P(1) have Ppos: "0 \<le> P" by linarith
  then have "0 \<le> P * (1 - u)" using m(3) by (rule mult_nonneg_nonneg)
  with T(1) have Tpos: "0 \<le> T" by linarith
  then have "0 \<le> T * (1 - u) ^ 5" using m(1) by (intro mult_nonneg_nonneg) simp_all
  with a(1) show apos: "0 \<le> a" by linarith
  have hipos: "0 \<le> hi"
  proof (rule ccontr)
    assume "\<not> 0 \<le> hi"
    then have "hi * W < 0" using W by (simp add: mult_neg_pos)
    with P(2) Ppos show False by linarith
  qed
  have p7: "(1 + u) ^ 7 = (1 + u) * (1 + u) ^ 5 * (1 + u)"
    "(1 - u) ^ 7 = (1 - u) * (1 - u) ^ 5 * (1 - u)"
    by (simp_all add: eval_nat_numeral)
  have epos: "0 \<le> 1 + e"
  proof (rule ccontr)
    assume "\<not> 0 \<le> 1 + e"
    then have "(1 + e) * (1 - u) ^ 5 < 0" using m(1) by (simp add: mult_neg_pos)
    moreover have "0 \<le> (1 + u) ^ 7" using u by simp
    ultimately show False using e(1) by linarith
  qed
  have "T * (1 + u) ^ 5 \<le> P * (1 + u) * (1 + u) ^ 5"
    using T(2) m(2) by (intro mult_right_mono) simp_all
  also have "\<dots> \<le> hi * W * (1 + u) * (1 + u) ^ 5"
    using P(2) m by (intro mult_right_mono) simp_all
  finally have "a \<le> hi * W * (1 + u) * (1 + u) ^ 5" using a(2) by linarith
  then have "a * (1 + u) \<le> hi * W * (1 + u) * (1 + u) ^ 5 * (1 + u)"
    using m(4) by (intro mult_right_mono) simp_all
  also have "\<dots> = hi * W * (1 + u) ^ 7" by (simp add: p7)
  also have "\<dots> \<le> hi * W * ((1 + e) * (1 - u) ^ 5)"
    using e(1) hipos W by (intro mult_left_mono mult_nonneg_nonneg) simp_all
  also have "\<dots> = hi * (1 + e) * (W * (1 - u) ^ 5)" by simp
  also have "\<dots> \<le> hi * (1 + e) * b"
    using b(1) hipos epos by (intro mult_left_mono mult_nonneg_nonneg)
  finally have "a * (1 + u) \<le> hi * (1 + e) * b" .
  then have "a * (1 + u) / b \<le> hi * (1 + e)" using bpos by (simp add: pos_divide_le_eq)
  then show "a / b * (1 + u) \<le> hi * (1 + e)" by simp
  have "lo * (1 - e) * b \<le> a * (1 - u)"
  proof (cases "0 \<le> 1 - e")
    case True
    have "lo * (1 - e) * b \<le> lo * (1 - e) * (W * (1 + u) ^ 5)"
      using b(2) lo True by (intro mult_left_mono mult_nonneg_nonneg)
    also have "\<dots> = lo * W * ((1 - e) * (1 + u) ^ 5)" by simp
    also have "\<dots> \<le> lo * W * (1 - u) ^ 7"
      using e(2) lo W by (intro mult_left_mono mult_nonneg_nonneg) simp_all
    also have "\<dots> = lo * W * (1 - u) * (1 - u) ^ 5 * (1 - u)" by (simp add: p7)
    also have "\<dots> \<le> P * (1 - u) * (1 - u) ^ 5 * (1 - u)"
      using P(1) m by (intro mult_right_mono) simp_all
    also have "\<dots> \<le> T * (1 - u) ^ 5 * (1 - u)"
      using T(1) m by (intro mult_right_mono) simp_all
    also have "\<dots> \<le> a * (1 - u)" using a(1) m(3) by (rule mult_right_mono)
    finally show ?thesis .
  next
    case False
    with e1 show ?thesis by simp
  qed
  then have "lo * (1 - e) \<le> a * (1 - u) / b" using bpos by (simp add: pos_le_divide_eq)
  then show "lo * (1 - e) \<le> a / b * (1 - u)" by simp
qed

lemma model_confidence_range: "\<exists>c. model_confidence m = Fin c \<and> 1 / 10 \<le> c \<and> c \<le> 1 / 2"
proof (cases m)
  case TransformerModel
  then show ?thesis by (intro exI[of _ "0.45"]) simp
next
  case RandomForestModel
  then show ?thesis by (intro exI[of _ "0.25"]) simp
next
  case XGBoostModel
  then show ?thesis by (intro exI[of _ "0.2"]) simp
next
  case (SentimentModel api x)
  then show ?thesis by (intro exI[of _ "0.1"]) simp
next
  case BERTModel
  then show ?thesis by (intro exI[of _ "0.1"]) simp
qed

lemma binary64_confidence:
  "\<exists>c. binary64 (model_confidence m) = Fin c \<and> 2 powi (- 5) \<le> c \<and> c \<le> 1"
proof -
  from model_confidence_range[of m] obtain c where
    c: "model_confidence m = Fin c" "1 / 10 \<le> c" "c \<le> 1 / 2" by blast
  have "(2::real) powi (- 1022) \<le> 2 powi (- 4)" by (rule power_int_increasing) simp_all
  also have "\<dots> \<le> 1 / 10" by (simp add: power_int_minus)
  finally have lo: "2 powi (- 1022) \<le> c" using c(2) by linarith
  have "(1::real) \<le> 2 powi 1023" by simp
  with c(3) have hi: "c < 2 powi 1023" by linarith
  from binary64_relative_error[OF lo hi] obtain y where
    y: "binary64 (Fin c) = Fin y" "c * (1 - unit_roundoff) \<le> y" "y \<le> c * (1 + unit_roundoff)"
    by blast
  have "c * (1 + unit_roundoff) \<le> (1 / 2) * (1 + 1 / 4)"
    using c unit_roundoff_range by (intro mult_mono) simp_all
  with y(3) have "y \<le> 1" by simp
  moreover have "(1 / 10) * (1 - 1 / 4) \<le> c * (1 - unit_roundoff)"
    using c unit_roundoff_range by (intro mult_mono) simp_all
  with y(2) have "2 powi (- 5) \<le> y" by (simp add: power_int_minus)
  ultimately show ?thesis using y(1) c(1) by simp
qed

lemma binary64_product:
  assumes p: "2 powi (- 500) \<le> p" "p \<le> 2 powi 500"
    and c: "2 powi (- 5) \<le> c" "c \<le> 1"
  shows "\<exists>t. binary64 (Fin p * Fin c) = Fin t
           \<and> p * c * (1 - unit_roundoff) \<le> t \<and> t \<le> p * c * (1 + unit_roundoff)
           \<and> 2 powi (- 600) \<le> t \<and> t \<le> 2 powi 600"
proof -
  have ppos: "0 < p" using p(1) by (rule less_le_trans[rotated]) simp
  have cpos: "0 < c" using c(1) by (rule less_le_trans[rotated]) simp
  have "(2::real) powi (- 505) = 2 powi (- 500) * 2 powi (- 5)"
    by (simp add: power_int_add[symmetric])
  also have "\<dots> \<le> p * c" using p(1) c(1) by (intro mult_mono) simp_all
  finally have l5: "2 powi (- 505) \<le> p * c" .
  have "(2::real) powi (- 1022) \<le> 2 powi (- 505)" by (rule power_int_increasing) simp_all
  with l5 have lo: "2 powi (- 1022) \<le> p * c" by linarith
  have "p * c \<le> 2 powi 500 * 1" using p(2) c(2) ppos cpos by (intro mult_mono) simp_all
  then have h5: "p * c \<le> 2 powi 500" by simp
  have "(2::real) powi 500 < 2 powi 1023" by (rule power_int_strict_increasing) simp_all
  with h5 have hi: "p * c < 2 powi 1023" by linarith
  from binary64_relative_error[OF lo hi] obtain t where
    t: "binary64 (Fin (p * c)) = Fin t" "p * c * (1 - unit_roundoff) \<le> t"
       "t \<le> p * c * (1 + unit_roundoff)"
    by blast
  have "(2::real) powi (- 600) \<le> 2 powi (- 506)" by (rule power_int_increasing) simp_all
  also have "\<dots> = 2 powi (- 505) * (1 / 2)" by (simp add: power_int_minus)
  also have "\<dots> \<le> p * c * (1 - unit_roundoff)"
    using l5 unit_roundoff_range by (intro mult_mono) simp_all
  finally have "2 powi (- 600) \<le> t" using t(2) by linarith
  moreover have "p * c * (1 + unit_roundoff) \<le> 2 powi 500 * 2"
    using h5 unit_roundoff_range ppos cpos by (intro mult_mono) simp_all
  then have "t \<le> 2 powi 501" using t(3) by simp
  then have "t \<le> 2 powi 600"
    using power_int_increasing[of 501 600 "2::real"] by simp
  ultimately show ?thesis using t by simp
qed

subsection \<open>The weighted mean as it is computed\<close>

text \<open>
  Every list \<open>modelPredictions\<close> that \<open>predict\<close> builds from five models carries the
  weights of the five classes and a price for every day below the horizon.
\<close>

lemma modelPredictions_weights:
  assumes run: "EnsembleModel_modelPredictions False models g historicalPrices days = Inr (mps, g')"
    and models: "map model_confidence models = map model_confidence EnsembleModel_models"
    and d: "d < nat days"
  shows "map mp_confidence mps = map model_confidence EnsembleModel_models"
    and "\<forall>m\<in>set mps. d < length (mp_predictions m)"
proof -
  have "False \<longrightarrow> historicalPrices \<noteq> [] \<and> models \<noteq> []" by simp
  moreover from d have "0 \<le> days" by simp
  ultimately obtain mps' rs k where
    run': "EnsembleModel_modelPredictions False models g historicalPrices days
            = Inr (mps', \<lambda>j. g (j + k))"
    and len: "length mps' = length models"
    and props: "\<forall>i<length models.
                 mp_confidence (mps' ! i) = model_confidence (models ! i)
                 \<and> length (mp_predictions (mps' ! i)) = nat days"
    using EnsembleModel_predict_structure[of False historicalPrices models days g "Fin 1"]
    by blast
  from run run' have eq: "mps' = mps" by simp
  have "map mp_confidence mps = map model_confidence models"
    using len props unfolding eq by (intro nth_equalityI) simp_all
  with models show "map mp_confidence mps = map model_confidence EnsembleModel_models" by simp
  show "\<forall>m\<in>set mps. d < length (mp_predictions m)"
    using len props d unfolding eq by (auto simp: in_set_conv_nth)
qed

text \<open>
  Claim C1, in the form that holds of the code. The combined price of a day is the
  weighted mean of the five prices that the models predict for the day, computed in
  binary64 with the weights of the five classes. Whenever the five prices lie between
  \<open>2\<^sup>-\<^sup>5\<^sup>0\<^sup>0\<close> and \<open>2\<^sup>5\<^sup>0\<^sup>0\<close>, the combined price is a finite number between
  \<open>min * (1 - 2\<^sup>-\<^sup>4\<^sup>9)\<close> and \<open>max * (1 + 2\<^sup>-\<^sup>4\<^sup>9)\<close>, where \<open>min\<close> and \<open>max\<close> are the least
  and the greatest of the five prices: it lies between the component prices up to a
  relative rounding error of \<open>2\<^sup>-\<^sup>4\<^sup>9\<close>. The statement is about the aggregation alone: it
  holds for any five such prices with these weights, however the models have computed
  them, and so for the prices of every call, series, horizon and day.
\<close>

theorem weighted_mean_in_hull:
  assumes w: "map mp_confidence mps = map model_confidence EnsembleModel_models"
    and p: "\<forall>m\<in>set mps. d < length (mp_predictions m)
              \<and> (\<exists>p. mp_predictions m ! d = Fin p \<and> 2 powi (- 500) \<le> p \<and> p \<le> 2 powi 500)"
  shows "\<exists>q. EnsembleModel_predictedPrice_binary64 mps d = Inr (Fin q)
           \<and> Min ((\<lambda>m. real_of_number (mp_predictions m ! d)) ` set mps) * (1 - 2 powi (- 49)) \<le> q
           \<and> q \<le> Max ((\<lambda>m. real_of_number (mp_predictions m ! d)) ` set mps) * (1 + 2 powi (- 49))"
proof -
  from w have "length (map mp_confidence mps) = length (map model_confidence EnsembleModel_models)"
    by simp
  then have len: "length mps = 5" by (simp add: EnsembleModel_models_def)
  define u where "u = unit_roundoff"
  define e :: real where "e = 2 powi (- 49)"
  have u: "0 \<le> u" "u < 1" "u \<le> 1 / 4" using unit_roundoff_range by (simp_all add: u_def)
  have e: "e \<le> 1 / 2" "0 \<le> e" by (simp_all add: e_def power_int_minus)
  let ?p = "\<lambda>m. real_of_number (mp_predictions m ! d)"
  let ?w = "\<lambda>m. real_of_number (binary64 (mp_confidence m))"
  let ?f = "\<lambda>m. binary64 (mp_predictions m ! d * binary64 (mp_confidence m))"
  let ?t = "\<lambda>m. real_of_number (?f m)"
  from len have ne: "mps \<noteq> []" by auto
  have cover: "\<forall>m\<in>set mps. d < length (mp_predictions m)" using p by blast
  have pm: "mp_predictions m ! d = Fin (?p m) \<and> 2 powi (- 500) \<le> ?p m \<and> ?p m \<le> 2 powi 500"
    if "m \<in> set mps" for m using p that by fastforce
  have wm: "binary64 (mp_confidence m) = Fin (?w m) \<and> 2 powi (- 5) \<le> ?w m \<and> ?w m \<le> 1"
    if "m \<in> set mps" for m
  proof -
    from that have "mp_confidence m \<in> set (map mp_confidence mps)" by simp
    with w obtain model where "mp_confidence m = model_confidence model" by auto
    with binary64_confidence[of model] show ?thesis by auto
  qed
  have tm: "?f m = Fin (?t m) \<and> ?p m * ?w m * (1 - u) \<le> ?t m \<and> ?t m \<le> ?p m * ?w m * (1 + u)
            \<and> 2 powi (- 600) \<le> ?t m \<and> ?t m \<le> 2 powi 600"
    if "m \<in> set mps" for m
  proof -
    from pm[OF that] wm[OF that] have
      "2 powi (- 500) \<le> ?p m" "?p m \<le> 2 powi 500" "2 powi (- 5) \<le> ?w m" "?w m \<le> 1"
      and eq: "mp_predictions m ! d = Fin (?p m)" "binary64 (mp_confidence m) = Fin (?w m)"
      by simp_all
    from binary64_product[OF this(1-4)] obtain t where
      t: "binary64 (Fin (?p m) * Fin (?w m)) = Fin t"
         "?p m * ?w m * (1 - u) \<le> t" "t \<le> ?p m * ?w m * (1 + u)"
         "2 powi (- 600) \<le> t" "t \<le> 2 powi 600"
      unfolding u_def by blast
    from t(1) have "?f m = Fin t" using eq by metis
    with t show ?thesis by simp
  qed
  have n100: "length mps \<le> 100" using len by simp
  have "\<forall>m\<in>set mps. ?f m = Fin (?t m) \<and> 2 powi (- 600) \<le> ?t m \<and> ?t m \<le> 2 powi 600"
    using tm by blast
  from binary64_sum_bounds[OF this n100] obtain a where
    a: "foldl (\<lambda>s m. binary64 (s + ?f m)) (Fin 0) mps = Fin a"
       "sum_list (map ?t mps) * (1 - u) ^ 5 \<le> a" "a \<le> sum_list (map ?t mps) * (1 + u) ^ 5"
    unfolding u_def len by blast
  have "\<forall>m\<in>set mps. binary64 (mp_confidence m) = Fin (?w m)
           \<and> 2 powi (- 600) \<le> ?w m \<and> ?w m \<le> 2 powi 600"
  proof
    fix m assume m: "m \<in> set mps"
    have "(2::real) powi (- 600) \<le> 2 powi (- 5)" by (rule power_int_increasing) simp_all
    moreover have "(1::real) \<le> 2 powi 600" by simp
    ultimately show "binary64 (mp_confidence m) = Fin (?w m)
           \<and> 2 powi (- 600) \<le> ?w m \<and> ?w m \<le> 2 powi 600"
      using wm[OF m] by linarith
  qed
  from binary64_sum_bounds[OF this n100] obtain b where
    b: "foldl (\<lambda>s m. binary64 (s + binary64 (mp_confidence m))) (Fin 0) mps = Fin b"
       "sum_list (map ?w mps) * (1 - u) ^ 5 \<le> b" "b \<le> sum_list (map ?w mps) * (1 + u) ^ 5"
    unfolding u_def len by blast
  define W where "W = sum_list (map ?w mps)"
  define P where "P = sum_list (map (\<lambda>m. ?p m * ?w m) mps)"
  define T where "T = sum_list (map ?t mps)"
  define lo where "lo = Min (?p ` set mps)"
  define hi where "hi = Max (?p ` set mps)"
  have wpos: "\<forall>m\<in>set mps. 0 < ?w m"
  proof
    fix m assume "m \<in> set mps"
    from wm[OF this] have "2 powi (- 5) \<le> ?w m" by simp
    then show "0 < ?w m" by (rule less_le_trans[rotated]) simp
  qed
  have Wpos: "0 < W"
  proof -
    from ne obtain m ms where xs: "mps = m # ms" by (cases mps) auto
    have "0 \<le> sum_list (map ?w ms)"
      using wpos xs by (intro sum_list_nonneg) (auto simp: less_imp_le)
    moreover have "0 < ?w m" using wpos xs by simp
    ultimately show ?thesis using xs by (simp add: W_def)
  qed
  from weighted_mean_bounds[OF ne wpos, of ?p]
  have "lo \<le> P / W" "P / W \<le> hi" unfolding lo_def hi_def P_def W_def by blast+
  with Wpos have PW: "lo * W \<le> P" "P \<le> hi * W"
    by (simp_all add: pos_le_divide_eq pos_divide_le_eq)
  have lo_in: "lo \<in> ?p ` set mps" unfolding lo_def using ne by (intro Min_in) simp_all
  then obtain m0 where "m0 \<in> set mps" "lo = ?p m0" by blast
  with pm[of m0] have lo5: "2 powi (- 500) \<le> lo" by simp
  then have lopos: "0 \<le> lo" by (rule order_trans[rotated]) simp
  have hi_in: "hi \<in> ?p ` set mps" unfolding hi_def using ne by (intro Max_in) simp_all
  then obtain m1 where "m1 \<in> set mps" "hi = ?p m1" by blast
  with pm[of m1] have hi5: "hi \<le> 2 powi 500" by simp
  have "sum_list (map (\<lambda>m. ?p m * ?w m * (1 - u)) mps) \<le> sum_list (map ?t mps)"
    using tm by (intro sum_list_mono) simp
  then have T1: "P * (1 - u) \<le> T" by (simp add: P_def T_def sum_list_mult_const)
  have "sum_list (map ?t mps) \<le> sum_list (map (\<lambda>m. ?p m * ?w m * (1 + u)) mps)"
    using tm by (intro sum_list_mono) simp
  then have T2: "T \<le> P * (1 + u)" by (simp add: P_def T_def sum_list_mult_const)
  note tol = unit_roundoff_tolerance[folded u_def e_def]
  have e1: "e \<le> 1" using e by simp
  from rounded_mean_bounds[OF u(1,2) e1 tol Wpos lopos PW T1 T2
      a(2,3)[folded T_def] b(2,3)[folded W_def]]
  have r: "0 < b" "0 \<le> a" "lo * (1 - e) \<le> a / b * (1 - u)" "a / b * (1 + u) \<le> hi * (1 + e)"
    by blast+
  have rpos: "0 \<le> a / b" using r(1,2) by simp
  have "(2::real) powi (- 1022) \<le> 2 powi (- 501)" by (rule power_int_increasing) simp_all
  also have "\<dots> = 2 powi (- 500) * (1 / 2)" by (simp add: power_int_minus)
  also have "\<dots> \<le> lo * (1 - e)" using lo5 e by (intro mult_mono) simp_all
  also note r(3)
  also have "a / b * (1 - u) \<le> a / b * 1" using rpos u by (intro mult_left_mono) simp_all
  finally have rl: "2 powi (- 1022) \<le> a / b" by simp
  have "a / b * 1 \<le> a / b * (1 + u)" using rpos u by (intro mult_left_mono) simp_all
  also note r(4)
  also have "hi * (1 + e) \<le> 2 powi 500 * 2" using hi5 e
  proof -
    from hi_in pm obtain m where "2 powi (- 500) \<le> hi" by force
    then have "0 \<le> hi" by (rule order_trans[rotated]) simp
    then show ?thesis using hi5 e by (intro mult_mono) simp_all
  qed
  also have "\<dots> = (2::real) powi 501" by simp
  also have "\<dots> < 2 powi 1023" by (rule power_int_strict_increasing) simp_all
  finally have rh: "a / b < 2 powi 1023" by simp
  from binary64_relative_error[OF rl rh] obtain q where
    q: "binary64 (Fin (a / b)) = Fin q" "a / b * (1 - u) \<le> q" "q \<le> a / b * (1 + u)"
    unfolding u_def by blast
  from r(1) have "Fin a / Fin b = Fin (a / b)" by simp
  with q(1) a(1) b(1) have
    "EnsembleModel_predictedPrice_binary64 mps d = Inr (Fin q)"
    by (simp add: EnsembleModel_predictedPrice_binary64_def EnsembleModel_weightedSum_binary64_def
        weightedSum_binary64_fold[OF cover])
  moreover from q r have "lo * (1 - e) \<le> q" "q \<le> hi * (1 + e)" by linarith+
  ultimately show ?thesis unfolding lo_def hi_def e_def by blast
qed

text \<open>
  The five models on the series \<open>[100]\<close> for one day, with the impact 30 and every
  draw 1/2: the prices of the day are 100, 100, 100, 3000 and 100, they satisfy the
  hypotheses, and the combined price is the double 363.6363636363637.
\<close>

theorem weighted_mean_in_hull_witness:
  "(let mps =
      [\<lparr>mp_name = ''Transformer'', mp_predictions = [Fin 100], mp_confidence = Fin 0.45\<rparr>,
       \<lparr>mp_name = ''Random Forest'', mp_predictions = [Fin 100], mp_confidence = Fin 0.25\<rparr>,
       \<lparr>mp_name = ''XGBoost'', mp_predictions = [Fin 100], mp_confidence = Fin 0.2\<rparr>,
       \<lparr>mp_name = ''VADER Sentiment'', mp_predictions = [Fin 3000], mp_confidence = Fin 0.1\<rparr>,
       \<lparr>mp_name = ''BERT NLP'', mp_predictions = [Fin 100], mp_confidence = Fin 0.1\<rparr>]
    in EnsembleModel_modelPredictions False
         [TransformerModel, RandomForestModel, XGBoostModel, SentimentModel True (Fin 30),
          BERTModel]
         (\<lambda>n. 1 / 2) [Fin 100] 1
       = Inr (mps, \<lambda>n. 1 / 2)
       \<and> map mp_confidence mps = map model_confidence EnsembleModel_models
       \<and> list_all (\<lambda>m. 0 < length (mp_predictions m)
                         \<and> (\<exists>p. mp_predictions m ! 0 = Fin p \<and> 2 powi (- 500) \<le> p
                                  \<and> p \<le> 2 powi 500)) mps
       \<and> Min ((\<lambda>m. real_of_number (mp_predictions m ! 0)) ` set mps) = 100
       \<and> Max ((\<lambda>m. real_of_number (mp_predictions m ! 0)) ` set mps) = 3000
       \<and> EnsembleModel_predictedPrice_binary64 mps 0 = Inr (Fin (6397158561605819 / 2 ^ 44))
       \<and> (\<exists>q. EnsembleModel_predictedPrice_binary64 mps 0 = Inr (Fin q)
                \<and> 100 * (1 - 2 powi (- 49)) \<le> q \<and> q \<le> 3000 * (1 + 2 powi (- 49))))"
proof -
  let ?mps = "[\<lparr>mp_name = ''Transformer'', mp_predictions = [Fin 100], mp_confidence = Fin 0.45\<rparr>,
       \<lparr>mp_name = ''Random Forest'', mp_predictions = [Fin 100], mp_confidence = Fin 0.25\<rparr>,
       \<lparr>mp_name = ''XGBoost'', mp_predictions = [Fin 100], mp_confidence = Fin 0.2\<rparr>,
       \<lparr>mp_name = ''VADER Sentiment'', mp_predictions = [Fin 3000], mp_confidence = Fin 0.1\<rparr>,
       \<lparr>mp_name = ''BERT NLP'', mp_predictions = [Fin 100], mp_confidence = Fin 0.1\<rparr>]"
  have run: "EnsembleModel_modelPredictions False
         [TransformerModel, RandomForestModel, XGBoostModel, SentimentModel True (Fin 30),
          BERTModel]
         (\<lambda>n. 1 / 2) [Fin 100] 1
       = Inr (?mps, \<lambda>n. 1 / 2)"
    by (simp add: engine_defs upt_0_1)
  have w: "map mp_confidence ?mps = map model_confidence EnsembleModel_models"
    by (simp add: EnsembleModel_models_def)
  have p: "\<forall>m\<in>set ?mps. 0 < length (mp_predictions m)
              \<and> (\<exists>p. mp_predictions m ! 0 = Fin p \<and> 2 powi (- 500) \<le> p \<and> p \<le> 2 powi 500)"
    by (simp add: power_int_minus)
  have mm: "Min ((\<lambda>m. real_of_number (mp_predictions m ! 0)) ` set ?mps) = 100"
    "Max ((\<lambda>m. real_of_number (mp_predictions m ! 0)) ` set ?mps) = 3000"
    by simp_all
  have v: "EnsembleModel_predictedPrice_binary64 ?mps 0 = Inr (Fin (6397158561605819 / 2 ^ 44))"
    by (simp add: EnsembleModel_predictedPrice_binary64_def EnsembleModel_weightedSum_binary64_def
        at_index_def binary64_eval)
  from weighted_mean_in_hull [OF w p] have
    "\<exists>q. EnsembleModel_predictedPrice_binary64 ?mps 0 = Inr (Fin q)
          \<and> 100 * (1 - 2 powi (- 49)) \<le> q \<and> q \<le> 3000 * (1 + 2 powi (- 49))"
    unfolding mm .
  with run w p mm v show ?thesis unfolding Let_def list_all_iff by blast
qed

text \<open>
  As the specification words it, the claim fails. On the flat series \<open>[100, 100]\<close>, for
  one day, with the impact 1 and every draw 1/2, each of the five models predicts
  exactly 100. The weights add up to the double 1.0999999999999999 and the weighted
  sum to 110, and their quotient rounds to \<open>100 + 2\<^sup>-\<^sup>4\<^sup>6\<close>, the double
  100.00000000000001: the combined price is above every component price.
\<close>

theorem weighted_mean_in_hull_counterexample:
  "EnsembleModel_modelPredictions False
     [TransformerModel, RandomForestModel, XGBoostModel, SentimentModel True (Fin 1), BERTModel]
     (\<lambda>n. 1 / 2) [Fin 100, Fin 100] 1
   = Inr ([\<lparr>mp_name = ''Transformer'', mp_predictions = [Fin 100], mp_confidence = Fin 0.45\<rparr>,
           \<lparr>mp_name = ''Random Forest'', mp_predictions = [Fin 100], mp_confidence = Fin 0.25\<rparr>,
           \<lparr>mp_name = ''XGBoost'', mp_predictions = [Fin 100], mp_confidence = Fin 0.2\<rparr>,
           \<lparr>mp_name = ''VADER Sentiment'', mp_predictions = [Fin 100], mp_confidence = Fin 0.1\<rparr>,
           \<lparr>mp_name = ''BERT NLP'', mp_predictions = [Fin 100], mp_confidence = Fin 0.1\<rparr>],
          \<lambda>n. 1 / 2)
   \<and> EnsembleModel_predictedPrice_binary64
       [\<lparr>mp_name = ''Transformer'', mp_predictions = [Fin 100], mp_confidence = Fin 0.45\<rparr>,
        \<lparr>mp_name = ''Random Forest'', mp_predictions = [Fin 100], mp_confidence = Fin 0.25\<rparr>,
        \<lparr>mp_name = ''XGBoost'', mp_predictions = [Fin 100], mp_confidence = Fin 0.2\<rparr>,
        \<lparr>mp_name = ''VADER Sentiment'', mp_predictions = [Fin 100], mp_confidence = Fin 0.1\<rparr>,
        \<lparr>mp_name = ''BERT NLP'', mp_predictions = [Fin 100], mp_confidence = Fin 0.1\<rparr>] 0
     = Inr (Fin (100 + 1 / 2 ^ 46))
   \<and> Max ((\<lambda>m. real_of_number (mp_predictions m ! 0)) `
          set [\<lparr>mp_name = ''Transformer'', mp_predictions = [Fin 100], mp_confidence = Fin 0.45\<rparr>,
               \<lparr>mp_name = ''Random Forest'', mp_predictions = [Fin 100],
                 mp_confidence = Fin 0.25\<rparr>,
               \<lparr>mp_name = ''XGBoost'', mp_predictions = [Fin 100], mp_confidence = Fin 0.2\<rparr>,
               \<lparr>mp_name = ''VADER Sentiment'', mp_predictions = [Fin 100],
                 mp_confidence = Fin 0.1\<rparr>,
               \<lparr>mp_name = ''BERT NLP'', mp_predictions = [Fin 100], mp_confidence = Fin 0.1\<rparr>])
     = 100
   \<and> (100::real) < 100 + 1 / 2 ^ 46"
  by (simp add: EnsembleModel_predictedPrice_binary64_def EnsembleModel_weightedSum_binary64_def
      binary64_eval engine_defs loop_defs upt_0_1 upt_rec)

section \<open>One price per day\<close>

text \<open>
  Claim C2. For a non-empty series and a horizon \<open>days\<close> of at least 1, the
  \<open>predict\<close> of every component model returns a path of exactly \<open>days\<close> prices, and
  \<open>EnsembleModel.predict\<close> returns exactly \<open>days\<close> forecast points, in both readings
  of the flag.
\<close>

theorem predict_lengths:
  assumes "historicalPrices \<noteq> []" and "1 \<le> days" and "models \<noteq> []"
  shows "(\<exists>path g'. model_predict checked m g historicalPrices days = Inr (path, g')
            \<and> int (length path) = days)
       \<and> (\<exists>results g'.
            EnsembleModel_predict checked models g historicalPrices days volatilityFactor
              = Inr (results, g')
            \<and> int (length results) = days)"
proof -
  from assms have ne: "checked \<longrightarrow> historicalPrices \<noteq> []"
    and ne2: "checked \<longrightarrow> historicalPrices \<noteq> [] \<and> models \<noteq> []" and d: "0 \<le> days" by auto
  from model_predict_returns[OF ne d, of g m] obtain p k where
    "model_predict checked m g historicalPrices days = Inr (p, \<lambda>j. g (j + k))"
    "length p = nat days" by blast
  moreover
  from EnsembleModel_predict_structure[OF ne2 d, of g volatilityFactor] obtain rs k' where
    "EnsembleModel_predict checked models g historicalPrices days volatilityFactor
       = Inr (rs, \<lambda>j. g (j + k'))" "length rs = nat days" by blast
  ultimately show ?thesis using d by auto
qed

theorem predict_lengths_witness:
  "[Fin 100] \<noteq> [] \<and> (1::int) \<le> 7 \<and> EnsembleModel_models \<noteq> []
   \<and> (\<exists>path g'. model_predict False TransformerModel (\<lambda>n. 1 / 2) [Fin 100] 7 = Inr (path, g')
          \<and> int (length path) = 7)
   \<and> (\<exists>results g'.
          EnsembleModel_predict False EnsembleModel_models (\<lambda>n. 1 / 2) [Fin 100] 7 (Fin 1)
            = Inr (results, g')
          \<and> int (length results) = 7)"
proof -
  have "EnsembleModel_models \<noteq> []" by (simp add: EnsembleModel_models_def)
  then show ?thesis
    using predict_lengths [of "[Fin 100]" 7 EnsembleModel_models False TransformerModel
        "\<lambda>n. 1 / 2" "Fin 1"]
    by simp
qed

section \<open>The confidence band\<close>








section \<open>No validation of the input\<close>

text \<open>
  Claim C4, in the form that holds of the code. \<open>EnsembleModel.predict\<close> validates
  nothing. For a horizon of 0 or more and any series, empty or not, every model runs, the aggregation
  completes and the call returns one forecast point per day (none for the horizon 0);
  on an empty series every field of every point is \<open>NaN\<close>. A negative horizon is not
  rejected at the boundary either: the Transformer, Random Forest and XGBoost models run
  and return empty paths, and the call ends with the \<open>RangeError\<close> that
  \<^verbatim>\<open>Array(days)\<close> raises inside the sentiment model.
\<close>

theorem predict_without_validation:
  "(0 \<le> days \<longrightarrow>
      (\<exists>results g'.
          EnsembleModel_predict False models g historicalPrices days volatilityFactor
            = Inr (results, g')
          \<and> int (length results) = days
          \<and> (historicalPrices = [] \<longrightarrow> models \<noteq> [] \<longrightarrow>
               list_all (\<lambda>r. r = \<lparr>predicted = NaN, upperBound = NaN, lowerBound = NaN,
                                    confidence = NaN\<rparr>) results)))
   \<and> (days < 0 \<longrightarrow>
        TransformerModel_predict False g historicalPrices days = Inr ([], g)
        \<and> RandomForestModel_predict False g historicalPrices days = Inr ([], g)
        \<and> XGBoostModel_predict False g historicalPrices days = Inr ([], g)
        \<and> SentimentModel_predict False useSentimentAPI sentimentImpact g historicalPrices days
            = Inl RangeError
        \<and> EnsembleModel_predict False
             [TransformerModel, RandomForestModel, XGBoostModel,
              SentimentModel useSentimentAPI sentimentImpact, BERTModel]
             g historicalPrices days volatilityFactor = Inl RangeError)"
proof (intro conjI impI)
  assume d: "0 \<le> days"
  have "False \<longrightarrow> historicalPrices \<noteq> [] \<and> models \<noteq> []" by simp
  from EnsembleModel_predict_structure[OF this d, of g volatilityFactor]
  obtain mps rs k where
    run: "EnsembleModel_predict False models g historicalPrices days volatilityFactor
            = Inr (rs, \<lambda>j. g (j + k))"
    and len: "length mps = length models" and rlen: "length rs = nat days"
    and props: "\<forall>i<length models.
                 length (mp_predictions (mps ! i)) = nat days
                 \<and> (historicalPrices = [] \<longrightarrow>
                      list_all (\<lambda>x. x = NaN) (mp_predictions (mps ! i)))"
    and day: "\<forall>d<nat days.
                 EnsembleModel_predict_day False mps d days volatilityFactor = Inr (rs ! d)"
    by blast
  have "rs ! i = \<lparr>predicted = NaN, upperBound = NaN, lowerBound = NaN, confidence = NaN\<rparr>"
    if "historicalPrices = []" "models \<noteq> []" "i < length rs" for i
  proof -
    from that len have ne: "mps \<noteq> []" by auto
    have each: "i < length (mp_predictions m) \<and> mp_predictions m ! i = NaN"
      if "m \<in> set mps" for m
    proof -
      from that len obtain j where "j < length models" "m = mps ! j"
        by (auto simp: in_set_conv_nth)
      with props \<open>historicalPrices = []\<close> \<open>i < length rs\<close> rlen show ?thesis
        by (auto simp: list_all_length)
    qed
    from EnsembleModel_predict_day_NaN[OF ne, of i days volatilityFactor] each day that rlen
    show ?thesis by auto
  qed
  with run rlen d show "\<exists>results g'.
          EnsembleModel_predict False models g historicalPrices days volatilityFactor
            = Inr (results, g')
          \<and> int (length results) = days
          \<and> (historicalPrices = [] \<longrightarrow> models \<noteq> [] \<longrightarrow>
               list_all (\<lambda>r. r = \<lparr>predicted = NaN, upperBound = NaN, lowerBound = NaN,
                                    confidence = NaN\<rparr>) results)"
    by (auto simp: list_all_length)
next
  assume "days < 0"
  note m = negative_days_models[OF this]
  show "TransformerModel_predict False g historicalPrices days = Inr ([], g)"
    "RandomForestModel_predict False g historicalPrices days = Inr ([], g)"
    "XGBoostModel_predict False g historicalPrices days = Inr ([], g)"
    "SentimentModel_predict False useSentimentAPI sentimentImpact g historicalPrices days
            = Inl RangeError"
    by (rule m)+
  show "EnsembleModel_predict False
             [TransformerModel, RandomForestModel, XGBoostModel,
              SentimentModel useSentimentAPI sentimentImpact, BERTModel]
             g historicalPrices days volatilityFactor = Inl RangeError"
    by (simp add: EnsembleModel_predict_def EnsembleModel_modelPredictions_def m)
qed

text \<open>The default models on an empty series for one day, and on a horizon of -1.\<close>

theorem predict_without_validation_witness:
  "(0::int) \<le> 1 \<and> ([] :: number list) = [] \<and> EnsembleModel_models \<noteq> []
   \<and> (\<exists>results g'.
         EnsembleModel_predict False EnsembleModel_models (\<lambda>n. 1 / 2) [] 1 (Fin 1)
           = Inr (results, g')
         \<and> int (length results) = 1
         \<and> list_all (\<lambda>r. r = \<lparr>predicted = NaN, upperBound = NaN, lowerBound = NaN,
                              confidence = NaN\<rparr>) results)
   \<and> (- 1 :: int) < 0
   \<and> SentimentModel_predict False False (Fin 1) (\<lambda>n. 1 / 2) [Fin 100] (- 1) = Inl RangeError
   \<and> EnsembleModel_predict False EnsembleModel_models (\<lambda>n. 1 / 2) [Fin 100] (- 1) (Fin 1)
       = Inl RangeError"
  using predict_without_validation [of 1 EnsembleModel_models "\<lambda>n. 1 / 2" "[]" "Fin 1" False "Fin 1"]
    predict_without_validation [of "- 1" EnsembleModel_models "\<lambda>n. 1 / 2" "[Fin 100]" "Fin 1"
      False "Fin 1"]
  by (simp add: EnsembleModel_models_def)

text \<open>
  As the specification words it, the claim fails: the horizon 0 is not rejected but answered with the
  empty forecast, and the empty series is not rejected but answered with a forecast
  point whose fields are all \<open>NaN\<close>.
\<close>

theorem predict_without_validation_counterexample:
  "EnsembleModel_predict False EnsembleModel_models (\<lambda>n. 1 / 2) [Fin 100] 0 (Fin 1)
     = Inr ([], \<lambda>n. 1 / 2)
   \<and> EnsembleModel_predict False EnsembleModel_models (\<lambda>n. 1 / 2) [] 1 (Fin 1)
     = Inr ([\<lparr>predicted = NaN, upperBound = NaN, lowerBound = NaN, confidence = NaN\<rparr>],
            \<lambda>n. 1 / 2)"
  by (simp add: engine_defs upt_0_1 EnsembleModel_models_def)

section \<open>The same draws give the same forecast\<close>

text \<open>
  Claim C9. \<^verbatim>\<open>Math.random\<close> is the only source of randomness. Two calls of
  \<open>predict\<close> on the same models, series, horizon and volatility factor whose
  generators give the same first \<open>length models * days\<close> draws (as two generators
  started from the same seed do) return the same forecast points: the same predicted
  price, bounds and confidence for every day.
\<close>

theorem predict_deterministic:
  assumes "0 \<le> days" and "\<forall>j < length models * nat days. g1 j = g2 j"
  shows "\<exists>results g1' g2'.
           EnsembleModel_predict False models g1 historicalPrices days volatilityFactor
             = Inr (results, g1')
           \<and> EnsembleModel_predict False models g2 historicalPrices days volatilityFactor
             = Inr (results, g2')"
proof -
  have "False \<longrightarrow> historicalPrices \<noteq> [] \<and> models \<noteq> []" by simp
  from EnsembleModel_predict_structure[OF this assms(1), of g1 volatilityFactor]
  obtain rs k where k: "k \<le> length models * nat days"
    and run: "\<And>g. (\<forall>j<k. g j = g1 j) \<Longrightarrow>
      EnsembleModel_predict False models g historicalPrices days volatilityFactor
        = Inr (rs, \<lambda>j. g (j + k))"
    by blast
  from k assms(2) have "\<forall>j<k. g2 j = g1 j" by simp
  from run[OF this] run[of g1] show ?thesis by auto
qed

theorem predict_deterministic_witness:
  "(0::int) \<le> 7
   \<and> (\<exists>results g1' g2'.
         EnsembleModel_predict False EnsembleModel_models (\<lambda>n. 1 / 2) [Fin 100] 7 (Fin 1)
           = Inr (results, g1')
         \<and> EnsembleModel_predict False EnsembleModel_models
              (\<lambda>n. if n < 35 then 1 / 2 else 0) [Fin 100] 7 (Fin 1)
           = Inr (results, g2'))"
  using predict_deterministic [of 7 EnsembleModel_models "\<lambda>n. 1 / 2"
      "\<lambda>n. if n < 35 then 1 / 2 else 0" "[Fin 100]" "Fin 1"]
  by (simp add: EnsembleModel_models_def)

section \<open>Reads in bounds, divisions by nonzero counts\<close>

text \<open>
  Claim C10. With every array read checked against the bounds and every division by
  an accumulated weight or a count checked against zero, a non-empty series and a
  horizon of 0 or more, the \<open>predict\<close> of every component model and
  \<open>EnsembleModel.predict\<close> return a value: no read is out of bounds and no such
  divisor is zero, and the value is the one the program returns without the checks. The
  divisor of the weighted average is the total weight 1.10, and the divisor of the
  variance is the number of models, 5.
\<close>

theorem checked_predict_returns:
  assumes "historicalPrices \<noteq> []" and "0 \<le> days"
    and "models = [TransformerModel, RandomForestModel, XGBoostModel,
                   SentimentModel useSentimentAPI sentimentImpact, BERTModel]"
  shows "(\<forall>m\<in>set models. \<exists>path g'.
            model_predict True m g historicalPrices days = Inr (path, g')
            \<and> model_predict False m g historicalPrices days = Inr (path, g'))
       \<and> (\<exists>results g'.
            EnsembleModel_predict True models g historicalPrices days volatilityFactor
              = Inr (results, g')
            \<and> EnsembleModel_predict False models g historicalPrices days volatilityFactor
              = Inr (results, g'))
       \<and> foldl (\<lambda>sum model. sum + model_confidence model) (Fin 0) models = Fin 1.10
       \<and> length models = 5"
proof -
  from assms have ne: "True \<longrightarrow> historicalPrices \<noteq> []"
    and ne2: "True \<longrightarrow> historicalPrices \<noteq> [] \<and> models \<noteq> []"
    by auto
  have "\<exists>path g'. model_predict True m g historicalPrices days = Inr (path, g')
            \<and> model_predict False m g historicalPrices days = Inr (path, g')" for m
  proof -
    from model_predict_returns[OF ne assms(2), of g m] obtain p k where
      r: "model_predict True m g historicalPrices days = Inr (p, \<lambda>j. g (j + k))" by blast
    from agrees_Inr[OF agrees_model_predict r] r show ?thesis by blast
  qed
  moreover
  from EnsembleModel_predict_structure[OF ne2 assms(2), of g volatilityFactor] obtain rs k' where
    r: "EnsembleModel_predict True models g historicalPrices days volatilityFactor
       = Inr (rs, \<lambda>j. g (j + k'))" by blast
  from agrees_Inr[OF agrees_EnsembleModel_predict r] r
  have "\<exists>results g'.
            EnsembleModel_predict True models g historicalPrices days volatilityFactor
              = Inr (results, g')
            \<and> EnsembleModel_predict False models g historicalPrices days volatilityFactor
              = Inr (results, g')" by blast
  moreover have
    "foldl (\<lambda>sum model. sum + model_confidence model) (Fin 0) models = Fin 1.10"
    "length models = 5"
    by (simp_all add: assms(3))
  ultimately show ?thesis by blast
qed

text \<open>A series of one price and a horizon of seven days.\<close>

theorem checked_predict_returns_witness:
  "[Fin 100] \<noteq> [] \<and> (0::int) \<le> 7
   \<and> (\<exists>path g'. model_predict True BERTModel (\<lambda>n. 1 / 2) [Fin 100] 7 = Inr (path, g')
          \<and> model_predict False BERTModel (\<lambda>n. 1 / 2) [Fin 100] 7 = Inr (path, g'))
   \<and> (\<exists>results g'.
         EnsembleModel_predict True EnsembleModel_models (\<lambda>n. 1 / 2) [Fin 100] 7 (Fin 1)
           = Inr (results, g')
         \<and> EnsembleModel_predict False EnsembleModel_models (\<lambda>n. 1 / 2) [Fin 100] 7 (Fin 1)
           = Inr (results, g'))"
  using checked_predict_returns [of "[Fin 100]" 7 EnsembleModel_models False "Fin 1"
      "\<lambda>n. 1 / 2" "Fin 1"]
  by (simp add: EnsembleModel_models_def)

section \<open>The confidence is not clamped\<close>

lemma confidence_not_finite_at_zero: "\<not> isFinite (Fin 1 - x / Fin 0)"
proof (cases x)
  case (Fin a)
  then show ?thesis by (cases "a = 0"; cases "0 < a") simp_all
qed simp_all

text \<open>
  Claim C8. For every day \<open>d\<close> below the horizon the confidence that \<open>predict\<close> returns
  is \<open>1 - stdDev / predicted\<close>, where \<open>stdDev\<close> is the square root of what
  \<open>calculateVariance\<close> gives on the five prices of the day and \<open>predicted\<close> the combined
  price. Nothing clamps it and nothing guards the division: when the combined price is
  0 the confidence is not a finite number. Three runs of one day show it: the default
  models on the series \<open>[-100]\<close> give a confidence above 1; an impact of 30 on the
  series \<open>[100]\<close> gives a negative one; the default models on the series \<open>[0]\<close> give
  the combined price 0 and the confidence \<open>NaN\<close>.
\<close>

theorem confidence_unclamped:
  "(d < nat days \<longrightarrow>
      (\<exists>mps results g' variance.
          EnsembleModel_modelPredictions False models g historicalPrices days = Inr (mps, g')
          \<and> EnsembleModel_predict False models g historicalPrices days volatilityFactor
               = Inr (results, g')
          \<and> EnsembleModel_calculateVariance False (map (\<lambda>m. mp_predictions m ! d) mps)
               = Inr variance
          \<and> confidence (results ! d) = Fin 1 - Math_sqrt variance / predicted (results ! d)
          \<and> (predicted (results ! d) = Fin 0 \<longrightarrow> \<not> isFinite (confidence (results ! d)))))
   \<and> (\<exists>results g'.
         EnsembleModel_predict False EnsembleModel_models (\<lambda>n. 1 / 2) [Fin (- 100)] 1 (Fin 1)
           = Inr (results, g')
         \<and> (\<exists>c>1. confidence (results ! 0) = Fin c))
   \<and> (\<exists>results g'.
         EnsembleModel_predict False
           [TransformerModel, RandomForestModel, XGBoostModel, SentimentModel True (Fin 30),
            BERTModel]
           (\<lambda>n. 1 / 2) [Fin 100] 1 (Fin 1) = Inr (results, g')
         \<and> (\<exists>c<0. confidence (results ! 0) = Fin c))
   \<and> EnsembleModel_predict False EnsembleModel_models (\<lambda>n. 1 / 2) [Fin 0] 1 (Fin 1)
       = Inr ([\<lparr>predicted = Fin 0, upperBound = Fin 0, lowerBound = Fin 0, confidence = NaN\<rparr>],
              \<lambda>n. 1 / 2)"
proof (intro conjI impI)
  assume "d < nat days"
  from EnsembleModel_predict_fields[OF this, of models g historicalPrices volatilityFactor]
  obtain mps results g' variance where
    f: "EnsembleModel_modelPredictions False models g historicalPrices days = Inr (mps, g')"
       "EnsembleModel_predict False models g historicalPrices days volatilityFactor
          = Inr (results, g')"
       "EnsembleModel_calculateVariance False (map (\<lambda>m. mp_predictions m ! d) mps)
          = Inr variance"
       "confidence (results ! d) = Fin 1 - Math_sqrt variance / predicted (results ! d)"
    by blast
  then have "predicted (results ! d) = Fin 0 \<longrightarrow> \<not> isFinite (confidence (results ! d))"
    by (simp add: confidence_not_finite_at_zero)
  with f show "\<exists>mps results g' variance.
          EnsembleModel_modelPredictions False models g historicalPrices days = Inr (mps, g')
          \<and> EnsembleModel_predict False models g historicalPrices days volatilityFactor
               = Inr (results, g')
          \<and> EnsembleModel_calculateVariance False (map (\<lambda>m. mp_predictions m ! d) mps)
               = Inr variance
          \<and> confidence (results ! d) = Fin 1 - Math_sqrt variance / predicted (results ! d)
          \<and> (predicted (results ! d) = Fin 0 \<longrightarrow> \<not> isFinite (confidence (results ! d)))"
    by blast
next
  show "\<exists>results g'.
         EnsembleModel_predict False EnsembleModel_models (\<lambda>n. 1 / 2) [Fin (- 100)] 1 (Fin 1)
           = Inr (results, g')
         \<and> (\<exists>c>1. confidence (results ! 0) = Fin c)"
    by (simp add: engine_defs upt_0_1 EnsembleModel_models_def power2_eq_square)
next
  have s: "sqrt 1345600 = 1160" by (rule real_sqrt_unique) simp_all
  show "\<exists>results g'.
         EnsembleModel_predict False
           [TransformerModel, RandomForestModel, XGBoostModel, SentimentModel True (Fin 30),
            BERTModel]
           (\<lambda>n. 1 / 2) [Fin 100] 1 (Fin 1) = Inr (results, g')
         \<and> (\<exists>c<0. confidence (results ! 0) = Fin c)"
    by (simp add: engine_defs upt_0_1 s)
next
  show "EnsembleModel_predict False EnsembleModel_models (\<lambda>n. 1 / 2) [Fin 0] 1 (Fin 1)
       = Inr ([\<lparr>predicted = Fin 0, upperBound = Fin 0, lowerBound = Fin 0, confidence = NaN\<rparr>],
              \<lambda>n. 1 / 2)"
    by (simp add: engine_defs upt_0_1 EnsembleModel_models_def power2_eq_square)
qed

text \<open>The first day of a forecast of seven days.\<close>

theorem confidence_unclamped_witness:
  "(0::nat) < nat 7
   \<and> (\<exists>mps results g' variance.
          EnsembleModel_modelPredictions False EnsembleModel_models (\<lambda>n. 1 / 2) [Fin 100] 7
            = Inr (mps, g')
          \<and> EnsembleModel_predict False EnsembleModel_models (\<lambda>n. 1 / 2) [Fin 100] 7 (Fin 1)
               = Inr (results, g')
          \<and> EnsembleModel_calculateVariance False (map (\<lambda>m. mp_predictions m ! 0) mps)
               = Inr variance
          \<and> confidence (results ! 0) = Fin 1 - Math_sqrt variance / predicted (results ! 0))"
  using confidence_unclamped [of 0 7 EnsembleModel_models "\<lambda>n. 1 / 2" "[Fin 100]" "Fin 1"]
  by auto

end
